(* ===== verification/Prelude.thy ===== *)
theory Prelude
  imports Main "HOL-Library.Word" "HOL-Library.Sublist" "HOL-Library.AList"
begin

text \<open>
  Shared vocabulary of the development: the parts of Go's \<open>strings\<close> and \<open>strconv\<close> packages
  that the bridge uses, the machine integers it computes with, the cancellation tree of
  \<open>context.Context\<close>, and the generic transition-system and interface locales.

  A Go \<open>string\<close> is a sequence of bytes, and so is Isabelle's \<^typ>\<open>string\<close> (a list of 8-bit
  characters); UTF-8 decoding, where the source asks for it, is in theory Utf8.
\<close>

named_theorems go_str \<open>facts about the modelled string functions\<close>
named_theorems keeps \<open>operations that keep the invariant of their component\<close>

section \<open>Results\<close>

text \<open>A Go function returning \<open>(T, error)\<close> returns \<open>Inl err\<close> or \<open>Inr value\<close>.\<close>

type_synonym ('e, 'a) result = "'e + 'a"

fun is_ok :: "'e + 'a \<Rightarrow> bool" where
  "is_ok (Inr _) = True"
| "is_ok (Inl _) = False"

lemma is_ok_iff: "is_ok r \<longleftrightarrow> (\<exists>x. r = Inr x)"
  by (cases r) auto

section \<open>The strings package\<close>

abbreviation HasPrefix :: "string \<Rightarrow> string \<Rightarrow> bool" where
  "HasPrefix s p \<equiv> prefix p s"

abbreviation HasSuffix :: "string \<Rightarrow> string \<Rightarrow> bool" where
  "HasSuffix s p \<equiv> suffix p s"

abbreviation Contains :: "string \<Rightarrow> string \<Rightarrow> bool" where
  "Contains s t \<equiv> sublist t s"

definition TrimPrefix :: "string \<Rightarrow> string \<Rightarrow> string" where
  "TrimPrefix s p = (if HasPrefix s p then drop (length p) s else s)"

definition TrimSuffix :: "string \<Rightarrow> string \<Rightarrow> string" where
  "TrimSuffix s p = (if HasSuffix s p then take (length s - length p) s else s)"

definition TrimLeft :: "string \<Rightarrow> string \<Rightarrow> string" where
  "TrimLeft s cutset = dropWhile (\<lambda>c. c \<in> set cutset) s"

definition TrimRight :: "string \<Rightarrow> string \<Rightarrow> string" where
  "TrimRight s cutset = rev (dropWhile (\<lambda>c. c \<in> set cutset) (rev s))"

text \<open>\<open>strings.Split\<close> on a one-byte separator: always at least one part.\<close>

fun Split :: "char \<Rightarrow> string \<Rightarrow> string list" where
  "Split c [] = [[]]"
| "Split c (x # xs) =
     (if x = c then [] # Split c xs
      else (case Split c xs of [] \<Rightarrow> [[x]] | p # ps \<Rightarrow> (x # p) # ps))"

fun Join :: "string \<Rightarrow> string list \<Rightarrow> string" where
  "Join sep [] = []"
| "Join sep [p] = p"
| "Join sep (p # q # ps) = p @ sep @ Join sep (q # ps)"

lemma Split_nonempty [simp]: "Split c s \<noteq> []"
  by (induction s) (auto split: list.splits)

lemma Split_no_sep: "c \<notin> set s \<Longrightarrow> Split c s = [s]"
  by (induction s) auto

lemma Split_parts_no_sep: "p \<in> set (Split c s) \<Longrightarrow> c \<notin> set p"
  by (induction s arbitrary: p) (auto split: list.splits if_splits)

lemma Split_parts_subset: "p \<in> set (Split c s) \<Longrightarrow> set p \<subseteq> set s"
proof (induction s arbitrary: p)
  case Nil
  then show ?case by simp
next
  case (Cons x xs)
  obtain q qs where q: "Split c xs = q # qs" by (cases "Split c xs") auto
  with Cons.IH have IH: "set r \<subseteq> set xs" if "r \<in> set (q # qs)" for r using that by simp
  from Cons.prems q have "p = [] \<or> p \<in> set (q # qs) \<or> p = x # q" by (auto split: if_splits)
  with IH [of p] IH [of q] show ?case by auto
qed

lemma Split_append_sep: "Split c (s @ c # t) = Split c s @ Split c t"
proof (induction s)
  case Nil
  then show ?case by simp
next
  case (Cons x xs)
  obtain q qs where "Split c xs = q # qs" by (cases "Split c xs") auto
  with Cons show ?case by simp
qed

lemma Join_Split: "Join [c] (Split c s) = s"
proof (induction s)
  case Nil
  then show ?case by simp
next
  case (Cons x xs)
  obtain q qs where q: "Split c xs = q # qs" by (cases "Split c xs") auto
  with Cons show ?case by (cases qs) auto
qed

lemma Split_Join:
  "ps \<noteq> [] \<Longrightarrow> (\<And>p. p \<in> set ps \<Longrightarrow> c \<notin> set p) \<Longrightarrow> Split c (Join [c] ps) = ps"
proof (induction "[c]" ps rule: Join.induct)
  case (3 p q ps)
  then have "Split c (p @ c # Join [c] (q # ps)) = Split c p @ Split c (Join [c] (q # ps))"
    by (intro Split_append_sep)
  with 3 show ?case by (simp add: Split_no_sep)
qed (auto simp: Split_no_sep)

lemma Join_append:
  "ps \<noteq> [] \<Longrightarrow> qs \<noteq> [] \<Longrightarrow> Join sep (ps @ qs) = Join sep ps @ sep @ Join sep qs"
proof (induction sep ps rule: Join.induct)
  case (2 sep p)
  then show ?case by (cases qs) auto
qed auto

lemma Join_eq_Nil: "Join [c] ps = [] \<longleftrightarrow> ps = [] \<or> ps = [[]]"
  by (induction "[c]" ps rule: Join.induct) auto

lemma set_Join: "set (Join sep ps) \<subseteq> set sep \<union> (\<Union>p\<in>set ps. set p)"
  by (induction sep ps rule: Join.induct) auto

lemma TrimPrefix_append [simp]: "TrimPrefix (p @ s) p = s"
  by (simp add: TrimPrefix_def)

lemma TrimSuffix_append [simp]: "TrimSuffix (s @ p) p = s"
  by (simp add: TrimSuffix_def suffixI)

lemma TrimSuffix_suffix: "HasSuffix s p \<Longrightarrow> TrimSuffix s p @ p = s"
  by (auto simp: TrimSuffix_def suffix_def)

lemma TrimLeft_no: "s = [] \<or> hd s \<notin> set cs \<Longrightarrow> TrimLeft s cs = s"
  by (cases s) (auto simp: TrimLeft_def)

lemma TrimLeft_hd: "TrimLeft s cs \<noteq> [] \<Longrightarrow> hd (TrimLeft s cs) \<notin> set cs"
  unfolding TrimLeft_def by (rule hd_dropWhile)

lemma sublist_subset: "sublist t s \<Longrightarrow> set t \<subseteq> set s"
  by (auto simp: sublist_def)

section \<open>Decimal numbers (strconv, and the d verb of fmt)\<close>

definition digit :: "nat \<Rightarrow> char" where
  "digit d = char_of (48 + d)"

fun itoa :: "nat \<Rightarrow> string" where
  "itoa n = (if n < 10 then [digit n] else itoa (n div 10) @ [digit (n mod 10)])"

declare itoa.simps [simp del]

definition itoa_int :: "int \<Rightarrow> string" where
  "itoa_int i = (if i < 0 then CHR ''-'' # itoa (nat (- i)) else itoa (nat i))"

definition is_digit :: "char \<Rightarrow> bool" where
  "is_digit c \<longleftrightarrow> 48 \<le> (of_char c :: nat) \<and> (of_char c :: nat) \<le> 57"

definition digit_val :: "char \<Rightarrow> nat" where
  "digit_val c = of_char c - 48"

fun digits_val :: "nat \<Rightarrow> string \<Rightarrow> nat" where
  "digits_val acc [] = acc"
| "digits_val acc (c # cs) = digits_val (10 * acc + digit_val c) cs"

text \<open>\<open>strconv.ParseUint(s, 10, 64)\<close>: \<open>None\<close> stands for its syntax and range errors.\<close>

definition ParseUint :: "string \<Rightarrow> 64 word option" where
  "ParseUint s =
     (if s = [] \<or> \<not> list_all is_digit s then None
      else if digits_val 0 s < 2 ^ 64 then Some (of_nat (digits_val 0 s)) else None)"

text \<open>\<open>strconv.Atoi\<close> on a 64-bit platform: an optional sign, then decimal digits.\<close>

definition Atoi :: "string \<Rightarrow> int option" where
  "Atoi s =
     (let neg = (s \<noteq> [] \<and> hd s = CHR ''-'');
          t = (if s \<noteq> [] \<and> (hd s = CHR ''-'' \<or> hd s = CHR ''+'') then tl s else s)
      in if t = [] \<or> \<not> list_all is_digit t then None
         else let v = (if neg then - int (digits_val 0 t) else int (digits_val 0 t))
              in if - (2 ^ 63) \<le> v \<and> v < 2 ^ 63 then Some v else None)"

lemma of_char_digit: "d < 10 \<Longrightarrow> of_char (digit d) = 48 + d"
  by (simp add: digit_def)

lemma is_digit_digit [simp]: "d < 10 \<Longrightarrow> is_digit (digit d)"
  by (simp add: is_digit_def of_char_digit)

lemma digit_val_digit [simp]: "d < 10 \<Longrightarrow> digit_val (digit d) = d"
  by (simp add: digit_val_def of_char_digit)

lemma digits_val_append: "digits_val acc (s @ t) = digits_val (digits_val acc s) t"
  by (induction s arbitrary: acc) auto

lemma itoa_nonempty [simp]: "itoa n \<noteq> []"
  by (subst itoa.simps) simp

lemma itoa_digits: "list_all is_digit (itoa n)"
proof (induction n rule: itoa.induct)
  case (1 n)
  then show ?case by (subst itoa.simps) auto
qed

lemma digits_val_itoa: "digits_val 0 (itoa n) = n"
proof (induction n rule: itoa.induct)
  case (1 n)
  show ?case
  proof (cases "n < 10")
    case True
    then show ?thesis by (subst itoa.simps) simp
  next
    case False
    with 1 show ?thesis by (subst itoa.simps) (simp add: digits_val_append)
  qed
qed

lemma itoa_inj: "itoa m = itoa n \<Longrightarrow> m = n"
  by (metis digits_val_itoa)

lemma ParseUint_itoa: "n < 2 ^ 64 \<Longrightarrow> ParseUint (itoa n) = Some (of_nat n)"
  by (simp add: ParseUint_def itoa_digits digits_val_itoa)

lemma ParseUint_Some:
  "ParseUint s = Some w \<Longrightarrow> unat w = digits_val 0 s \<and> list_all is_digit s \<and> s \<noteq> []"
  by (auto simp: ParseUint_def unat_of_nat split: if_splits)

section \<open>The q verb of fmt\<close>

text \<open>\<open>strconv.Quote\<close> on printable text; what it does to non-ASCII runes that Unicode does not
  call printable is left out.\<close>

definition quote_char :: "char \<Rightarrow> string" where
  "quote_char c =
     (let n = of_char c :: nat; bs = CHR 0x5C;
          hex = (\<lambda>d. char_of (if d < 10 then 48 + d else 87 + d)) in
      if n = 34 then [bs, c] else if n = 92 then [bs, bs]
      else if n = 7 then [bs, CHR ''a''] else if n = 8 then [bs, CHR ''b'']
      else if n = 9 then [bs, CHR ''t''] else if n = 10 then [bs, CHR ''n'']
      else if n = 11 then [bs, CHR ''v''] else if n = 12 then [bs, CHR ''f'']
      else if n = 13 then [bs, CHR ''r'']
      else if n < 32 \<or> n = 127 then [bs, CHR ''x'', hex (n div 16), hex (n mod 16)]
      else [c])"

definition quoted :: "string \<Rightarrow> string" where
  "quoted s = CHR 0x22 # concat (map quote_char s) @ [CHR 0x22]"

section \<open>Machine integers\<close>

text \<open>
  \<open>uint64\<close> is \<^typ>\<open>64 word\<close>. \<open>int64\<close> and \<open>int\<close> are \<^typ>\<open>int\<close> with the wrap-around of an
  addition written out by \<open>s64\<close>, and the conversions between the two types are those of Go.
\<close>

type_synonym uint64 = "64 word"

abbreviation MaxInt64 :: int where
  "MaxInt64 \<equiv> 9223372036854775807"

definition s64 :: "int \<Rightarrow> int" where
  "s64 x = (x + 2 ^ 63) mod 2 ^ 64 - 2 ^ 63"

definition to_uint64 :: "int \<Rightarrow> uint64" where
  "to_uint64 x = word_of_int x"

definition to_int64 :: "uint64 \<Rightarrow> int" where
  "to_int64 w = sint w"

lemma s64_id: "- (2 ^ 63) \<le> x \<Longrightarrow> x \<le> MaxInt64 \<Longrightarrow> s64 x = x"
  by (simp add: s64_def)

lemma unat_to_uint64: "0 \<le> x \<Longrightarrow> x < 2 ^ 64 \<Longrightarrow> int (unat (to_uint64 x)) = x"
  by (simp add: to_uint64_def unsigned_of_int take_bit_int_eq_self)

lemma unat_to_uint64_nat: "0 \<le> x \<Longrightarrow> x < 2 ^ 64 \<Longrightarrow> unat (to_uint64 x) = nat x"
  by (metis nat_int unat_to_uint64)

lemma to_int64_unat: "uint w \<le> MaxInt64 \<Longrightarrow> to_int64 w = int (unat w)"
proof -
  assume a: "uint w \<le> MaxInt64"
  have "- (2 ^ 63) \<le> uint w" by (rule order_trans [of _ 0]) simp_all
  with a have "signed_take_bit 63 (uint w) = uint w"
    by (intro signed_take_bit_int_eq_self) simp_all
  then show ?thesis by (simp add: to_int64_def sint_uint)
qed

lemma to_int64_uint: "uint w \<le> MaxInt64 \<Longrightarrow> to_int64 w = uint w"
  by (simp add: to_int64_unat uint_nat [symmetric] del: of_nat_unat)

section \<open>Cancellation contexts\<close>

text \<open>
  A \<open>context.Context\<close> made by \<open>WithCancel\<close> is done when its own cancel function or that of an
  ancestor has run. A context is the list of the cancel tokens on its path to the root; the
  store holds the tokens handed out and the ones cancelled.
\<close>

type_synonym ctx = "nat list"

record ctx_store =
  next_token :: nat
  cancelled :: "nat list"

definition ctx_init :: ctx_store where
  "ctx_init = \<lparr>next_token = 0, cancelled = []\<rparr>"

definition with_cancel :: "ctx \<Rightarrow> ctx_store \<Rightarrow> ctx \<times> ctx_store" where
  "with_cancel parent cs =
     (next_token cs # parent, cs\<lparr>next_token := Suc (next_token cs)\<rparr>)"

definition cancel_ctx :: "ctx \<Rightarrow> ctx_store \<Rightarrow> ctx_store" where
  "cancel_ctx c cs = (case c of [] \<Rightarrow> cs | t # _ \<Rightarrow> cs\<lparr>cancelled := t # cancelled cs\<rparr>)"

definition ctx_done :: "ctx_store \<Rightarrow> ctx \<Rightarrow> bool" where
  "ctx_done cs c \<longleftrightarrow> list_ex (\<lambda>t. t \<in> set (cancelled cs)) c"

lemma ctx_done_cancel_self: "c \<noteq> [] \<Longrightarrow> ctx_done (cancel_ctx c cs) c"
  by (cases c) (simp_all add: ctx_done_def cancel_ctx_def)

lemma ctx_done_cancel_parent:
  "c \<noteq> [] \<Longrightarrow> ctx_done (cancel_ctx c cs) (t # c)"
  using ctx_done_cancel_self [of c cs] by (simp add: ctx_done_def)

lemma ctx_done_mono: "ctx_done cs c \<Longrightarrow> ctx_done (cancel_ctx d cs) c"
  by (auto simp: ctx_done_def cancel_ctx_def list_ex_iff split: list.splits)

section \<open>Association lists\<close>

text \<open>
  Go maps whose size or whose entries are enumerated are association lists with distinct
  keys; \<open>map_of\<close> looks a key up.
\<close>

abbreviation aput :: "'k \<Rightarrow> 'v \<Rightarrow> ('k \<times> 'v) list \<Rightarrow> ('k \<times> 'v) list" where
  "aput \<equiv> AList.update"

abbreviation adel :: "'k \<Rightarrow> ('k \<times> 'v) list \<Rightarrow> ('k \<times> 'v) list" where
  "adel \<equiv> AList.delete"

abbreviation akeys :: "('k \<times> 'v) list \<Rightarrow> 'k list" where
  "akeys m \<equiv> map fst m"

declare map_of_eq_Some_iff [simp del]
declare Some_eq_map_of_iff [simp del]

lemma map_of_aput [simp]: "map_of (aput k v m) = (map_of m)(k \<mapsto> v)"
  by (rule update_conv')

lemma map_of_adel [simp]: "map_of (adel k m) = (map_of m)(k := None)"
  by (rule delete_conv')

lemma distinct_aput [simp]: "distinct (akeys m) \<Longrightarrow> distinct (akeys (aput k v m))"
  by (rule distinct_update)

lemma distinct_adel [simp]: "distinct (akeys m) \<Longrightarrow> distinct (akeys (adel k m))"
  by (rule distinct_delete)

lemma akeys_adel: "akeys (adel k m) = filter (\<lambda>x. x \<noteq> k) (akeys m)"
  by (induction m) auto

lemma set_akeys_aput: "set (akeys (aput k v m)) = insert k (set (akeys m))"
  by (induction m) auto

lemma adel_notin: "k \<notin> set (akeys m) \<Longrightarrow> adel k m = m"
  by (induction m) auto

lemma aput_notin: "k \<notin> set (akeys m) \<Longrightarrow> aput k v m = m @ [(k, v)]"
  by (induction m) auto

lemma map_of_None_akeys: "map_of m k = None \<longleftrightarrow> k \<notin> set (akeys m)"
  by (simp add: map_of_eq_None_iff)

text \<open>The sum of a measure over the values of an association list.\<close>

definition asum :: "('v \<Rightarrow> nat) \<Rightarrow> ('k \<times> 'v) list \<Rightarrow> nat" where
  "asum f m = sum_list (map (f \<circ> snd) m)"

lemma asum_Nil [simp]: "asum f [] = 0"
  by (simp add: asum_def)

lemma asum_Cons [simp]: "asum f ((k, v) # m) = f v + asum f m"
  by (simp add: asum_def)

lemma asum_aput_new: "k \<notin> set (akeys m) \<Longrightarrow> asum f (aput k v m) = asum f m + f v"
  by (induction m) auto

lemma asum_adel:
  "distinct (akeys m) \<Longrightarrow> map_of m k = Some v \<Longrightarrow> asum f m = asum f (adel k m) + f v"
proof (induction m)
  case (Cons p m)
  obtain a b where p: "p = (a, b)" by (cases p)
  show ?case
  proof (cases "a = k")
    case True
    with Cons.prems p have "b = v" and "k \<notin> set (akeys m)" by auto
    with True p show ?thesis by (simp add: adel_notin)
  next
    case False
    with Cons p show ?thesis by auto
  qed
qed simp

lemma asum_aput_old:
  "distinct (akeys m) \<Longrightarrow> map_of m k = Some v \<Longrightarrow> asum f (aput k v' m) + f v = asum f m + f v'"
proof (induction m)
  case (Cons p m)
  obtain a b where p: "p = (a, b)" by (cases p)
  show ?case
  proof (cases "a = k")
    case True
    with Cons.prems p show ?thesis by auto
  next
    case False
    with Cons p show ?thesis by auto
  qed
qed simp

lemma asum_ge: "distinct (akeys m) \<Longrightarrow> map_of m k = Some v \<Longrightarrow> f v \<le> asum f m"
  by (simp add: asum_adel)

lemma asum_cong: "(\<And>k v. (k, v) \<in> set m \<Longrightarrow> f v = g v) \<Longrightarrow> asum f m = asum g m"
  unfolding asum_def by (rule arg_cong [where f = sum_list]) auto

lemma asum_fun_upd_notin:
  "distinct (akeys m) \<Longrightarrow> (\<And>k. map_of m k \<noteq> Some v) \<Longrightarrow> asum (f(v := x)) m = asum f m"
  by (rule asum_cong) (metis fun_upd_apply map_of_eq_Some_iff)

lemma asum_fun_upd_in:
  assumes d: "distinct (akeys m)" and k: "map_of m k = Some v"
    and u: "\<And>k'. map_of m k' = Some v \<Longrightarrow> k' = k"
  shows "asum (f(v := x)) m + f v = asum f m + x"
proof -
  have "asum (f(v := x)) (adel k m) = asum f (adel k m)"
    using d u by (intro asum_fun_upd_notin) auto
  then show ?thesis using asum_adel [OF d k, of f] asum_adel [OF d k, of "f(v := x)"] by simp
qed

lemma map_of_filter_distinct:
  "distinct (akeys m) \<Longrightarrow> map_of (filter P m) k
     = (case map_of m k of None \<Rightarrow> None | Some v \<Rightarrow> if P (k, v) then Some v else None)"
proof (induction m)
  case (Cons e m)
  obtain k' v' where e: "e = (k', v')" by (cases e)
  have new: "map_of m k' = None" using Cons.prems e by (simp add: map_of_eq_None_iff)
  have IH: "map_of (filter P m) k
     = (case map_of m k of None \<Rightarrow> None | Some v \<Rightarrow> if P (k, v) then Some v else None)"
    using Cons by simp
  show ?case using new IH by (cases "k = k'") (simp_all add: e)
qed simp

end
