(* ===== verification/GoPath.thy ===== *)
theory GoPath
  imports Prelude
begin

text \<open>
  The functions of Go's \<open>path/filepath\<close> (Unix build) and \<open>path\<close> that the bridge calls:
  \<open>Clean\<close>, \<open>Base\<close>, \<open>Dir\<close>, \<open>Ext\<close>, \<open>Join\<close>, \<open>IsAbs\<close> and \<open>Rel\<close>, by the rules of their
  documentation, and the facts about lexical containment the path guards of the bridge rest on.
  A cleaned path is its list of components: \<open>clean_comps\<close> computes them with a stack, and
  \<open>Clean\<close> prints them.
\<close>

section \<open>Clean\<close>

text \<open>
  One component is pushed on the (reversed) stack: an empty one and a single dot vanish,
  dot-dot pops the component before it, is dropped at the root, and piles up otherwise.
\<close>

fun clean_step :: "bool \<Rightarrow> string list \<Rightarrow> string \<Rightarrow> string list" where
  "clean_step rooted st c =
     (if c = '''' \<or> c = ''.'' then st
      else if c = ''..'' then
        (case st of
           [] \<Rightarrow> if rooted then [] else [''..'']
         | d # ds \<Rightarrow> if d = ''..'' then ''..'' # st else ds)
      else c # st)"

declare clean_step.simps [simp del]

definition IsAbs :: "string \<Rightarrow> bool" where
  "IsAbs p \<longleftrightarrow> HasPrefix p ''/''"

definition clean_list :: "bool \<Rightarrow> string list \<Rightarrow> string list" where
  "clean_list rooted ps = rev (foldl (clean_step rooted) [] ps)"

definition clean_comps :: "string \<Rightarrow> string list" where
  "clean_comps p = clean_list (IsAbs p) (Split (CHR ''/'') p)"

definition render :: "bool \<Rightarrow> string list \<Rightarrow> string" where
  "render rooted cs =
     (if rooted then CHR ''/'' # Join ''/'' cs
      else if cs = [] then ''.'' else Join ''/'' cs)"

definition Clean :: "string \<Rightarrow> string" where
  "Clean p = (if p = '''' then ''.'' else render (IsAbs p) (clean_comps p))"

section \<open>Base, Dir, Ext, Join, Rel\<close>

definition Base :: "string \<Rightarrow> string" where
  "Base p =
     (if p = '''' then ''.''
      else let q = TrimRight p ''/'' in
        if q = '''' then ''/'' else last (Split (CHR ''/'') q))"

definition dir_part :: "string \<Rightarrow> string" where
  "dir_part p = rev (dropWhile (\<lambda>c. c \<noteq> CHR ''/'') (rev p))"

definition Dir :: "string \<Rightarrow> string" where
  "Dir p = Clean (dir_part p)"

definition Ext :: "string \<Rightarrow> string" where
  "Ext p =
     (let b = last (Split (CHR ''/'') p)
      in if CHR ''.'' \<in> set b then CHR ''.'' # rev (takeWhile (\<lambda>c. c \<noteq> CHR ''.'') (rev b))
         else '''')"

fun JoinPath :: "string list \<Rightarrow> string" where
  "JoinPath [] = ''''"
| "JoinPath (e # es) = (if e = '''' then JoinPath es else Clean (Join ''/'' (e # es)))"

fun strip_common :: "string list \<Rightarrow> string list \<Rightarrow> string list \<times> string list" where
  "strip_common (a # as) (b # bs) = (if a = b then strip_common as bs else (a # as, b # bs))"
| "strip_common as bs = (as, bs)"

text \<open>\<open>Rel\<close> fails (\<open>None\<close>) when one path is rooted and the other is not, and when the base
  goes up by dot-dot where the target does not.\<close>

definition Rel :: "string \<Rightarrow> string \<Rightarrow> string option" where
  "Rel base targ =
     (if Clean base = Clean targ then Some ''.''
      else if IsAbs (Clean base) \<noteq> IsAbs (Clean targ) then None
      else case strip_common (clean_comps base) (clean_comps targ) of (bs, ts) \<Rightarrow>
        if bs \<noteq> [] \<and> hd bs = ''..'' then None
        else Some (Join ''/'' (replicate (length bs) ''..'' @ ts)))"

section \<open>The components of a cleaned path\<close>

text \<open>A proper component names one directory entry.\<close>

definition proper :: "string \<Rightarrow> bool" where
  "proper c \<longleftrightarrow> c \<noteq> '''' \<and> c \<noteq> ''.'' \<and> c \<noteq> ''..'' \<and> CHR ''/'' \<notin> set c"

definition nonempty_comp :: "string \<Rightarrow> bool" where
  "nonempty_comp c \<longleftrightarrow> c \<noteq> '''' \<and> c \<noteq> ''.''"

lemma IsAbs_iff: "IsAbs p \<longleftrightarrow> (\<exists>q. p = CHR ''/'' # q)"
  by (auto simp: IsAbs_def prefix_def)

lemma IsAbs_Cons [simp]: "IsAbs (CHR ''/'' # p)"
  by (simp add: IsAbs_iff)

lemma IsAbs_append: "IsAbs p \<Longrightarrow> IsAbs (p @ q)"
  by (auto simp: IsAbs_iff)


lemma proper_nonempty: "proper c \<Longrightarrow> nonempty_comp c"
  by (simp add: proper_def nonempty_comp_def)

lemma clean_step_proper: "proper c \<Longrightarrow> clean_step r st c = c # st"
  by (simp add: clean_step.simps proper_def)

lemma clean_step_rooted:
  assumes st: "\<And>d. d \<in> set st \<Longrightarrow> proper d" and c: "CHR ''/'' \<notin> set c"
    and d: "d \<in> set (clean_step True st c)"
  shows "proper d"
proof -
  have "d \<in> set st \<or> d = c \<and> c \<noteq> '''' \<and> c \<noteq> ''.'' \<and> c \<noteq> ''..''"
  proof (cases st)
    case Nil
    with d show ?thesis by (simp add: clean_step.simps split: if_splits)
  next
    case (Cons e es)
    with st have "e \<noteq> ''..''" by (auto simp: proper_def)
    with d Cons show ?thesis by (auto simp: clean_step.simps split: if_splits)
  qed
  with st c show ?thesis by (auto simp: proper_def)
qed

lemma foldl_clean_rooted:
  assumes "\<And>d. d \<in> set st \<Longrightarrow> proper d" and "\<And>c. c \<in> set ps \<Longrightarrow> CHR ''/'' \<notin> set c"
    and "d \<in> set (foldl (clean_step True) st ps)"
  shows "proper d"
  using assms
proof (induction ps arbitrary: st)
  case (Cons p ps)
  have *: "\<And>d. d \<in> set (clean_step True st p) \<Longrightarrow> proper d"
    by (rule clean_step_rooted [of st p]) (use Cons.prems in auto)
  show ?case by (rule Cons.IH [OF *]) (use Cons.prems in auto)
qed simp

lemma clean_comps_proper: "IsAbs p \<Longrightarrow> c \<in> set (clean_comps p) \<Longrightarrow> proper c"
  unfolding clean_comps_def clean_list_def
  by (rule foldl_clean_rooted [where st = "[]" and ps = "Split (CHR ''/'') p"])
     (auto dest: Split_parts_no_sep)

lemma foldl_clean_no_dotdot:
  "''..'' \<notin> set ps \<Longrightarrow> foldl (clean_step r) st ps = rev (filter nonempty_comp ps) @ st"
  by (induction ps arbitrary: st) (auto simp: clean_step.simps nonempty_comp_def)

lemma clean_list_no_dotdot: "''..'' \<notin> set ps \<Longrightarrow> clean_list r ps = filter nonempty_comp ps"
  by (simp add: clean_list_def foldl_clean_no_dotdot)

lemma clean_list_proper: "(\<And>c. c \<in> set cs \<Longrightarrow> proper c) \<Longrightarrow> clean_list r cs = cs"
  by (subst clean_list_no_dotdot) (auto simp: proper_def nonempty_comp_def filter_id_conv)

lemma clean_list_append:
  "''..'' \<notin> set qs \<Longrightarrow> clean_list r (ps @ qs) = clean_list r ps @ filter nonempty_comp qs"
  by (simp add: clean_list_def foldl_clean_no_dotdot)

text \<open>Appending a path without dot-dot components below a path only appends components.\<close>

lemma clean_comps_below:
  assumes "p \<noteq> ''''" and "''..'' \<notin> set (Split (CHR ''/'') q)"
  shows "clean_comps (p @ CHR ''/'' # q)
           = clean_comps p @ filter nonempty_comp (Split (CHR ''/'') q)"
proof -
  have "IsAbs (p @ CHR ''/'' # q) = IsAbs p" using assms(1) by (cases p) (auto simp: IsAbs_iff)
  then show ?thesis
    by (simp add: clean_comps_def Split_append_sep clean_list_append assms(2))
qed

lemma Split_render:
  assumes "\<And>c. c \<in> set cs \<Longrightarrow> proper c"
  shows "Split (CHR ''/'') (render True cs) = '''' # (if cs = [] then [''''] else cs)"
proof -
  have "Split (CHR ''/'') (Join ''/'' cs) = cs" if "cs \<noteq> []"
    by (rule Split_Join [OF that]) (use assms in \<open>auto simp: proper_def\<close>)
  then show ?thesis by (simp add: render_def)
qed

lemma clean_comps_render:
  assumes "\<And>c. c \<in> set cs \<Longrightarrow> proper c"
  shows "clean_comps (render True cs) = cs"
proof -
  have s: "Split (CHR ''/'') (render True cs) = '''' # (if cs = [] then [''''] else cs)"
    by (rule Split_render) (rule assms)
  have "''..'' \<notin> set cs" using assms by (auto simp: proper_def)
  moreover have "filter nonempty_comp cs = cs"
    using assms by (auto simp: filter_id_conv intro: proper_nonempty)
  ultimately have "clean_list True (Split (CHR ''/'') (render True cs)) = cs"
    unfolding s by (subst clean_list_no_dotdot) (auto simp: nonempty_comp_def)
  then show ?thesis by (simp add: clean_comps_def IsAbs_def render_def)
qed

lemma Clean_abs: "IsAbs p \<Longrightarrow> Clean p = render True (clean_comps p)"
  by (auto simp: Clean_def IsAbs_iff)

lemma clean_comps_Clean: "IsAbs p \<Longrightarrow> clean_comps (Clean p) = clean_comps p"
  by (simp add: Clean_abs clean_comps_render clean_comps_proper)

lemma IsAbs_render [simp]: "IsAbs (render True cs)"
  by (simp add: render_def)

lemma IsAbs_CleanI: "IsAbs p \<Longrightarrow> IsAbs (Clean p)"
  by (simp add: Clean_abs)

lemma Clean_idem: "IsAbs p \<Longrightarrow> Clean (Clean p) = Clean p"
  by (simp add: Clean_abs clean_comps_render clean_comps_proper)

section \<open>Lexical containment\<close>

text \<open>A path lies at or below a directory when its components extend those of the directory.\<close>

definition below :: "string \<Rightarrow> string \<Rightarrow> bool" where
  "below root p \<longleftrightarrow> IsAbs p \<and> prefix (clean_comps root) (clean_comps p)"

lemma below_refl: "IsAbs p \<Longrightarrow> below p p"
  by (simp add: below_def)

lemma below_trans: "below r p \<Longrightarrow> below p q \<Longrightarrow> below r q"
  by (auto simp: below_def intro: prefix_order.trans)

lemma below_Clean: "IsAbs p \<Longrightarrow> below r (Clean p) = below r p"
  by (simp add: below_def clean_comps_Clean IsAbs_CleanI)

text \<open>
  The bridge decides containment on the printed paths, by equality or by the string prefix
  that ends in a slash. On cleaned paths that test is exactly \<open>below\<close>: the slash is what
  keeps \<open>/root\<close> from matching \<open>/root2\<close>.
\<close>

lemma Join_prefix_comps:
  assumes "cs \<noteq> []" and "\<And>c. c \<in> set cs \<Longrightarrow> proper c" and "\<And>c. c \<in> set ds \<Longrightarrow> proper c"
    and "ds \<noteq> []"
  shows "prefix (Join ''/'' cs @ ''/'') (Join ''/'' ds) \<longleftrightarrow> strict_prefix cs ds"
proof
  assume "prefix (Join ''/'' cs @ ''/'') (Join ''/'' ds)"
  then obtain t where "Join ''/'' ds = Join ''/'' cs @ CHR ''/'' # t" by (auto simp: prefix_def)
  then have "Split (CHR ''/'') (Join ''/'' ds) = Split (CHR ''/'') (Join ''/'' cs) @ Split (CHR ''/'') t"
    by (simp add: Split_append_sep)
  moreover have "Split (CHR ''/'') (Join ''/'' ds) = ds"
    by (rule Split_Join) (use assms in \<open>auto simp: proper_def\<close>)
  moreover have "Split (CHR ''/'') (Join ''/'' cs) = cs"
    by (rule Split_Join) (use assms in \<open>auto simp: proper_def\<close>)
  ultimately have "ds = cs @ Split (CHR ''/'') t" by simp
  then show "strict_prefix cs ds"
    using Split_nonempty [of "CHR ''/''" t] by (simp add: strict_prefix_def)
next
  assume "strict_prefix cs ds"
  then obtain es where "ds = cs @ es" and "es \<noteq> []"
    by (auto simp: strict_prefix_def prefix_def)
  then show "prefix (Join ''/'' cs @ ''/'') (Join ''/'' ds)"
    using Join_append [OF assms(1) \<open>es \<noteq> []\<close>, of "''/''"] by (simp add: prefix_def)
qed

lemma render_inj:
  assumes "\<And>c. c \<in> set cs \<Longrightarrow> proper c" and "\<And>c. c \<in> set ds \<Longrightarrow> proper c"
  shows "render True cs = render True ds \<longleftrightarrow> cs = ds"
  using clean_comps_render [OF assms(1)] clean_comps_render [OF assms(2)] by metis

text \<open>\<open>prefix_check\<close> is the test on the two cleaned paths, as the bridge writes it.\<close>

definition prefix_check :: "string \<Rightarrow> string \<Rightarrow> bool" where
  "prefix_check root p \<longleftrightarrow>
     p = root \<or> HasPrefix p (if HasSuffix root ''/'' then root else root @ ''/'')"

lemma Join_proper_suffix:
  "cs \<noteq> [] \<Longrightarrow> (\<And>c. c \<in> set cs \<Longrightarrow> proper c) \<Longrightarrow> Join ''/'' cs \<noteq> [] \<and> last (Join ''/'' cs) \<noteq> CHR ''/''"
proof (induction "''/''" cs rule: Join.induct)
  case (2 p)
  then have "proper p" by simp
  then have "p \<noteq> []" and "CHR ''/'' \<notin> set p" by (simp_all add: proper_def)
  with last_in_set [of p] show ?case by (metis Join.simps(2))
next
  case (3 p q ps)
  then have "Join ''/'' (q # ps) \<noteq> [] \<and> last (Join ''/'' (q # ps)) \<noteq> CHR ''/''" by simp
  then show ?case by simp
qed simp

lemma render_suffix_slash:
  assumes "\<And>c. c \<in> set cs \<Longrightarrow> proper c"
  shows "HasSuffix (render True cs) ''/'' \<longleftrightarrow> cs = []"
proof (cases "cs = []")
  case True
  then show ?thesis by (simp add: render_def)
next
  case False
  have "Join ''/'' cs \<noteq> [] \<and> last (Join ''/'' cs) \<noteq> CHR ''/''"
    by (rule Join_proper_suffix [OF False]) (rule assms)
  moreover have "HasSuffix s ''/'' \<longleftrightarrow> s \<noteq> [] \<and> last s = CHR ''/''" for s
    by (cases s rule: rev_cases) auto
  ultimately show ?thesis using False by (simp add: render_def)
qed

lemma prefix_check_comps:
  assumes cs: "\<And>c. c \<in> set cs \<Longrightarrow> proper c" and ds: "\<And>c. c \<in> set ds \<Longrightarrow> proper c"
  shows "prefix_check (render True cs) (render True ds) \<longleftrightarrow> prefix cs ds"
proof (cases "cs = []")
  case True
  then show ?thesis by (simp add: prefix_check_def render_def)
next
  case False
  have s: "\<not> HasSuffix (render True cs) ''/''" using False render_suffix_slash [OF cs] by simp
  have "HasPrefix (render True ds) (render True cs @ ''/'') \<longleftrightarrow> strict_prefix cs ds"
  proof (cases "ds = []")
    case True
    then show ?thesis using False by (simp add: render_def)
  next
    case ne: False
    show ?thesis using Join_prefix_comps [OF False cs ds ne] by (simp add: render_def)
  qed
  then show ?thesis
    using render_inj [OF ds cs] by (auto simp: prefix_check_def s prefix_order.le_less)
qed

lemma prefix_check_below:
  assumes "IsAbs root" and "IsAbs p"
  shows "prefix_check (Clean root) (Clean p) \<longleftrightarrow> below root p"
  using assms
  by (simp add: Clean_abs prefix_check_comps clean_comps_proper below_def)

section \<open>Join below a root\<close>

lemma JoinPath2: "a \<noteq> '''' \<Longrightarrow> JoinPath [a, b] = Clean (a @ CHR ''/'' # b)"
  by simp

lemma JoinPath_abs: "IsAbs a \<Longrightarrow> IsAbs (JoinPath [a, b])"
  by (auto simp: IsAbs_iff JoinPath2 Clean_abs render_def)

lemma clean_comps_JoinPath:
  assumes "IsAbs a" and "''..'' \<notin> set (Split (CHR ''/'') b)"
  shows "clean_comps (JoinPath [a, b]) = clean_comps a @ filter nonempty_comp (Split (CHR ''/'') b)"
proof -
  have ne: "a \<noteq> ''''" using assms(1) by (auto simp: IsAbs_iff)
  have "IsAbs (a @ CHR ''/'' # b)" using assms(1) by (rule IsAbs_append)
  then have "clean_comps (JoinPath [a, b]) = clean_comps (a @ CHR ''/'' # b)"
    using ne by (simp add: JoinPath2 clean_comps_Clean del: JoinPath.simps)
  then show ?thesis using clean_comps_below [OF ne assms(2)] by simp
qed

lemma JoinPath_below:
  "IsAbs a \<Longrightarrow> ''..'' \<notin> set (Split (CHR ''/'') b) \<Longrightarrow> below a (JoinPath [a, b])"
  by (simp add: below_def clean_comps_JoinPath JoinPath_abs del: JoinPath.simps)

lemma JoinPath_Clean: "IsAbs a \<Longrightarrow> Clean (JoinPath [a, b]) = JoinPath [a, b]"
proof -
  assume a: "IsAbs a"
  then have "a \<noteq> ''''" by (auto simp: IsAbs_iff)
  with IsAbs_append [OF a, of "CHR ''/'' # b"] show ?thesis by (simp add: Clean_idem)
qed

lemma Split_part_sublist: "c \<in> set (Split (CHR ''/'') p) \<Longrightarrow> sublist c p"
proof -
  assume "c \<in> set (Split (CHR ''/'') p)"
  then obtain as bs where s: "Split (CHR ''/'') p = as @ c # bs"
    by (meson split_list)
  have "p = Join ''/'' (as @ c # bs)"
    using Join_Split [of "CHR ''/''" p] s by simp
  also have "sublist c \<dots>"
  proof -
    have "Join ''/'' (c # bs) = c @ (if bs = [] then [] else ''/'' @ Join ''/'' bs)"
      by (cases bs) auto
    then have "sublist c (Join ''/'' (c # bs))" by (simp add: sublist_append_rightI)
    moreover have "sublist (Join ''/'' (c # bs)) (Join ''/'' (as @ c # bs))"
    proof (cases "as = []")
      case False
      then have eq: "Join ''/'' (as @ c # bs) = (Join ''/'' as @ ''/'') @ Join ''/'' (c # bs)"
        by (simp add: Join_append del: Join.simps)
      show ?thesis unfolding eq by (rule sublist_append_leftI)
    qed simp
    ultimately show ?thesis by (meson sublist_order.order_trans)
  qed
  finally show ?thesis .
qed

lemma no_dotdot_comp: "\<not> Contains p ''..'' \<Longrightarrow> ''..'' \<notin> set (Split (CHR ''/'') p)"
  using Split_part_sublist by blast

text \<open>A path without two adjacent dots, cleaned: its components have none either.\<close>

lemma Clean_parts_no_dots:
  assumes n: "\<not> Contains p ''..''" and c: "c \<in> set (Split (CHR ''/'') (Clean p))"
  shows "c \<in> {'''', ''.''} \<or> \<not> Contains c ''..''"
proof -
  let ?cs = "filter nonempty_comp (Split (CHR ''/'') p)"
  have cs: "clean_comps p = ?cs"
    using no_dotdot_comp [OF n] by (simp add: clean_comps_def clean_list_no_dotdot)
  have no: "\<not> Contains d ''..''" if "d \<in> set ?cs" for d
    using that n Split_part_sublist [of d p] by (auto dest: sublist_order.order_trans)
  have sl: "CHR ''/'' \<notin> set d" if "d \<in> set ?cs" for d
    using that Split_parts_no_sep by auto
  have "set (Split (CHR ''/'') (Clean p)) \<subseteq> {'''', ''.''} \<union> set ?cs"
  proof (cases "p = '''' \<or> ?cs = []")
    case True
    then show ?thesis by (auto simp: Clean_def render_def cs)
  next
    case False
    then have "Split (CHR ''/'') (Join ''/'' ?cs) = ?cs" using sl by (intro Split_Join) auto
    with False show ?thesis by (auto simp: Clean_def render_def cs)
  qed
  with c no show ?thesis by blast
qed

section \<open>Dir and Base of a cleaned absolute path\<close>

lemma dir_part_Join:
  assumes "CHR ''/'' \<notin> set c"
  shows "dir_part (s @ CHR ''/'' # c) = s @ ''/''"
proof -
  have "dropWhile (\<lambda>x. x \<noteq> CHR ''/'') (rev c @ CHR ''/'' # rev s) = CHR ''/'' # rev s"
    using assms by (subst dropWhile_append2) auto
  then show ?thesis by (simp add: dir_part_def)
qed

lemma Join_snoc: "cs \<noteq> [] \<Longrightarrow> Join sep (cs @ [c]) = Join sep cs @ sep @ c"
  by (subst Join_append) auto

lemma clean_comps_snoc_slash:
  "s \<noteq> '''' \<Longrightarrow> clean_comps (s @ ''/'') = clean_comps s"
  using clean_comps_below [of s "''''"] by (simp add: nonempty_comp_def)

lemma Dir_render:
  assumes "\<And>d. d \<in> set (cs @ [c]) \<Longrightarrow> proper d"
  shows "Dir (render True (cs @ [c])) = render True cs"
proof -
  have c: "CHR ''/'' \<notin> set c" using assms by (auto simp: proper_def)
  have csp: "\<And>d. d \<in> set cs \<Longrightarrow> proper d" using assms by simp
  show ?thesis
  proof (cases "cs = []")
    case True
    have "dir_part (CHR ''/'' # c) = ''/''" using dir_part_Join [OF c, of "''''"] by simp
    moreover have "Clean ''/'' = render True []"
      using clean_comps_render [of "[]"] by (simp add: Clean_abs render_def)
    ultimately show ?thesis using True by (simp add: Dir_def render_def)
  next
    case False
    have "render True (cs @ [c]) = render True cs @ CHR ''/'' # c"
      using False by (simp add: render_def Join_snoc)
    then have "dir_part (render True (cs @ [c])) = render True cs @ ''/''"
      using dir_part_Join [OF c] by simp
    moreover have "clean_comps (render True cs @ ''/'') = cs"
      using clean_comps_snoc_slash [of "render True cs"] clean_comps_render [OF csp]
      by (simp add: render_def)
    ultimately show ?thesis by (simp add: Dir_def Clean_abs IsAbs_append)
  qed
qed

lemma Base_snoc:
  assumes "proper c"
  shows "Base (s @ CHR ''/'' # c) = c"
proof -
  from assms have c: "CHR ''/'' \<notin> set c" "c \<noteq> []" by (auto simp: proper_def)
  then have "hd (rev c) \<noteq> CHR ''/''" by (metis hd_in_set rev_is_Nil_conv set_rev)
  then have "TrimRight (s @ CHR ''/'' # c) ''/'' = s @ CHR ''/'' # c"
    using c(2) by (cases "rev c") (auto simp: TrimRight_def)
  then show ?thesis using c by (simp add: Base_def Split_append_sep Split_no_sep)
qed

lemma Base_render:
  assumes "\<And>d. d \<in> set (cs @ [c]) \<Longrightarrow> proper d"
  shows "Base (render True (cs @ [c])) = c"
proof (cases "cs = []")
  case True
  then show ?thesis using Base_snoc [of c "''''"] assms by (simp add: render_def)
next
  case False
  then have "render True (cs @ [c]) = render True cs @ CHR ''/'' # c"
    by (simp add: render_def Join_snoc)
  then show ?thesis using Base_snoc [of c "render True cs"] assms by simp
qed

lemma Base_no_slash: "Base p \<noteq> ''/'' \<Longrightarrow> CHR ''/'' \<notin> set (Base p)"
proof -
  assume a: "Base p \<noteq> ''/''"
  have "CHR ''/'' \<notin> set (last (Split (CHR ''/'') q))" for q
    by (rule Split_parts_no_sep [OF last_in_set [OF Split_nonempty]])
  with a show ?thesis by (auto simp: Base_def Let_def split: if_splits)
qed

lemma Ext_suffix: "CHR ''/'' \<notin> set p \<Longrightarrow> HasSuffix p (Ext p)"
proof -
  assume "CHR ''/'' \<notin> set p"
  then have s: "Split (CHR ''/'') p = [p]" by (rule Split_no_sep)
  show ?thesis
  proof (cases "CHR ''.'' \<in> set p")
    case True
    let ?P = "\<lambda>c. c \<noteq> CHR ''.''"
    have "dropWhile ?P (rev p) \<noteq> []" using True by (auto simp: dropWhile_eq_Nil_conv)
    then obtain w where w: "dropWhile ?P (rev p) = CHR ''.'' # w"
      using hd_dropWhile [of ?P "rev p"] by (cases "dropWhile ?P (rev p)") auto
    have "rev p = takeWhile ?P (rev p) @ CHR ''.'' # w"
      using takeWhile_dropWhile_id [of ?P "rev p"] w by simp
    then have "rev (rev p) = rev (takeWhile ?P (rev p) @ CHR ''.'' # w)" by simp
    then have "p = rev w @ CHR ''.'' # rev (takeWhile ?P (rev p))"
      by (simp only: rev_rev_ident rev_append rev.simps append_assoc append_Cons append_Nil)
    moreover have "Ext p = CHR ''.'' # rev (takeWhile ?P (rev p))" using True s by (simp add: Ext_def)
    ultimately show ?thesis by (auto simp: suffix_def)
  qed (simp add: Ext_def s)
qed

section \<open>A parent directory is shorter\<close>

text \<open>The length a list of components has when printed with a slash after each.\<close>

definition cost :: "string list \<Rightarrow> nat" where
  "cost ps = sum_list (map (\<lambda>p. Suc (length p)) ps)"

lemma cost_simps [simp]: "cost [] = 0" "cost (p # ps) = Suc (length p) + cost ps"
  "cost (ps @ qs) = cost ps + cost qs" "cost (rev ps) = cost ps"
  by (auto simp: cost_def rev_map [symmetric])

lemma cost_Split: "cost (Split c s) = Suc (length s)"
proof (induction s)
  case (Cons x xs)
  obtain q qs where "Split c xs = q # qs" by (cases "Split c xs") auto
  with Cons show ?case by simp
qed simp

lemma cost_filter:
  "cost ps = cost (filter (\<lambda>p. p \<noteq> '''') ps) + length (filter (\<lambda>p. p = '''') ps)"
  by (induction ps) auto

lemma clean_step_cost: "cost (clean_step r st c) \<le> cost st + (if c = '''' then 0 else Suc (length c))"
  by (auto simp: clean_step.simps split: list.split)

lemma foldl_clean_cost: "cost (foldl (clean_step r) st ps) \<le> cost st + cost (filter (\<lambda>p. p \<noteq> '''') ps)"
proof (induction ps arbitrary: st)
  case (Cons p ps)
  have "cost (foldl (clean_step r) (clean_step r st p) ps)
      \<le> cost (clean_step r st p) + cost (filter (\<lambda>p. p \<noteq> '''') ps)" by (rule Cons.IH)
  with clean_step_cost [of r st p] show ?case by (auto split: if_splits)
qed simp

lemma length_Join_slash: "ps \<noteq> [] \<Longrightarrow> Suc (length (Join ''/'' ps)) = cost ps"
  by (induction "''/''" ps rule: Join.induct) auto

lemma Clean_slash_shorter:
  assumes "Clean (q @ ''/'') \<noteq> ''/''" and "Clean (q @ ''/'') \<noteq> ''.''"
  shows "length (Clean (q @ ''/'')) < length (q @ ''/'')"
proof -
  let ?p = "q @ ''/''"
  let ?cs = "clean_comps ?p"
  let ?empties = "length (filter (\<lambda>p. p = '''') (Split (CHR ''/'') ?p))"
  have split: "Split (CHR ''/'') ?p = Split (CHR ''/'') q @ ['''']"
    using Split_append_sep [of "CHR ''/''" q "''''"] by simp
  have "cost (foldl (clean_step (IsAbs ?p)) [] (Split (CHR ''/'') ?p))
      \<le> cost (filter (\<lambda>p. p \<noteq> '''') (Split (CHR ''/'') ?p))"
    using foldl_clean_cost [of "IsAbs ?p" "[]" "Split (CHR ''/'') ?p"] by simp
  then have c1: "cost ?cs \<le> cost (filter (\<lambda>p. p \<noteq> '''') (Split (CHR ''/'') ?p))"
    unfolding clean_comps_def clean_list_def by simp
  have c2: "cost (filter (\<lambda>p. p \<noteq> '''') (Split (CHR ''/'') ?p)) + ?empties = Suc (length ?p)"
    using cost_Split [of "CHR ''/''" ?p] cost_filter [of "Split (CHR ''/'') ?p"] by simp
  have r: "Clean ?p = render (IsAbs ?p) ?cs" by (simp add: Clean_def)
  show ?thesis
  proof (cases "IsAbs ?p")
    case True
    with assms(1) r have ne: "?cs \<noteq> []" "q \<noteq> ''''"
      using Clean_abs [OF True] by (auto simp: render_def clean_comps_def clean_list_def clean_step.simps)
    from True ne(2) obtain q' where "q = CHR ''/'' # q'" by (cases q) (auto simp: IsAbs_iff)
    then have "2 \<le> ?empties" unfolding split by simp
    with c1 c2 have "cost ?cs < length ?p" by linarith
    with r True length_Join_slash [OF ne(1)] show ?thesis by (simp add: render_def)
  next
    case False
    with assms(2) r have ne: "?cs \<noteq> []" by (auto simp: render_def)
    have "1 \<le> ?empties" unfolding split by simp
    with c1 c2 have "cost ?cs \<le> length ?p" by linarith
    with r False ne length_Join_slash [OF ne] show ?thesis by (simp add: render_def)
  qed
qed

lemma dir_part_cases: "dir_part p = '''' \<or> (\<exists>q. dir_part p = q @ ''/'' \<and> length (q @ ''/'') \<le> length p)"
proof -
  let ?P = "\<lambda>c. c \<noteq> CHR ''/''"
  show ?thesis
  proof (cases "dropWhile ?P (rev p)")
    case (Cons x xs)
    then have "x = CHR ''/''" using hd_dropWhile [of ?P "rev p"] by simp
    moreover have "length (dropWhile ?P (rev p)) \<le> length p"
      using length_dropWhile_le [of ?P "rev p"] by simp
    ultimately show ?thesis using Cons by (auto simp: dir_part_def)
  qed (simp add: dir_part_def)
qed

lemma Dir_shorter: "Dir p \<noteq> ''.'' \<Longrightarrow> Dir p \<noteq> ''/'' \<Longrightarrow> length (Dir p) < length p"
  using dir_part_cases [of p] Clean_slash_shorter by (fastforce simp: Dir_def Clean_def [of "''''"])

declare JoinPath.simps [simp del]

end
