(* ===== verification/Interfaces.thy ===== *)
theory Interfaces
  imports GoPath
begin

text \<open>
  The contracts the components of the bridge rely on, as locales. Each is interpreted, in the
  theory of the component that provides it, on the model of the code:
  \<^item> \<open>step_system\<close>: a state, its operations and an invariant that every operation keeps; it
    then holds after any sequence of operations. \<open>bounded_system\<close> adds a level and a limit.
  \<^item> \<open>slot_pool\<close>: counted slots taken and given back (FTP connections per source address,
    concurrent uploads per account).
  \<^item> \<open>ttl_cache\<close>: values kept for a bounded time (drive resolutions, health check results).
  \<^item> \<open>path_guard\<close>: a sanitiser whose accepted results have no parent reference.
\<close>

section \<open>Systems with an invariant\<close>

locale step_system =
  fixes step :: "'s \<Rightarrow> 'op \<Rightarrow> 's" and ok :: "'s \<Rightarrow> 'op \<Rightarrow> bool" and inv :: "'s \<Rightarrow> bool"
  assumes inv_step: "inv s \<Longrightarrow> ok s a \<Longrightarrow> inv (step s a)"

text \<open>A run whose operations all meet their side condition where they are executed.\<close>

fun run_ok :: "('s \<Rightarrow> 'op \<Rightarrow> 's) \<Rightarrow> ('s \<Rightarrow> 'op \<Rightarrow> bool) \<Rightarrow> 's \<Rightarrow> 'op list \<Rightarrow> bool" where
  "run_ok step ok s [] = True"
| "run_ok step ok s (a # as) = (ok s a \<and> run_ok step ok (step s a) as)"

lemma run_ok_append:
  "run_ok step ok s (as @ bs) \<longleftrightarrow> run_ok step ok s as \<and> run_ok step ok (foldl step s as) bs"
  by (induction as arbitrary: s) auto

context step_system
begin

lemma inv_run: "inv s \<Longrightarrow> run_ok step ok s as \<Longrightarrow> inv (foldl step s as)"
  by (induction as arbitrary: s) (auto intro: inv_step)

lemma inv_along:
  assumes "inv s" and "run_ok step ok s (as @ bs)"
  shows "inv (foldl step s as)"
  using assms by (simp add: run_ok_append inv_run)

end

text \<open>The same for a relation: what every step keeps holds in every state that is reached.\<close>

locale relation_system =
  fixes step :: "'s \<Rightarrow> 's \<Rightarrow> bool" and inv :: "'s \<Rightarrow> bool"
  assumes inv_rel: "inv s \<Longrightarrow> step s s' \<Longrightarrow> inv s'"
begin

lemma inv_reached: "step\<^sup>*\<^sup>* s s' \<Longrightarrow> inv s \<Longrightarrow> inv s'"
  by (induction rule: rtranclp_induct) (auto intro: inv_rel)

text \<open>A quantity that no step decreases, in a state that satisfies the invariant.\<close>

lemma grows_reached:
  assumes "step\<^sup>*\<^sup>* s s'" and "inv s" and "\<And>x y. inv x \<Longrightarrow> step x y \<Longrightarrow> (f x :: 'o :: preorder) \<le> f y"
  shows "f s \<le> f s'"
  using assms(1)
proof (induction rule: rtranclp_induct)
  case (step y z)
  then show ?case using assms(3) [OF inv_reached [OF step(1) assms(2)] step(2)] order_trans by blast
qed simp

end

locale bounded_system = step_system step ok inv
  for step :: "'s \<Rightarrow> 'op \<Rightarrow> 's" and ok :: "'s \<Rightarrow> 'op \<Rightarrow> bool" and inv :: "'s \<Rightarrow> bool" +
  fixes level :: "'s \<Rightarrow> nat" and limit :: "'s \<Rightarrow> nat"
  assumes level_limit: "inv s \<Longrightarrow> level s \<le> limit s"
    and limit_step: "inv s \<Longrightarrow> ok s a \<Longrightarrow> limit (step s a) = limit s"
begin

lemma limit_run: "inv s \<Longrightarrow> run_ok step ok s as \<Longrightarrow> limit (foldl step s as) = limit s"
  by (induction as arbitrary: s) (auto simp: limit_step inv_step)

lemma level_run: "inv s \<Longrightarrow> run_ok step ok s as \<Longrightarrow> level (foldl step s as) \<le> limit s"
  using limit_run level_limit inv_run by metis

end

section \<open>Slot pools\<close>

datatype 'k slot_event = Acquire 'k | Release 'k

text \<open>
  A client of a pool keeps its own ledger of the slots it was granted, and gives back only what
  it holds. \<open>slot_run\<close> plays a list of requests against the pool and keeps that ledger.
\<close>

fun slot_run ::
  "('k \<Rightarrow> 's \<Rightarrow> bool \<times> 's) \<Rightarrow> ('k \<Rightarrow> 's \<Rightarrow> 's) \<Rightarrow> 'k slot_event list \<Rightarrow> 's \<Rightarrow> ('k \<Rightarrow> nat) \<Rightarrow> 's \<times> ('k \<Rightarrow> nat)"
where
  "slot_run acq rel [] s led = (s, led)"
| "slot_run acq rel (Acquire k # es) s led =
     (case acq k s of
        (True, s') \<Rightarrow> slot_run acq rel es s' (led(k := Suc (led k)))
      | (False, s') \<Rightarrow> slot_run acq rel es s' led)"
| "slot_run acq rel (Release k # es) s led =
     (if 0 < led k then slot_run acq rel es (rel k s) (led(k := led k - 1))
      else slot_run acq rel es s led)"

locale slot_pool =
  fixes acq :: "'k \<Rightarrow> 's \<Rightarrow> bool \<times> 's" and rel :: "'k \<Rightarrow> 's \<Rightarrow> 's"
    and held :: "'s \<Rightarrow> 'k \<Rightarrow> nat" and inv :: "'s \<Rightarrow> bool"
    and cap :: "'s \<Rightarrow> 'k \<Rightarrow> nat option"
  assumes acq_granted: "inv s \<Longrightarrow> acq k s = (True, s') \<Longrightarrow>
      inv s' \<and> held s' = (held s)(k := Suc (held s k)) \<and> cap s' = cap s"
    and acq_refused: "inv s \<Longrightarrow> acq k s = (False, s') \<Longrightarrow> inv s' \<and> held s' = held s \<and> cap s' = cap s"
    and rel_held: "inv s \<Longrightarrow> 0 < held s k \<Longrightarrow>
      inv (rel k s) \<and> held (rel k s) = (held s)(k := held s k - 1) \<and> cap (rel k s) = cap s"
    and held_cap: "inv s \<Longrightarrow> cap s k = Some n \<Longrightarrow> held s k \<le> n"
begin

text \<open>The pool's books agree with the client's ledger throughout, and no cap is exceeded.\<close>

lemma run_ledger:
  "inv s \<Longrightarrow> held s = led \<Longrightarrow> slot_run acq rel es s led = (s', led') \<Longrightarrow>
     inv s' \<and> held s' = led' \<and> cap s' = cap s"
proof (induction es arbitrary: s led)
  case (Cons e es)
  show ?case
  proof (cases e)
    case (Acquire k)
    obtain g t where g: "acq k s = (g, t)" by (cases "acq k s")
    show ?thesis
    proof (cases g)
      case True
      with g acq_granted [OF Cons.prems(1), of k t]
      have t: "inv t" "held t = led(k := Suc (led k))" "cap t = cap s"
        using Cons.prems(2) by auto
      have "slot_run acq rel es t (led(k := Suc (led k))) = (s', led')"
        using Cons.prems(3) g True Acquire by simp
      from Cons.IH [OF t(1,2) this] t(3) show ?thesis by simp
    next
      case False
      with g acq_refused [OF Cons.prems(1), of k t]
      have t: "inv t" "held t = led" "cap t = cap s" using Cons.prems(2) by auto
      have "slot_run acq rel es t led = (s', led')" using Cons.prems(3) g False Acquire by simp
      from Cons.IH [OF t(1,2) this] t(3) show ?thesis by simp
    qed
  next
    case (Release k)
    show ?thesis
    proof (cases "0 < led k")
      case True
      with Cons.prems(2) have "0 < held s k" by simp
      from rel_held [OF Cons.prems(1) this] Cons.prems(2)
      have t: "inv (rel k s)" "held (rel k s) = led(k := led k - 1)" "cap (rel k s) = cap s" by auto
      have "slot_run acq rel es (rel k s) (led(k := led k - 1)) = (s', led')"
        using Cons.prems(3) True Release by simp
      from Cons.IH [OF t(1,2) this] t(3) show ?thesis by simp
    next
      case False
      with Cons.prems(3) Release have "slot_run acq rel es s led = (s', led')" by simp
      from Cons.IH [OF Cons.prems(1,2) this] show ?thesis .
    qed
  qed
qed simp

lemma run_capped:
  "inv s \<Longrightarrow> held s = led \<Longrightarrow> slot_run acq rel es s led = (s', led') \<Longrightarrow> cap s k = Some n \<Longrightarrow>
     held s' k \<le> n \<and> led' k \<le> n"
  using run_ledger [of s led es s' led'] held_cap [of s' k n] by auto

text \<open>A grant that is given back leaves the books as they were.\<close>

lemma acq_rel: "inv s \<Longrightarrow> acq k s = (True, s') \<Longrightarrow> held (rel k s') = held s"
  using acq_granted [of s k s'] rel_held [of s' k] by auto

end

section \<open>Caches with a time to live\<close>

locale ttl_cache =
  fixes get :: "int \<Rightarrow> 'k \<Rightarrow> 'c \<Rightarrow> 'v option" and put :: "int \<Rightarrow> 'k \<Rightarrow> 'v \<Rightarrow> 'c \<Rightarrow> 'c"
    and ttl :: int
  assumes get_put_fresh: "t \<le> u \<Longrightarrow> u < t + ttl \<Longrightarrow> get u k (put t k v c) = Some v"
    and get_put_stale: "t + ttl < u \<Longrightarrow> get u k (put t k v c) = None"
    and get_put_other: "k' \<noteq> k \<Longrightarrow> get u k' (put t k v c) = get u k' c"
begin

text \<open>What a lookup returns within the time to live is the last value stored for the key.\<close>

lemma get_put_last: "t \<le> u \<Longrightarrow> u < t + ttl \<Longrightarrow> k' \<noteq> k \<Longrightarrow>
    get u k (put t' k' v' (put t k v c)) = Some v"
  by (simp add: get_put_other get_put_fresh)

lemma get_put_overwrite: "t' \<le> u \<Longrightarrow> u < t' + ttl \<Longrightarrow>
    get u k (put t' k v' (put t k v c)) = Some v'"
  by (rule get_put_fresh)

end

section \<open>Path guards\<close>

text \<open>
  A guard turns an untrusted string into a path or refuses it. What it lets through has no
  parent reference among its components, so joining it to an absolute root stays below it.
\<close>

locale path_guard =
  fixes guard :: "string \<Rightarrow> 'e + string"
  assumes guard_no_parent: "guard p = Inr q \<Longrightarrow> ''..'' \<notin> set (Split (CHR ''/'') q)"
begin

lemma guard_below: "guard p = Inr q \<Longrightarrow> IsAbs root \<Longrightarrow> below root (JoinPath [root, q])"
  by (rule JoinPath_below) (simp_all add: guard_no_parent)

lemma guard_comps:
  "guard p = Inr q \<Longrightarrow> IsAbs root \<Longrightarrow>
     clean_comps (JoinPath [root, q]) = clean_comps root @ filter nonempty_comp (Split (CHR ''/'') q)"
  by (rule clean_comps_JoinPath) (simp_all add: guard_no_parent)

end

end
