(* ===== verification/GoNet.thy ===== *)
theory GoNet
  imports Prelude
begin

text \<open>
  \<open>net.SplitHostPort\<close>, which the FTP driver uses to strip the port of a peer address and the
  configuration uses to take a listen address apart. \<open>None\<close> stands for any of its errors
  (missing port, too many colons, misplaced brackets).
\<close>

definition after_last :: "char \<Rightarrow> string \<Rightarrow> string" where
  "after_last c s = rev (takeWhile (\<lambda>x. x \<noteq> c) (rev s))"

definition before_last :: "char \<Rightarrow> string \<Rightarrow> string" where
  "before_last c s = take (length s - Suc (length (after_last c s))) s"

definition SplitHostPort :: "string \<Rightarrow> (string \<times> string) option" where
  "SplitHostPort hp =
     (if CHR '':'' \<notin> set hp then None
      else
        let host = before_last (CHR '':'') hp; port = after_last (CHR '':'') hp in
        if HasPrefix hp ''['' then
          (let inner = takeWhile (\<lambda>c. c \<noteq> CHR '']'') (tl hp) in
           if CHR '']'' \<notin> set hp \<or> host \<noteq> CHR ''['' # inner @ '']'' then None
           else if CHR ''['' \<in> set (tl hp) \<or> CHR '']'' \<in> set port then None
           else Some (inner, port))
        else if CHR '':'' \<in> set host then None
        else if CHR ''['' \<in> set hp \<or> CHR '']'' \<in> set hp then None
        else Some (host, port))"

lemma after_last_append: "c \<notin> set t \<Longrightarrow> after_last c (s @ c # t) = t"
proof -
  assume c: "c \<notin> set t"
  have "takeWhile (\<lambda>x. x \<noteq> c) (rev t @ c # rev s) = rev t"
    using c by (subst takeWhile_append2) auto
  then show ?thesis by (simp add: after_last_def)
qed

lemma before_last_append: "c \<notin> set t \<Longrightarrow> before_last c (s @ c # t) = s"
  by (simp add: before_last_def after_last_append)

text \<open>An IPv4 address or a host name, and a bracketed IPv6 address, split at the port.\<close>

lemma SplitHostPort_plain:
  assumes "set h \<inter> {CHR '':'', CHR ''['', CHR '']''} = {}"
    and "set p \<inter> {CHR '':'', CHR ''['', CHR '']''} = {}"
  shows "SplitHostPort (h @ CHR '':'' # p) = Some (h, p)"
proof -
  have c: "CHR '':'' \<notin> set p" "CHR '':'' \<notin> set h" using assms by auto
  have "\<not> prefix ''['' (h @ CHR '':'' # p)" using assms(1) by (cases h) auto
  then show ?thesis
    using assms c by (auto simp: SplitHostPort_def after_last_append before_last_append)
qed

lemma SplitHostPort_bracket:
  assumes "set h \<inter> {CHR ''['', CHR '']''} = {}"
    and "set p \<inter> {CHR '':'', CHR ''['', CHR '']''} = {}"
  shows "SplitHostPort (CHR ''['' # h @ CHR '']'' # CHR '':'' # p) = Some (h, p)"
proof -
  have c: "CHR '':'' \<notin> set p" using assms(2) by auto
  have eq: "CHR ''['' # h @ CHR '']'' # CHR '':'' # p = (CHR ''['' # h @ '']'') @ CHR '':'' # p" by simp
  have t: "takeWhile (\<lambda>x. x \<noteq> CHR '']'') (h @ CHR '']'' # CHR '':'' # p) = h"
    using assms(1) by (subst takeWhile_append2) auto
  have b: "before_last (CHR '':'') (CHR ''['' # h @ CHR '']'' # CHR '':'' # p) = CHR ''['' # h @ '']''"
    unfolding eq by (rule before_last_append [OF c])
  have a: "after_last (CHR '':'') (CHR ''['' # h @ CHR '']'' # CHR '':'' # p) = p"
    unfolding eq by (rule after_last_append [OF c])
  show ?thesis
    using assms unfolding SplitHostPort_def Let_def a b by (auto simp: t)
qed

section \<open>Addresses\<close>

text \<open>\<open>net.ParseIP\<close>: whether a string is an IPv4 address in dotted decimal, or an IPv6 address,
  possibly with an ellipsis or an embedded IPv4 address, and without a zone.\<close>

definition octet :: "string \<Rightarrow> bool" where
  "octet f \<longleftrightarrow> f \<noteq> '''' \<and> list_all is_digit f \<and> (length f > 1 \<longrightarrow> hd f \<noteq> CHR ''0'') \<and> digits_val 0 f \<le> 255"

definition valid_ipv4 :: "string \<Rightarrow> bool" where
  "valid_ipv4 s \<longleftrightarrow> (let fs = Split (CHR ''.'') s in length fs = 4 \<and> list_all octet fs)"

definition is_hex :: "char \<Rightarrow> bool" where
  "is_hex c \<longleftrightarrow> is_digit c \<or> c \<in> set ''abcdefABCDEF''"

text \<open>\<open>v6 left e s\<close>: the rest \<open>s\<close> fills the \<open>left\<close> groups still open, \<open>e\<close> telling whether an
  ellipsis was met; it may leave groups open exactly when one was.\<close>

fun v6 :: "nat \<Rightarrow> bool \<Rightarrow> string \<Rightarrow> bool" where
  "v6 0 e s = False"
| "v6 (Suc left) e s =
     (let g = takeWhile is_hex s; rest = dropWhile is_hex s in
      if g = '''' \<or> length g > 4 then False
      else if rest = '''' then (0 < left) = e
      else if hd rest = CHR ''.'' then
        1 \<le> left \<and> (\<not> e \<longrightarrow> left = 1) \<and> valid_ipv4 s \<and> ((1 < left) = e)
      else if hd rest \<noteq> CHR '':'' \<or> tl rest = '''' then False
      else if hd (tl rest) \<noteq> CHR '':'' then v6 left e (tl rest)
      else if e then False
      else if tl (tl rest) = '''' then 0 < left
      else v6 left True (tl (tl rest)))"

definition valid_ipv6 :: "string \<Rightarrow> bool" where
  "valid_ipv6 s \<longleftrightarrow>
     (if HasPrefix s ''::'' then drop 2 s = '''' \<or> v6 8 True (drop 2 s) else v6 8 False s)"

definition ParseIP :: "string \<Rightarrow> bool" where
  "ParseIP s \<longleftrightarrow>
     (case dropWhile (\<lambda>c. c \<notin> {CHR ''.'', CHR '':'', CHR ''%''}) s of
        [] \<Rightarrow> False
      | c # _ \<Rightarrow> if c = CHR ''.'' then valid_ipv4 s
          else if c = CHR '':'' then CHR ''%'' \<notin> set s \<and> valid_ipv6 s else False)"

lemma ParseIP_examples:
  "ParseIP ''192.168.0.1''" "ParseIP ''::1''" "ParseIP ''fe80::1:2''" "ParseIP ''::ffff:10.0.0.1''"
  "\<not> ParseIP ''192.168.0.01''" "\<not> ParseIP ''1.2.3''" "\<not> ParseIP ''1::2::3''" "\<not> ParseIP ''fe80::1%eth0''"
  "\<not> ParseIP ''1:2:3:4:5:6:7:8:9''" "\<not> ParseIP ''host''"
  by code_simp+

section \<open>URLs\<close>

text \<open>
  What \<open>url.Parse\<close> makes of the scheme and the host of a URL, \<open>None\<close> for its errors (control
  characters, a missing scheme before a colon, malformed escapes, a bad port or host character).
  Query and fragment do not matter but for the escapes of the latter.
\<close>

fun bad_escape :: "string \<Rightarrow> bool" where
  "bad_escape [] = False"
| "bad_escape (c # s) =
     (if c = CHR ''%'' then (case s of x # y # s' \<Rightarrow> \<not> is_hex x \<or> \<not> is_hex y \<or> bad_escape s' | _ \<Rightarrow> True)
      else bad_escape s)"

definition is_letter :: "char \<Rightarrow> bool" where
  "is_letter c \<longleftrightarrow> (let n = of_char c :: nat in (65 \<le> n \<and> n \<le> 90) \<or> (97 \<le> n \<and> n \<le> 122))"

definition host_char :: "char \<Rightarrow> bool" where
  "host_char c \<longleftrightarrow> (128 :: nat) \<le> of_char c \<or> is_letter c \<or> is_digit c
     \<or> c \<in> set (''!$&()*+,;=:[]<>-_.~'' @ [CHR 0x22, CHR 0x27])"

text \<open>Escapes in a host: only non-ASCII bytes, and the percent sign of a zone.\<close>

fun host_ok :: "string \<Rightarrow> bool" where
  "host_ok [] = True"
| "host_ok (c # s) =
     (if c = CHR ''%'' then
        (case s of x # y # s' \<Rightarrow> is_hex x \<and> is_hex y
             \<and> ((x = CHR ''2'' \<and> y = CHR ''5'') \<or> x \<notin> set ''01234567'') \<and> host_ok s'
           | _ \<Rightarrow> False)
      else host_char c \<and> host_ok s)"

definition valid_port :: "string \<Rightarrow> bool" where
  "valid_port p \<longleftrightarrow> p = '''' \<or> (hd p = CHR '':'' \<and> list_all is_digit (tl p))"

definition url_host_ok :: "string \<Rightarrow> bool" where
  "url_host_ok h \<longleftrightarrow>
     (if HasPrefix h ''['' then CHR '']'' \<in> set h \<and> valid_port (after_last (CHR '']'') h) \<and> host_ok h
      else (CHR '':'' \<in> set h \<longrightarrow> valid_port (CHR '':'' # after_last (CHR '':'') h)) \<and> host_ok h)"

definition userinfo_char :: "char \<Rightarrow> bool" where
  "userinfo_char c \<longleftrightarrow> is_letter c \<or> is_digit c \<or> c \<in> set (''-._:~!$&()*+,;=%@'' @ [CHR 0x27])"

definition authority_host :: "string \<Rightarrow> string option" where
  "authority_host a =
     (let h = after_last (CHR ''@'') a; u = before_last (CHR ''@'') a in
      if CHR ''@'' \<notin> set a then (if url_host_ok a then Some a else None)
      else if url_host_ok h \<and> list_all userinfo_char u \<and> \<not> bad_escape u then Some h else None)"

text \<open>The scheme (in lower case) and the rest; \<open>None\<close> for a colon with nothing before it.\<close>

definition lower :: "char \<Rightarrow> char" where
  "lower c = (let n = of_char c :: nat in if 65 \<le> n \<and> n \<le> 90 then char_of (n + 32) else c)"

definition get_scheme :: "string \<Rightarrow> (string \<times> string) option" where
  "get_scheme s =
     (let sc = takeWhile (\<lambda>c. is_letter c \<or> is_digit c \<or> c \<in> set ''+-.'') s; rest = drop (length sc) s in
      if rest \<noteq> '''' \<and> hd rest = CHR '':'' then
        (if sc = '''' then None
         else if is_letter (hd sc) then Some (map lower sc, tl rest) else Some ('''', s))
      else Some ('''', s))"

definition url_parse :: "string \<Rightarrow> (string \<times> string) option" where
  "url_parse raw =
     (let u = takeWhile (\<lambda>c. c \<noteq> CHR ''#'') raw; frag = drop (Suc (length u)) raw in
      if list_ex (\<lambda>c. (of_char c :: nat) < 32 \<or> of_char c = (127 :: nat)) u \<or> bad_escape frag then None
      else if u = '''' \<or> u = ''*'' then Some ('''', '''')
      else case get_scheme u of
        None \<Rightarrow> None
      | Some (scheme, rest0) \<Rightarrow>
          let rest = takeWhile (\<lambda>c. c \<noteq> CHR ''?'') rest0 in
          if \<not> HasPrefix rest ''/'' \<and> scheme \<noteq> '''' then Some (scheme, '''')
          else if \<not> HasPrefix rest ''/'' \<and> CHR '':'' \<in> set (takeWhile (\<lambda>c. c \<noteq> CHR ''/'') rest) then None
          else if (scheme \<noteq> '''' \<or> \<not> HasPrefix rest ''///'') \<and> HasPrefix rest ''//'' then
            (let a = takeWhile (\<lambda>c. c \<noteq> CHR ''/'') (drop 2 rest); path = drop (2 + length a) rest in
             case authority_host a of
               None \<Rightarrow> None
             | Some h \<Rightarrow> if bad_escape path then None else Some (scheme, h))
          else if bad_escape rest then None else Some (scheme, ''''))"

lemma url_parse_examples:
  "url_parse ''https://ocis.example.com:9200/dav'' = Some (''https'', ''ocis.example.com:9200'')"
  "url_parse ''HTTP://u:p@[::1]:80'' = Some (''http'', ''[::1]:80'')"
  "url_parse ''ocis.example.com'' = Some ('''', '''')" "url_parse ''https://a b/'' = None"
  "url_parse ''https:///x'' = Some (''https'', '''')" "url_parse ''https://h:x/'' = None"
  by code_simp+

end
