(* ===== verification/Connections.thy ===== *)
theory Connections
  imports Interfaces GoNet
begin

text \<open>
  The connection tracker of the FTP driver (\<open>pkg/ftp/driver.go\<close>), which limits the connections
  per source address and in total. A tracker that is not configured is a nil pointer in the
  code and \<open>None\<close> here. The counters count live connections, far below the range of \<open>int64\<close>.
\<close>

section \<open>Client addresses\<close>

definition extractClientIP :: "string \<Rightarrow> string" where
  "extractClientIP remoteAddr =
     (case SplitHostPort remoteAddr of None \<Rightarrow> remoteAddr | Some (host, _) \<Rightarrow> host)"

section \<open>The connection tracker\<close>

record ConnectionTracker =
  ipConnections :: "(string \<times> int) list"
  maxPerIP :: int
  maxGlobal :: int
  globalCount :: int

definition newConnectionTracker :: "int \<Rightarrow> int \<Rightarrow> ConnectionTracker" where
  "newConnectionTracker perIP global =
     \<lparr>ipConnections = [], maxPerIP = perIP, maxGlobal = global, globalCount = 0\<rparr>"

definition AllowConnection :: "string \<Rightarrow> ConnectionTracker \<Rightarrow> bool \<times> ConnectionTracker" where
  "AllowConnection ip ct =
     (if maxGlobal ct > 0 \<and> globalCount ct \<ge> maxGlobal ct then (False, ct)
      else
        let entry = map_of (ipConnections ct) ip;
            count = (case entry of None \<Rightarrow> 0 | Some c \<Rightarrow> c)
        in if maxPerIP ct > 0 \<and> entry \<noteq> None \<and> count \<ge> maxPerIP ct then (False, ct)
           else (True, ct\<lparr>ipConnections := aput ip (count + 1) (ipConnections ct),
                          globalCount := globalCount ct + 1\<rparr>))"

definition ReleaseConnection :: "string \<Rightarrow> ConnectionTracker \<Rightarrow> ConnectionTracker" where
  "ReleaseConnection ip ct =
     (let ct1 =
        (case map_of (ipConnections ct) ip of
           Some count \<Rightarrow>
             if count > 0 then
               (if count - 1 = 0 then ct\<lparr>ipConnections := adel ip (ipConnections ct)\<rparr>
                else ct\<lparr>ipConnections := aput ip (count - 1) (ipConnections ct)\<rparr>)
             else ct
         | None \<Rightarrow> ct)
      in if globalCount ct1 > 0 then ct1\<lparr>globalCount := globalCount ct1 - 1\<rparr> else ct1)"

definition sweep_connections :: "ConnectionTracker \<Rightarrow> ConnectionTracker" where
  "sweep_connections ct =
     ct\<lparr>ipConnections := filter (\<lambda>(ip, count). \<not> count \<le> 0) (ipConnections ct)\<rparr>"

text \<open>The methods on a possibly nil tracker.\<close>

definition AllowConnection_opt ::
  "string \<Rightarrow> ConnectionTracker option \<Rightarrow> bool \<times> ConnectionTracker option" where
  "AllowConnection_opt ip ct =
     (case ct of None \<Rightarrow> (True, None)
      | Some t \<Rightarrow> (case AllowConnection ip t of (b, t') \<Rightarrow> (b, Some t')))"

definition ReleaseConnection_opt ::
  "string \<Rightarrow> ConnectionTracker option \<Rightarrow> ConnectionTracker option" where
  "ReleaseConnection_opt ip ct = map_option (ReleaseConnection ip) ct"

text \<open>
  The invariant: one entry per address, every entry counts at least one connection, the global
  counter is their sum, and neither configured limit is exceeded.
\<close>

definition conn_count :: "ConnectionTracker \<Rightarrow> string \<Rightarrow> nat" where
  "conn_count ct ip = (case map_of (ipConnections ct) ip of None \<Rightarrow> 0 | Some c \<Rightarrow> nat c)"

definition conn_inv :: "ConnectionTracker \<Rightarrow> bool" where
  "conn_inv ct \<longleftrightarrow>
     distinct (akeys (ipConnections ct))
     \<and> list_all (\<lambda>(ip, c). 0 < c \<and> (0 < maxPerIP ct \<longrightarrow> c \<le> maxPerIP ct)) (ipConnections ct)
     \<and> globalCount ct = int (asum nat (ipConnections ct))
     \<and> (0 < maxGlobal ct \<longrightarrow> globalCount ct \<le> maxGlobal ct)"

definition conn_cap :: "ConnectionTracker \<Rightarrow> string \<Rightarrow> nat option" where
  "conn_cap ct ip = (if 0 < maxPerIP ct then Some (nat (maxPerIP ct)) else None)"

lemma conn_entry:
  assumes "conn_inv ct" and "map_of (ipConnections ct) ip = Some c"
  shows "0 < c" and "0 < maxPerIP ct \<Longrightarrow> c \<le> maxPerIP ct"
    and "c \<le> globalCount ct"
proof -
  have m: "(ip, c) \<in> set (ipConnections ct)" using assms(2) by (rule map_of_SomeD)
  with assms(1) show "0 < c" and "0 < maxPerIP ct \<Longrightarrow> c \<le> maxPerIP ct"
    by (auto simp: conn_inv_def list_all_iff)
  have "nat c \<le> asum nat (ipConnections ct)"
    using assms by (intro asum_ge) (auto simp: conn_inv_def)
  then show "c \<le> globalCount ct" using assms(1) by (simp add: conn_inv_def)
qed

lemma conn_inv_new [keeps]: "conn_inv (newConnectionTracker m g)"
  by (simp add: conn_inv_def newConnectionTracker_def)

lemma list_all_aput:
  "distinct (akeys m) \<Longrightarrow> list_all P m \<Longrightarrow> P (k, v) \<Longrightarrow> list_all P (aput k v m)"
  by (induction m) auto

lemma list_all_adel: "list_all P m \<Longrightarrow> list_all P (adel k m)"
  by (induction m) auto

lemma AllowConnection_granted:
  assumes inv: "conn_inv ct" and a: "AllowConnection ip ct = (True, ct')"
  shows "conn_inv ct'" and "conn_count ct' = (conn_count ct)(ip := Suc (conn_count ct ip))"
    and "maxPerIP ct' = maxPerIP ct" and "maxGlobal ct' = maxGlobal ct"
proof -
  let ?m = "ipConnections ct"
  define c where "c = (case map_of ?m ip of None \<Rightarrow> 0 | Some c \<Rightarrow> c)"
  from a have ct': "ct' = ct\<lparr>ipConnections := aput ip (c + 1) ?m, globalCount := globalCount ct + 1\<rparr>"
    and room: "0 < maxGlobal ct \<Longrightarrow> globalCount ct < maxGlobal ct"
    and room1: "0 < maxPerIP ct \<Longrightarrow> map_of ?m ip \<noteq> None \<Longrightarrow> c < maxPerIP ct"
    by (auto simp: AllowConnection_def Let_def c_def split: if_splits)
  have d: "distinct (akeys ?m)" using inv by (simp add: conn_inv_def)
  have c0: "0 \<le> c" using conn_entry(1) [OF inv] by (fastforce simp: c_def split: option.splits)
  have s: "asum nat (aput ip (c + 1) ?m) = asum nat ?m + 1"
  proof (cases "map_of ?m ip")
    case None
    then have "ip \<notin> set (akeys ?m)" by (simp add: map_of_None_akeys)
    moreover from None have "c = 0" by (simp add: c_def)
    ultimately show ?thesis by (simp add: asum_aput_new)
  next
    case (Some b)
    then have "asum nat (aput ip (c + 1) ?m) + nat b = asum nat ?m + nat (c + 1)"
      by (rule asum_aput_old [OF d])
    with Some c0 show ?thesis by (simp add: c_def)
  qed
  have e: "0 < c + 1 \<and> (0 < maxPerIP ct \<longrightarrow> c + 1 \<le> maxPerIP ct)"
    using c0 room1 by (cases "map_of ?m ip") (auto simp: c_def)
  show "conn_inv ct'"
    using inv d s room list_all_aput [OF d, of "\<lambda>(ip, c). 0 < c \<and> (0 < maxPerIP ct \<longrightarrow> c \<le> maxPerIP ct)" ip "c + 1"] e
    unfolding ct' conn_inv_def by auto
  show "conn_count ct' = (conn_count ct)(ip := Suc (conn_count ct ip))"
    using c0 by (auto simp: ct' conn_count_def c_def fun_eq_iff nat_add_distrib split: option.splits)
  show "maxPerIP ct' = maxPerIP ct" and "maxGlobal ct' = maxGlobal ct" by (simp_all add: ct')
qed

lemma AllowConnection_refused: "AllowConnection ip ct = (False, ct') \<Longrightarrow> ct' = ct"
  by (auto simp: AllowConnection_def Let_def split: if_splits)

lemma ReleaseConnection_held:
  assumes inv: "conn_inv ct" and h: "0 < conn_count ct ip"
  shows "conn_inv (ReleaseConnection ip ct)"
    and "conn_count (ReleaseConnection ip ct) = (conn_count ct)(ip := conn_count ct ip - 1)"
    and "maxPerIP (ReleaseConnection ip ct) = maxPerIP ct"
    and "maxGlobal (ReleaseConnection ip ct) = maxGlobal ct"
proof -
  let ?m = "ipConnections ct"
  obtain c where c: "map_of ?m ip = Some c" and c0: "0 < c"
    using h by (auto simp: conn_count_def split: option.splits)
  define m' where "m' = (if c = 1 then adel ip ?m else aput ip (c - 1) ?m)"
  have g: "0 < globalCount ct" using conn_entry(3) [OF inv c] c0 by simp
  have ct': "ReleaseConnection ip ct = ct\<lparr>ipConnections := m', globalCount := globalCount ct - 1\<rparr>"
    using c c0 g by (simp add: ReleaseConnection_def Let_def m'_def)
  have d: "distinct (akeys ?m)" using inv by (simp add: conn_inv_def)
  have s: "asum nat ?m = asum nat m' + 1"
  proof (cases "c = 1")
    case True
    then show ?thesis using asum_adel [OF d c, of nat] by (simp add: m'_def)
  next
    case False
    then show ?thesis using asum_aput_old [OF d c, of nat "c - 1"] c0 by (simp add: m'_def)
  qed
  have all: "list_all (\<lambda>(ip, c). 0 < c \<and> (0 < maxPerIP ct \<longrightarrow> c \<le> maxPerIP ct)) m'"
  proof -
    have "list_all (\<lambda>(ip, c). 0 < c \<and> (0 < maxPerIP ct \<longrightarrow> c \<le> maxPerIP ct)) ?m"
      using inv by (simp add: conn_inv_def)
    then show ?thesis
      using c0 conn_entry(2) [OF inv c] d
      by (auto simp: m'_def intro!: list_all_adel list_all_aput)
  qed
  show "conn_inv (ReleaseConnection ip ct)"
    using inv s all d unfolding ct' conn_inv_def by (auto simp: m'_def)
  show "conn_count (ReleaseConnection ip ct) = (conn_count ct)(ip := conn_count ct ip - 1)"
    using c c0 by (auto simp: ct' conn_count_def m'_def fun_eq_iff nat_diff_distrib)
  show "maxPerIP (ReleaseConnection ip ct) = maxPerIP ct"
    and "maxGlobal (ReleaseConnection ip ct) = maxGlobal ct" by (simp_all add: ct')
qed

text \<open>The sweep of the janitor finds nothing to evict: it is defensive, as its comment says.\<close>

lemma sweep_connections_id: "conn_inv ct \<Longrightarrow> sweep_connections ct = ct"
proof -
  assume "conn_inv ct"
  then have "filter (\<lambda>(ip, count). \<not> count \<le> 0) (ipConnections ct) = ipConnections ct"
    by (auto simp: conn_inv_def list_all_iff filter_id_conv)
  then show ?thesis by (simp add: sweep_connections_def)
qed

interpretation conn: slot_pool AllowConnection ReleaseConnection conn_count conn_inv conn_cap
proof unfold_locales
  fix k and s s' :: ConnectionTracker
  assume inv: "conn_inv s"
  show "conn_inv s' \<and> conn_count s' = (conn_count s)(k := Suc (conn_count s k)) \<and> conn_cap s' = conn_cap s"
    if "AllowConnection k s = (True, s')"
    using AllowConnection_granted [OF inv that] by (simp add: conn_cap_def fun_eq_iff)
  show "conn_inv s' \<and> conn_count s' = conn_count s \<and> conn_cap s' = conn_cap s"
    if "AllowConnection k s = (False, s')"
    using AllowConnection_refused [OF that] inv by simp
  show "conn_inv (ReleaseConnection k s) \<and>
      conn_count (ReleaseConnection k s) = (conn_count s)(k := conn_count s k - 1) \<and>
      conn_cap (ReleaseConnection k s) = conn_cap s" if "0 < conn_count s k"
    using ReleaseConnection_held [OF inv that] by (simp add: conn_cap_def fun_eq_iff)
  show "conn_count s k \<le> n" if "conn_cap s k = Some n" for n
    using that conn_entry(2) [OF inv, of k]
    by (auto simp: conn_cap_def conn_count_def split: option.splits if_splits)
qed

text \<open>The conditions under which the tracker refuses a connection.\<close>

lemma AllowConnection_iff:
  assumes "conn_inv ct"
  shows "fst (AllowConnection ip ct) \<longleftrightarrow>
     (0 < maxGlobal ct \<longrightarrow> globalCount ct < maxGlobal ct)
     \<and> (0 < maxPerIP ct \<longrightarrow> int (conn_count ct ip) < maxPerIP ct)"
proof (cases "map_of (ipConnections ct) ip")
  case None
  then show ?thesis by (simp add: AllowConnection_def conn_count_def not_less)
next
  case (Some c)
  with conn_entry(1) [OF assms Some] show ?thesis
    by (auto simp: AllowConnection_def conn_count_def)
qed

lemma conn_params:
  "AllowConnection k ct = (b, ct') \<Longrightarrow> maxPerIP ct' = maxPerIP ct \<and> maxGlobal ct' = maxGlobal ct"
  "maxPerIP (ReleaseConnection k ct) = maxPerIP ct" "maxGlobal (ReleaseConnection k ct) = maxGlobal ct"
  by (auto simp: AllowConnection_def ReleaseConnection_def Let_def split: if_splits option.splits)

lemma conn_params_run:
  "slot_run AllowConnection ReleaseConnection es c0 l0 = (c, l) \<Longrightarrow> maxPerIP c0 = m \<Longrightarrow> maxGlobal c0 = g \<Longrightarrow>
     maxPerIP c = m \<and> maxGlobal c = g"
  by (induction AllowConnection ReleaseConnection es c0 l0 rule: slot_run.induct)
    (auto simp: conn_params split: prod.splits bool.splits if_splits dest: conn_params(1))

section \<open>Properties\<close>

text \<open>C24. Over any sequence of connection attempts and closings, in which each granted connection
  is given back at most once, the tracker's counters are exactly the connections granted and
  still open, its global counter is their sum, and neither configured limit is ever exceeded.\<close>

theorem connection_limits:
  assumes run: "slot_run AllowConnection ReleaseConnection es (newConnectionTracker m g) (\<lambda>_. 0) = (ct, led)"
  shows "conn_count ct = led \<and> globalCount ct = int (asum nat (ipConnections ct))
     \<and> (0 < m \<longrightarrow> led ip \<le> nat m) \<and> (0 < g \<longrightarrow> globalCount ct \<le> g)"
proof -
  let ?new = "newConnectionTracker m g"
  have h: "conn_count ?new = (\<lambda>_. 0)" by (simp add: conn_count_def newConnectionTracker_def fun_eq_iff)
  have params: "maxPerIP c = m \<and> maxGlobal c = g"
    if "slot_run AllowConnection ReleaseConnection es c0 l0 = (c, l)" "maxPerIP c0 = m" "maxGlobal c0 = g"
    for es c0 l0 c l
    using that by (rule conn_params_run)
  note L = conn.run_ledger [OF conn_inv_new h run]
  show ?thesis
    using L conn.run_capped [OF conn_inv_new h run, of ip "nat m"] params [OF run]
    by (auto simp: conn_inv_def conn_cap_def newConnectionTracker_def)
qed

theorem connection_limits_witness:
  "let (ct, led) = slot_run AllowConnection ReleaseConnection
       [Acquire ''a'', Acquire ''a'', Acquire ''a'', Release ''a'', Acquire ''b''] (newConnectionTracker 2 3) (\<lambda>_. 0)
   in conn_count ct = led \<and> globalCount ct = 2 \<and> led ''a'' = 1 \<and> led ''b'' = 1"
proof -
  let ?es = "[Acquire ''a'', Acquire ''a'', Acquire ''a'', Release ''a'', Acquire ''b'']"
  obtain ct led where r: "slot_run AllowConnection ReleaseConnection ?es (newConnectionTracker 2 3) (\<lambda>_. 0) = (ct, led)"
    by (cases "slot_run AllowConnection ReleaseConnection ?es (newConnectionTracker 2 3) (\<lambda>_. 0)")
  have "conn_count ct = led" using connection_limits [OF r] by blast
  moreover have "globalCount ct = 2" "led ''a'' = 1" "led ''b'' = 1"
    using r by (auto simp: AllowConnection_def ReleaseConnection_def newConnectionTracker_def Let_def)
  ultimately show ?thesis unfolding r by simp
qed

text \<open>The address the limits are counted by does not depend on the peer's port: an IPv4
  address or host name, and a bracketed IPv6 address, give the address alone.\<close>

theorem client_ip_without_port:
  assumes "set port \<inter> {CHR '':'', CHR ''['', CHR '']''} = {}"
    and "set h \<inter> {CHR '':'', CHR ''['', CHR '']''} = {}"
    and "set h6 \<inter> {CHR ''['', CHR '']''} = {}"
  shows "extractClientIP (h @ CHR '':'' # port) = h
    \<and> extractClientIP (CHR ''['' # h6 @ CHR '']'' # CHR '':'' # port) = h6"
  using assms by (simp_all add: extractClientIP_def SplitHostPort_plain SplitHostPort_bracket)

theorem client_ip_without_port_witness:
  "extractClientIP ''10.0.0.7:50412'' = ''10.0.0.7'' \<and> extractClientIP ''[fe80::1]:50412'' = ''fe80::1''"
  using client_ip_without_port [of "''50412''" "''10.0.0.7''" "''fe80::1''"] by simp

text \<open>A connection is refused exactly when a configured limit is reached; the sweep of the
  janitor changes nothing, since closing a connection already removes an entry that falls to zero.\<close>

theorem connection_refused_at_limit:
  assumes "conn_inv ct"
  shows "(fst (AllowConnection ip ct) \<longleftrightarrow>
      (0 < maxGlobal ct \<longrightarrow> globalCount ct < maxGlobal ct)
      \<and> (0 < maxPerIP ct \<longrightarrow> int (conn_count ct ip) < maxPerIP ct))
    \<and> sweep_connections ct = ct"
  using assms by (simp add: AllowConnection_iff sweep_connections_id)

theorem connection_refused_at_limit_witness:
  "\<not> fst (AllowConnection ''a'' \<lparr>ipConnections = [(''a'', 2)], maxPerIP = 2, maxGlobal = 0, globalCount = 2\<rparr>)"
  by (subst connection_refused_at_limit [THEN conjunct1])
    (simp_all add: conn_inv_def conn_count_def asum_def)

end
