(* ===== verification/AuthAttempts.thy ===== *)
theory AuthAttempts
  imports Prelude
begin

text \<open>
  The tracker of failed authentication attempts of the FTP driver (\<open>pkg/ftp/driver.go\<close>), and an
  abstract specification it refines: per address, either a number of failures counted from a
  first one, or a lockout until an instant. \<open>time.Now()\<close> is read once per operation and passed
  in, in nanoseconds; the zero \<open>time.Time\<close> is \<open>None\<close>. The eviction of expired entries by the
  janitor is shown to be unobservable.
\<close>

section \<open>Failed authentication attempts\<close>

record authAttemptInfo =
  count :: int
  firstFail :: "int option"
  lastAttempt :: int
  lockedOut :: bool
  lockoutEnd :: int

record AuthAttemptTracker =
  ipAttempts :: "(string \<times> authAttemptInfo) list"
  maxAttempts :: int
  window :: int
  lockoutDuration :: int

definition newAuthAttemptTracker :: "int \<Rightarrow> int \<Rightarrow> int \<Rightarrow> AuthAttemptTracker" where
  "newAuthAttemptTracker n w l =
     \<lparr>ipAttempts = [], maxAttempts = n, window = w, lockoutDuration = l\<rparr>"

text \<open>\<open>time.Since(t) > window\<close> for a first failure that has been recorded.\<close>

definition window_over :: "int \<Rightarrow> AuthAttemptTracker \<Rightarrow> authAttemptInfo \<Rightarrow> bool" where
  "window_over now at info \<longleftrightarrow>
     (case firstFail info of None \<Rightarrow> False | Some t \<Rightarrow> now - t > window at)"

definition forget :: "string \<Rightarrow> AuthAttemptTracker \<Rightarrow> AuthAttemptTracker" where
  "forget ip at = at\<lparr>ipAttempts := adel ip (ipAttempts at)\<rparr>"

definition remember :: "string \<Rightarrow> authAttemptInfo \<Rightarrow> AuthAttemptTracker \<Rightarrow> AuthAttemptTracker" where
  "remember ip info at = at\<lparr>ipAttempts := aput ip info (ipAttempts at)\<rparr>"

definition IsIPLockedOut :: "int \<Rightarrow> string \<Rightarrow> AuthAttemptTracker \<Rightarrow> bool \<times> AuthAttemptTracker" where
  "IsIPLockedOut now ip at =
     (case map_of (ipAttempts at) ip of
        None \<Rightarrow> (False, at)
      | Some info \<Rightarrow>
          if lockedOut info then
            (if now < lockoutEnd info then (True, at) else (False, forget ip at))
          else if window_over now at info then (False, forget ip at)
          else if firstFail info \<noteq> None \<and> count info \<ge> maxAttempts at then
            (if window_over now at info then (False, forget ip at)
             else (True, remember ip (info\<lparr>lockedOut := True,
                                          lockoutEnd := now + lockoutDuration at\<rparr>) at))
          else (False, at))"

definition RecordAuthAttempt ::
  "int \<Rightarrow> string \<Rightarrow> bool \<Rightarrow> AuthAttemptTracker \<Rightarrow> bool \<times> AuthAttemptTracker" where
  "RecordAuthAttempt now ip success at =
     (if success then
        (True, if map_of (ipAttempts at) ip \<noteq> None then forget ip at else at)
      else
        let info0 = (case map_of (ipAttempts at) ip of
                       None \<Rightarrow> \<lparr>count = 0, firstFail = None, lastAttempt = now,
                                lockedOut = False, lockoutEnd = 0\<rparr>
                     | Some info \<Rightarrow> info);
            info1 = info0\<lparr>count := count info0 + 1, lastAttempt := now\<rparr>;
            info2 = (if firstFail info1 = None then info1\<lparr>firstFail := Some now\<rparr> else info1)
        in if count info2 \<ge> maxAttempts at then
             (if \<not> window_over now at info2 then
                (False, remember ip (info2\<lparr>lockedOut := True,
                                          lockoutEnd := now + lockoutDuration at\<rparr>) at)
              else (True, remember ip (info2\<lparr>count := 1, firstFail := Some now\<rparr>) at))
           else (True, remember ip info2 at))"

definition sweep_attempts :: "int \<Rightarrow> AuthAttemptTracker \<Rightarrow> AuthAttemptTracker" where
  "sweep_attempts now at =
     at\<lparr>ipAttempts := filter (\<lambda>(ip, info).
          if lockedOut info then \<not> now > lockoutEnd info else \<not> window_over now at info)
        (ipAttempts at)\<rparr>"

section \<open>One login attempt\<close>

text \<open>
  The driver consults the tracker before it verifies a password and records the outcome after:
  the verdict is whether the attempt was let through. Here the two are one step at one instant;
  the code reads the clock for each and verifies the password in between, and the model of the
  driver has them apart (\<open>auth_enter\<close> and \<open>auth_finish\<close> in theory \<open>Bridge\<close>).
\<close>

definition auth_attempt :: "int \<Rightarrow> string \<Rightarrow> bool \<Rightarrow> AuthAttemptTracker \<Rightarrow> bool \<times> AuthAttemptTracker" where
  "auth_attempt now ip success at =
     (case IsIPLockedOut now ip at of
        (True, at') \<Rightarrow> (False, at')
      | (False, at') \<Rightarrow> (True, snd (RecordAuthAttempt now ip success at')))"

datatype auth_event = Attempt int string bool | Sweep int

fun ev_time :: "auth_event \<Rightarrow> int" where
  "ev_time (Attempt t ip ok) = t"
| "ev_time (Sweep t) = t"

fun auth_run :: "AuthAttemptTracker \<Rightarrow> auth_event list \<Rightarrow> bool list" where
  "auth_run at [] = []"
| "auth_run at (Attempt t ip ok # es) =
     (case auth_attempt t ip ok at of (v, at') \<Rightarrow> v # auth_run at' es)"
| "auth_run at (Sweep t # es) = auth_run (sweep_attempts t at) es"

section \<open>The specification\<close>

datatype standing = Failing int int | Locked int

type_synonym standings = "string \<Rightarrow> standing option"

fun standing_over :: "int \<Rightarrow> int \<Rightarrow> standing \<Rightarrow> bool" where
  "standing_over w now (Failing n t) \<longleftrightarrow> now - t > w"
| "standing_over w now (Locked e) \<longleftrightarrow> now \<ge> e"

definition live_spec :: "int \<Rightarrow> int \<Rightarrow> standings \<Rightarrow> standings" where
  "live_spec w now m ip =
     (case m ip of None \<Rightarrow> None | Some s \<Rightarrow> if standing_over w now s then None else Some s)"

text \<open>
  \<open>n\<close> failures within the window \<open>w\<close> counted from the first lock the address out for \<open>l\<close>; a
  success forgets its failures.
\<close>

definition spec_attempt ::
  "int \<Rightarrow> int \<Rightarrow> int \<Rightarrow> int \<Rightarrow> string \<Rightarrow> bool \<Rightarrow> standings \<Rightarrow> bool \<times> standings" where
  "spec_attempt n w l now ip ok m =
     (case live_spec w now m ip of
        Some (Locked e) \<Rightarrow> (False, m)
      | s \<Rightarrow>
          (True,
           if ok then m(ip := None)
           else
             let (k, t) = (case s of Some (Failing k t) \<Rightarrow> (k, t) | _ \<Rightarrow> (0, now))
             in m(ip := Some (if k + 1 \<ge> n then Locked (now + l) else Failing (k + 1) t))))"

fun spec_run :: "int \<Rightarrow> int \<Rightarrow> int \<Rightarrow> standings \<Rightarrow> auth_event list \<Rightarrow> bool list" where
  "spec_run n w l m [] = []"
| "spec_run n w l m (Attempt t ip ok # es) =
     (case spec_attempt n w l t ip ok m of (v, m') \<Rightarrow> v # spec_run n w l m' es)"
| "spec_run n w l m (Sweep t # es) = spec_run n w l m es"

section \<open>The tracker refines the specification\<close>

definition expired :: "int \<Rightarrow> AuthAttemptTracker \<Rightarrow> authAttemptInfo \<Rightarrow> bool" where
  "expired now at i \<longleftrightarrow> (if lockedOut i then now \<ge> lockoutEnd i else window_over now at i)"

definition standing_of :: "authAttemptInfo \<Rightarrow> standing" where
  "standing_of i = (if lockedOut i then Locked (lockoutEnd i) else Failing (count i) (the (firstFail i)))"

definition live :: "int \<Rightarrow> AuthAttemptTracker \<Rightarrow> standings" where
  "live now at ip =
     (case map_of (ipAttempts at) ip of None \<Rightarrow> None
      | Some i \<Rightarrow> if expired now at i then None else Some (standing_of i))"

definition info_ok :: "AuthAttemptTracker \<Rightarrow> authAttemptInfo \<Rightarrow> bool" where
  "info_ok at i \<longleftrightarrow> firstFail i \<noteq> None \<and> 1 \<le> count i \<and> (\<not> lockedOut i \<longrightarrow> count i < maxAttempts at)"

definition auth_inv :: "AuthAttemptTracker \<Rightarrow> bool" where
  "auth_inv at \<longleftrightarrow> 1 \<le> maxAttempts at \<and> 0 \<le> window at \<and> distinct (akeys (ipAttempts at))
     \<and> (\<forall>ip i. map_of (ipAttempts at) ip = Some i \<longrightarrow> info_ok at i)"

definition same_params :: "AuthAttemptTracker \<Rightarrow> AuthAttemptTracker \<Rightarrow> bool" where
  "same_params at at' \<longleftrightarrow> maxAttempts at' = maxAttempts at \<and> window at' = window at
     \<and> lockoutDuration at' = lockoutDuration at"

lemma auth_info: "auth_inv at \<Longrightarrow> map_of (ipAttempts at) ip = Some i \<Longrightarrow> info_ok at i"
  by (auto simp: auth_inv_def)

lemma auth_inv_new [keeps]: "1 \<le> n \<Longrightarrow> 0 \<le> w \<Longrightarrow> auth_inv (newAuthAttemptTracker n w l)"
  by (simp add: auth_inv_def newAuthAttemptTracker_def)

lemma same_params_refl [simp]: "same_params at at"
  by (simp add: same_params_def)

lemma same_params_forget [simp]: "same_params at (forget ip at)"
  by (simp add: same_params_def forget_def)

lemma same_params_remember [simp]: "same_params at (remember ip i at)"
  by (simp add: same_params_def remember_def)

lemma same_params_trans: "same_params a b \<Longrightarrow> same_params b c \<Longrightarrow> same_params a c"
  by (simp add: same_params_def)

lemma map_of_forget [simp]: "map_of (ipAttempts (forget ip at)) = (map_of (ipAttempts at))(ip := None)"
  by (simp add: forget_def)

lemma map_of_remember [simp]:
  "map_of (ipAttempts (remember ip i at)) = (map_of (ipAttempts at))(ip \<mapsto> i)"
  by (simp add: remember_def)

lemma info_ok_params: "same_params at at' \<Longrightarrow> info_ok at' = info_ok at"
  by (simp add: info_ok_def same_params_def fun_eq_iff)

lemma expired_params: "same_params at at' \<Longrightarrow> expired now at' = expired now at"
  by (simp add: expired_def window_over_def same_params_def fun_eq_iff cong: option.case_cong)

lemma auth_inv_forget [keeps]: "auth_inv at \<Longrightarrow> auth_inv (forget ip at)"
  by (auto simp: auth_inv_def info_ok_def forget_def)

lemma auth_inv_remember [keeps]: "auth_inv at \<Longrightarrow> info_ok at i \<Longrightarrow> auth_inv (remember ip i at)"
  by (auto simp: auth_inv_def info_ok_def remember_def)

lemma expired_forget [simp]: "expired now (forget ip at) = expired now at"
  by (rule expired_params) simp

lemma expired_remember [simp]: "expired now (remember ip i at) = expired now at"
  by (rule expired_params) simp

lemma live_forget: "live now (forget ip at) = (live now at)(ip := None)"
  by (simp add: live_def fun_eq_iff split: option.split)

lemma live_remember:
  "live now (remember ip i at) = (live now at)(ip := if expired now at i then None else Some (standing_of i))"
  by (simp add: live_def fun_eq_iff split: option.split)

text \<open>Consulting the tracker answers whether the live standing is a lockout, and changes nothing live.\<close>

lemma IsIPLockedOut_live:
  assumes inv: "auth_inv at" and r: "IsIPLockedOut now ip at = (v, at')"
  shows "v \<longleftrightarrow> (\<exists>e. live now at ip = Some (Locked e))"
    and "auth_inv at'" and "same_params at at'"
    and "\<And>u. now \<le> u \<Longrightarrow> live u at' = live u at"
    and "\<not> v \<Longrightarrow> (map_of (ipAttempts at') ip = None \<and> live now at ip = None)
           \<or> (\<exists>i. map_of (ipAttempts at') ip = Some i \<and> \<not> lockedOut i \<and> \<not> window_over now at i)"
proof -
  have "(v \<longleftrightarrow> (\<exists>e. live now at ip = Some (Locked e))) \<and> auth_inv at' \<and> same_params at at'
     \<and> (\<forall>u. now \<le> u \<longrightarrow> live u at' = live u at)
     \<and> (\<not> v \<longrightarrow> (map_of (ipAttempts at') ip = None \<and> live now at ip = None)
           \<or> (\<exists>i. map_of (ipAttempts at') ip = Some i \<and> \<not> lockedOut i \<and> \<not> window_over now at i))"
  proof (cases "map_of (ipAttempts at) ip")
    case None
    with r inv show ?thesis by (simp add: IsIPLockedOut_def live_def)
  next
    case (Some i)
    with inv have ok: "info_ok at i" by (rule auth_info)
    have gone: "live u at ip = None" if "expired now at i" "now \<le> u" for u
      using that Some by (auto simp: live_def expired_def window_over_def split: if_splits option.splits)
    show ?thesis
    proof (cases "expired now at i")
      case True
      with r Some ok have "v = False" and "at' = forget ip at"
        by (auto simp: IsIPLockedOut_def expired_def info_ok_def split: if_splits)
      with True gone inv show ?thesis by (auto simp: live_forget fun_eq_iff intro: keeps)
    next
      case False
      with r Some ok have "v = lockedOut i" and "at' = at"
        by (auto simp: IsIPLockedOut_def expired_def info_ok_def split: if_splits)
      with False Some inv show ?thesis by (auto simp: live_def standing_of_def expired_def split: if_splits)
    qed
  qed
  then show "v \<longleftrightarrow> (\<exists>e. live now at ip = Some (Locked e))"
    and "auth_inv at'" and "same_params at at'"
    and "\<And>u. now \<le> u \<Longrightarrow> live u at' = live u at"
    and "\<not> v \<Longrightarrow> (map_of (ipAttempts at') ip = None \<and> live now at ip = None)
           \<or> (\<exists>i. map_of (ipAttempts at') ip = Some i \<and> \<not> lockedOut i \<and> \<not> window_over now at i)"
    by blast+
qed

text \<open>Recording a failure when the address is not locked out and its window is not over.\<close>

lemma Record_failure:
  assumes inv: "auth_inv at"
    and e: "map_of (ipAttempts at) ip = None \<and> k = 0 \<and> t = now
            \<or> (\<exists>i. map_of (ipAttempts at) ip = Some i \<and> \<not> lockedOut i \<and> \<not> window_over now at i
                  \<and> k = count i \<and> firstFail i = Some t)"
  shows "\<exists>i. RecordAuthAttempt now ip False at = (k + 1 < maxAttempts at, remember ip i at)
      \<and> info_ok at i
      \<and> standing_of i = (if k + 1 \<ge> maxAttempts at then Locked (now + lockoutDuration at) else Failing (k + 1) t)"
  using e
proof (elim disjE exE conjE)
  assume "map_of (ipAttempts at) ip = None" and "k = 0" and "t = now"
  moreover define i where "i = (if 1 \<ge> maxAttempts at
     then \<lparr>count = 1, firstFail = Some now, lastAttempt = now, lockedOut = True,
           lockoutEnd = now + lockoutDuration at\<rparr>
     else \<lparr>count = 1, firstFail = Some now, lastAttempt = now, lockedOut = False, lockoutEnd = 0\<rparr>)"
  moreover have "0 \<le> window at" using inv by (simp add: auth_inv_def)
  ultimately show ?thesis
    by (intro exI [of _ i])
      (simp add: RecordAuthAttempt_def Let_def window_over_def info_ok_def standing_of_def)
next
  fix i
  assume "map_of (ipAttempts at) ip = Some i" "\<not> lockedOut i" "\<not> window_over now at i"
    "k = count i" "firstFail i = Some t"
  moreover from this inv have "info_ok at i" by (auto intro: auth_info)
  moreover define j where "j = (let i' = i\<lparr>count := count i + 1, lastAttempt := now\<rparr> in
     if count i + 1 \<ge> maxAttempts at
     then i'\<lparr>lockedOut := True, lockoutEnd := now + lockoutDuration at\<rparr> else i')"
  ultimately show ?thesis
    by (intro exI [of _ j])
      (simp add: RecordAuthAttempt_def Let_def window_over_def info_ok_def standing_of_def)
qed

lemma live_mono: "now \<le> u \<Longrightarrow> live u at = live_spec (window at) u (live now at)" if "auth_inv at"
proof
  fix ip
  assume "now \<le> u"
  show "live u at ip = live_spec (window at) u (live now at) ip"
  proof (cases "map_of (ipAttempts at) ip")
    case (Some i)
    with that have "info_ok at i" by (rule auth_info)
    with Some \<open>now \<le> u\<close> show ?thesis
      by (auto simp: live_def live_spec_def expired_def window_over_def standing_of_def info_ok_def)
  qed (simp add: live_def live_spec_def)
qed

lemma sweep_live:
  assumes inv: "auth_inv at" and "now \<le> u"
  shows "live u (sweep_attempts now at) = live u at" and "auth_inv (sweep_attempts now at)"
    and "same_params at (sweep_attempts now at)"
proof -
  let ?P = "\<lambda>(ip, info). if lockedOut info then \<not> now > lockoutEnd info else \<not> window_over now at info"
  have d: "distinct (akeys (ipAttempts at))" using inv by (simp add: auth_inv_def)
  have f: "map_of (filter ?P (ipAttempts at)) ip =
      (case map_of (ipAttempts at) ip of None \<Rightarrow> None | Some i \<Rightarrow> if ?P (ip, i) then Some i else None)" for ip
    using d by (rule map_of_filter_distinct)
  show sp: "same_params at (sweep_attempts now at)" by (simp add: sweep_attempts_def same_params_def)
  show "live u (sweep_attempts now at) = live u at"
  proof
    fix ip
    show "live u (sweep_attempts now at) ip = live u at ip"
      using \<open>now \<le> u\<close>
      by (auto simp: live_def expired_params [OF sp] sweep_attempts_def f expired_def window_over_def
          split: option.splits if_splits)
  qed
  show "auth_inv (sweep_attempts now at)"
    using inv f by (auto simp: auth_inv_def sweep_attempts_def info_ok_def distinct_map_filter
        split: option.splits if_splits)
qed

text \<open>The simulation relation at an instant: the same live standings.\<close>

definition sim :: "int \<Rightarrow> AuthAttemptTracker \<Rightarrow> standings \<Rightarrow> bool" where
  "sim now at m \<longleftrightarrow> auth_inv at \<and> live now at = live_spec (window at) now m"

lemma live_spec_twice: "now \<le> u \<Longrightarrow> live_spec w u (live_spec w now m) = live_spec w u m"
proof
  fix ip
  assume "now \<le> u"
  then show "live_spec w u (live_spec w now m) ip = live_spec w u m ip"
    by (cases "m ip") (auto simp: live_spec_def elim!: standing_over.elims)
qed

lemma sim_later: "sim now at m \<Longrightarrow> now \<le> u \<Longrightarrow> sim u at m"
  by (simp add: sim_def live_mono [of at now u] live_spec_twice)

lemma sim_sweep: "sim now at m \<Longrightarrow> sim now (sweep_attempts now at) m"
  using sweep_live [of at now now] by (simp add: sim_def same_params_def)

lemma sim_attempt:
  assumes s: "sim now at m"
  shows "fst (auth_attempt now ip ok at)
           = fst (spec_attempt (maxAttempts at) (window at) (lockoutDuration at) now ip ok m)"
    and "sim now (snd (auth_attempt now ip ok at))
           (snd (spec_attempt (maxAttempts at) (window at) (lockoutDuration at) now ip ok m))"
    and "same_params at (snd (auth_attempt now ip ok at))"
proof -
  have inv: "auth_inv at" and lv: "live now at = live_spec (window at) now m"
    using s by (simp_all add: sim_def)
  obtain v at1 where r: "IsIPLockedOut now ip at = (v, at1)" by (cases "IsIPLockedOut now ip at")
  note I = IsIPLockedOut_live [OF inv r]
  have lv1: "live now at1 = live now at" by (rule I(4)) simp
  have p1: "maxAttempts at1 = maxAttempts at" "window at1 = window at"
    "lockoutDuration at1 = lockoutDuration at" using I(3) by (simp_all add: same_params_def)
  have upd: "live_spec w now (m(ip := x)) = (live_spec w now m)(ip := live_spec w now (m(ip := x)) ip)" for w x
    by (auto simp: live_spec_def fun_eq_iff)
  have "fst (auth_attempt now ip ok at)
           = fst (spec_attempt (maxAttempts at) (window at) (lockoutDuration at) now ip ok m)
      \<and> sim now (snd (auth_attempt now ip ok at))
           (snd (spec_attempt (maxAttempts at) (window at) (lockoutDuration at) now ip ok m))
      \<and> same_params at (snd (auth_attempt now ip ok at))"
  proof (cases v)
    case True
    then obtain e where "live_spec (window at) now m ip = Some (Locked e)" using I(1) lv by auto
    with True r I(2,3) lv1 lv p1 show ?thesis
      by (simp add: auth_attempt_def spec_attempt_def sim_def)
  next
    case False
    note F = I(5) [OF False]
    have nl: "live_spec (window at) now m ip \<noteq> Some (Locked e)" for e
      using I(1) False lv by simp
    show ?thesis
    proof (cases ok)
      case True
      let ?at2 = "snd (RecordAuthAttempt now ip True at1)"
      have l2: "live now ?at2 = (live now at1)(ip := None)" and i2: "auth_inv ?at2"
        and s2: "same_params at1 ?at2"
        using I(2) live_forget [of now ip at1]
        by (auto simp: RecordAuthAttempt_def live_def [of now at1] fun_eq_iff intro: keeps)
      have "snd (spec_attempt (maxAttempts at) (window at) (lockoutDuration at) now ip ok m) = m(ip := None)"
        and "fst (spec_attempt (maxAttempts at) (window at) (lockoutDuration at) now ip ok m)"
        using True nl by (auto simp: spec_attempt_def split: option.splits standing.splits)
      moreover have "live_spec w now (m(ip := None)) = (live_spec w now m)(ip := None)" for w
        by (auto simp: live_spec_def fun_eq_iff)
      ultimately show ?thesis
        using False True r l2 i2 lv1 lv p1 same_params_trans [OF I(3) s2] s2
        by (simp add: auth_attempt_def sim_def same_params_def)
    next
      case nok: False
      define k where "k = (case live now at ip of Some (Failing k t) \<Rightarrow> k | _ \<Rightarrow> 0)"
      define t where "t = (case live now at ip of Some (Failing k t) \<Rightarrow> t | _ \<Rightarrow> now)"
      have kt: "map_of (ipAttempts at1) ip = None \<and> k = 0 \<and> t = now
            \<or> (\<exists>i. map_of (ipAttempts at1) ip = Some i \<and> \<not> lockedOut i \<and> \<not> window_over now at1 i
                  \<and> k = count i \<and> firstFail i = Some t)"
        using F
      proof
        assume "map_of (ipAttempts at1) ip = None \<and> live now at ip = None"
        then show ?thesis by (simp add: k_def t_def)
      next
        assume "\<exists>i. map_of (ipAttempts at1) ip = Some i \<and> \<not> lockedOut i \<and> \<not> window_over now at i"
        then obtain i where i: "map_of (ipAttempts at1) ip = Some i" "\<not> lockedOut i" "\<not> window_over now at i"
          by blast
        have "info_ok at1 i" using I(2) i(1) by (rule auth_info)
        moreover from i p1 have "\<not> window_over now at1 i" by (simp add: window_over_def cong: option.case_cong)
        moreover have "live now at ip = Some (Failing (count i) (the (firstFail i)))"
          using i lv1 calculation(2) by (simp add: live_def expired_def standing_of_def flip: lv1)
        ultimately show ?thesis using i by (auto simp: k_def t_def info_ok_def)
      qed
      obtain i where R: "RecordAuthAttempt now ip False at1 = (k + 1 < maxAttempts at1, remember ip i at1)"
        and ok_i: "info_ok at1 i"
        and st: "standing_of i = (if k + 1 \<ge> maxAttempts at1 then Locked (now + lockoutDuration at1) else Failing (k + 1) t)"
        using Record_failure [OF I(2) kt] by blast
      have sp: "spec_attempt (maxAttempts at) (window at) (lockoutDuration at) now ip False m
          = (True, m(ip := Some (standing_of i)))"
        using nl lv p1 st by (auto simp: spec_attempt_def k_def t_def split: option.splits standing.splits)
      have ex: "expired now at1 i = standing_over (window at) now (standing_of i)"
        using ok_i p1 by (auto simp: expired_def standing_of_def info_ok_def window_over_def)
      have "live now (remember ip i at1) = live_spec (window at) now (m(ip := Some (standing_of i)))"
        unfolding live_remember ex using lv lv1 by (auto simp: live_spec_def fun_eq_iff)
      then show ?thesis
        using False nok r R sp p1 auth_inv_remember [OF I(2) ok_i] same_params_trans [OF I(3) same_params_remember]
          same_params_remember [of at1 ip i]
        by (simp add: auth_attempt_def sim_def same_params_def)
    qed
  qed
  then show "fst (auth_attempt now ip ok at)
           = fst (spec_attempt (maxAttempts at) (window at) (lockoutDuration at) now ip ok m)"
    and "sim now (snd (auth_attempt now ip ok at))
           (snd (spec_attempt (maxAttempts at) (window at) (lockoutDuration at) now ip ok m))"
    and "same_params at (snd (auth_attempt now ip ok at))" by blast+
qed

lemma sim_run:
  "sim now at m \<Longrightarrow> sorted (now # map ev_time es) \<Longrightarrow>
     auth_run at es = spec_run (maxAttempts at) (window at) (lockoutDuration at) m es"
proof (induction es arbitrary: now at m)
  case (Cons e es)
  let ?u = "ev_time e"
  have s: "sim ?u at m" using Cons.prems by (auto intro: sim_later)
  have so: "sorted (?u # map ev_time es)" using Cons.prems(2) by simp
  show ?case
  proof (cases e)
    case (Attempt t ip ok)
    then have "sim t at m" using s by simp
    note A = sim_attempt [OF this, of ip ok]
    have "sorted (t # map ev_time es)" using so Attempt by simp
    from Cons.IH [OF A(2) this] A(1,3) Attempt show ?thesis
      by (cases "auth_attempt t ip ok at";
          cases "spec_attempt (maxAttempts at) (window at) (lockoutDuration at) t ip ok m")
        (simp add: same_params_def)
  next
    case (Sweep t)
    have "sim t (sweep_attempts t at) m" using s Sweep by (auto intro: sim_sweep)
    moreover have "sorted (t # map ev_time es)" using so Sweep by simp
    ultimately have "auth_run (sweep_attempts t at) es
        = spec_run (maxAttempts (sweep_attempts t at)) (window (sweep_attempts t at))
            (lockoutDuration (sweep_attempts t at)) m es" by (rule Cons.IH)
    then show ?thesis using Sweep by (simp add: sweep_attempts_def)
  qed
qed simp

section \<open>Properties\<close>

lemma spec_run_failures:
  assumes "1 \<le> k" and "ts \<noteq> []" and "m ip = Some (Failing k t0)" and "k + int (length ts) = n"
    and "sorted ts" and "\<forall>t \<in> set ts. t \<le> t0 + w"
  shows "spec_run n w l m (map (\<lambda>t. Attempt t ip False) ts @ es)
     = replicate (length ts) True @ spec_run n w l (m(ip := Some (Locked (last ts + l)))) es"
  using assms
proof (induction ts arbitrary: k m)
  case (Cons t ts)
  have lv: "live_spec w t m ip = Some (Failing k t0)"
    using Cons.prems by (simp add: live_spec_def)
  show ?case
  proof (cases "ts = []")
    case True
    have "spec_attempt n w l t ip False m = (True, m(ip := Some (Locked (t + l))))"
      using Cons.prems(4) lv True by (simp add: spec_attempt_def)
    with True show ?thesis by (simp del: fun_upd_apply)
  next
    case False
    then have "k + 1 < n" using Cons.prems(4) by (cases ts) auto
    then have s: "spec_attempt n w l t ip False m = (True, m(ip := Some (Failing (k + 1) t0)))"
      using lv by (simp add: spec_attempt_def)
    have "spec_run n w l (m(ip := Some (Failing (k + 1) t0))) (map (\<lambda>t. Attempt t ip False) ts @ es)
      = replicate (length ts) True @ spec_run n w l (m(ip := Some (Locked (last ts + l)))) es"
      by (rule Cons.IH [of "k + 1" "m(ip := Some (Failing (k + 1) t0))", unfolded fun_upd_upd])
        (use Cons.prems False in simp_all)
    with s False show ?thesis by (simp del: fun_upd_apply)
  qed
qed simp

lemma refines_from_start:
  assumes "1 \<le> n" and "0 \<le> w" and "sorted (map ev_time es)"
  shows "auth_run (newAuthAttemptTracker n w l) es = spec_run n w l (\<lambda>_. None) es"
proof (cases es)
  case (Cons e es')
  have "sim (ev_time e) (newAuthAttemptTracker n w l) (\<lambda>_. None)"
    using assms auth_inv_new by (simp add: sim_def live_def live_spec_def newAuthAttemptTracker_def fun_eq_iff)
  moreover have "sorted (ev_time e # map ev_time es)" using assms(3) Cons by simp
  ultimately show ?thesis using sim_run by (fastforce simp: newAuthAttemptTracker_def)
qed simp

text \<open>C22. The tracker lets through exactly the attempts the specification lets through, for
  every sequence of attempts and janitor sweeps in the order of time: failures are counted per
  address within the window from the first, the limit locks the address out for the lockout
  duration, a success forgets, and a sweep is never observable.\<close>

theorem auth_tracker_refines_spec:
  assumes "1 \<le> n" and "0 \<le> w" and "sorted (map ev_time es)"
  shows "auth_run (newAuthAttemptTracker n w l) es = spec_run n w l (\<lambda>_. None) es"
  using assms by (rule refines_from_start)

theorem auth_tracker_refines_spec_witness:
  "auth_run (newAuthAttemptTracker 2 10 100)
     [Attempt 0 ''a'' False, Attempt 5 ''a'' False, Sweep 6, Attempt 7 ''a'' True, Attempt 200 ''a'' True]
   = [True, True, False, True]"
  by (subst auth_tracker_refines_spec)
    (simp_all add: spec_attempt_def live_spec_def)

text \<open>The addresses of the attempts of a sequence of events, one for each verdict of \<open>auth_run\<close>.\<close>

fun attempt_ips :: "auth_event list \<Rightarrow> string list" where
  "attempt_ips [] = []"
| "attempt_ips (Attempt t ip ok # es) = ip # attempt_ips es"
| "attempt_ips (Sweep t # es) = attempt_ips es"

lemma spec_run_locked:
  "m ip = Some (Locked e) \<Longrightarrow> \<forall>ev \<in> set es. ev_time ev < e \<Longrightarrow>
     list_all2 (\<lambda>a v. a = ip \<longrightarrow> \<not> v) (attempt_ips es) (spec_run n w l m es)"
proof (induction es arbitrary: m)
  case (Cons ev es)
  have rest: "\<forall>ev \<in> set es. ev_time ev < e" using Cons.prems(2) by simp
  show ?case
  proof (cases ev)
    case (Attempt t a ok)
    then have t: "t < e" using Cons.prems(2) by simp
    obtain v m' where sp: "spec_attempt n w l t a ok m = (v, m')" by fastforce
    have "m' ip = Some (Locked e) \<and> (a = ip \<longrightarrow> \<not> v)"
      using sp Cons.prems(1) t
      by (cases "a = ip") (auto simp: spec_attempt_def live_spec_def Let_def
          split: option.splits standing.splits if_splits prod.splits)
    then have "list_all2 (\<lambda>a v. a = ip \<longrightarrow> \<not> v) (attempt_ips es) (spec_run n w l m' es)"
      and "a = ip \<longrightarrow> \<not> v" using Cons.IH rest by blast+
    then show ?thesis using Attempt sp by simp
  next
    case (Sweep t)
    have "list_all2 (\<lambda>a v. a = ip \<longrightarrow> \<not> v) (attempt_ips es) (spec_run n w l m es)"
      using Cons.IH Cons.prems(1) rest by blast
    with Sweep show ?thesis by simp
  qed
qed simp

lemma spec_run_lockout:
  assumes "ts \<noteq> []" and "sorted ts" and "last ts - hd ts \<le> w"
  shows "\<exists>m. m ip = Some (Locked (last ts + l)) \<and>
    spec_run (int (length ts)) w l (\<lambda>_. None) (map (\<lambda>t. Attempt t ip False) ts @ es)
      = replicate (length ts) True @ spec_run (int (length ts)) w l m es"
proof -
  let ?n = "int (length ts)"
  obtain t0 ts' where ts: "ts = t0 # ts'" using assms(1) by (cases ts) auto
  show ?thesis
  proof (cases "ts' = []")
    case True
    let ?m = "(\<lambda>_. None)(ip := Some (Locked (last ts + l)))"
    have "spec_attempt ?n w l t0 ip False (\<lambda>_. None) = (True, ?m)"
      using ts True by (simp add: spec_attempt_def live_spec_def)
    then have "spec_run ?n w l (\<lambda>_. None) (map (\<lambda>t. Attempt t ip False) ts @ es)
      = replicate (length ts) True @ spec_run ?n w l ?m es" by (simp add: ts True del: fun_upd_apply)
    moreover have "?m ip = Some (Locked (last ts + l))" by simp
    ultimately show ?thesis by blast
  next
    case False
    let ?m0 = "(\<lambda>_. None)(ip := Some (Failing 1 t0))"
    define m where "m = ?m0(ip := Some (Locked (last ts' + l)))"
    have "0 < length ts'" using False by simp
    then have s0: "spec_attempt ?n w l t0 ip False (\<lambda>_. None) = (True, ?m0)"
      using ts by (simp add: spec_attempt_def live_spec_def)
    have so: "sorted ts'" and last: "last ts' = last ts" using ts assms(2) False by auto
    have "t \<le> last ts'" if "t \<in> set ts'" for t
      using that so False by (metis in_set_conv_nth last_conv_nth sorted_nth_mono
          diff_less length_greater_0_conv less_Suc_eq_le Suc_pred' less_numeral_extra(1))
    then have within: "\<forall>t \<in> set ts'. t \<le> t0 + w" using assms(3) ts last by fastforce
    have "spec_run ?n w l ?m0 (map (\<lambda>t. Attempt t ip False) ts' @ es)
      = replicate (length ts') True @ spec_run ?n w l m es"
      unfolding m_def by (rule spec_run_failures [where k = 1 and m = ?m0 and ?t0.0 = t0])
        (use so within False in \<open>simp_all add: ts\<close>)
    with s0 have "spec_run ?n w l (\<lambda>_. None) (map (\<lambda>t. Attempt t ip False) ts @ es)
      = replicate (length ts) True @ spec_run ?n w l m es" by (simp add: ts del: fun_upd_apply)
    moreover have "m ip = Some (Locked (last ts + l))" using last by (simp add: m_def)
    ultimately show ?thesis by blast
  qed
qed

text \<open>C23. The configured number of failures within the window, counted by a new tracker, locks the
  address out: the attempts are let through one by one, and from the last on, whatever happens before the lockout
  ends (any number of further attempts from this and from other addresses, with correct passwords
  or not, and any sweeps of the janitor, in any order), every attempt from the address is
  refused.\<close>

theorem auth_lockout:
  assumes "ts \<noteq> []" and "sorted ts" and "last ts - hd ts \<le> w" and "0 \<le> w"
    and "sorted (last ts # map ev_time es)" and "\<forall>ev \<in> set es. ev_time ev < last ts + l"
  shows "\<exists>vs. auth_run (newAuthAttemptTracker (int (length ts)) w l)
        (map (\<lambda>t. Attempt t ip False) ts @ es) = replicate (length ts) True @ vs
      \<and> list_all2 (\<lambda>a v. a = ip \<longrightarrow> \<not> v) (attempt_ips es) vs"
proof -
  obtain m where m: "m ip = Some (Locked (last ts + l))"
    and run: "spec_run (int (length ts)) w l (\<lambda>_. None) (map (\<lambda>t. Attempt t ip False) ts @ es)
      = replicate (length ts) True @ spec_run (int (length ts)) w l m es"
    using spec_run_lockout [OF assms(1-3)] by blast
  have "\<forall>t \<in> set ts. t \<le> last ts"
    using assms(1,2) by (metis append_butlast_last_id sorted_append Un_iff empty_iff
        list.set(1) list.set(2) insert_iff set_append order_refl)
  then have "sorted (map ev_time (map (\<lambda>t. Attempt t ip False) ts @ es))"
    using assms(2,5) by (auto simp: sorted_append comp_def intro: order_trans)
  moreover have "1 \<le> int (length ts)" using assms(1) by (cases ts) simp_all
  ultimately have "auth_run (newAuthAttemptTracker (int (length ts)) w l)
        (map (\<lambda>t. Attempt t ip False) ts @ es)
      = replicate (length ts) True @ spec_run (int (length ts)) w l m es"
    using refines_from_start assms(4) run by metis
  moreover have "list_all2 (\<lambda>a v. a = ip \<longrightarrow> \<not> v) (attempt_ips es)
      (spec_run (int (length ts)) w l m es)" using m assms(6) by (rule spec_run_locked)
  ultimately show ?thesis by blast
qed

theorem auth_lockout_witness:
  "\<exists>vs. auth_run (newAuthAttemptTracker 3 60 900)
      ([Attempt 0 ''a'' False, Attempt 10 ''a'' False, Attempt 20 ''a'' False]
        @ [Attempt 30 ''a'' True, Sweep 500, Attempt 600 ''b'' True, Attempt 919 ''a'' True])
      = [True, True, True] @ vs
    \<and> list_all2 (\<lambda>a v. a = ''a'' \<longrightarrow> \<not> v) [''a'', ''b'', ''a''] vs"
  using auth_lockout [of "[0, 10, 20]" 60
      "[Attempt 30 ''a'' True, Sweep 500, Attempt 600 ''b'' True, Attempt 919 ''a'' True]" 900 "''a''"]
  by (simp add: eval_nat_numeral)

end
