(* ===== verification/AppErrors.thy ===== *)
theory AppErrors
  imports Prelude
begin

text \<open>
  The error values of the bridge, after \<open>pkg/errors/errors.go\<close>: the structured \<open>AppError\<close> with
  its code, message, details and cause, the other errors it travels with (sentinels of the
  packages, \<open>fmt.Errorf\<close> wrappers, errors of the operating system or of a library), and the
  functions that inspect a chain: \<open>errors.Is\<close>, \<open>errors.As\<close>, \<open>GetCode\<close>, \<open>HTTPStatus\<close>.

  A Go \<open>error\<close> that may be nil is an \<open>option\<close>. A details map is an association list, \<open>None\<close>
  when it is the nil map; writing to the nil map panics, which is a value of type \<open>go_panic\<close>.
\<close>

section \<open>Error codes and error values\<close>

datatype ErrorCode =
    ErrCodeUnknown | ErrCodeInvalidInput | ErrCodeNotFound | ErrCodeAlreadyExists
  | ErrCodeNotImplemented
  | ErrCodeUnauthorized | ErrCodeForbidden | ErrCodeInvalidCredentials
  | ErrCodeInvalidConfig | ErrCodeConfigNotFound
  | ErrCodeIO | ErrCodeFileTooLarge | ErrCodeStorageFull
  | ErrCodeConnection | ErrCodeTimeout
  | ErrCodePathTraversal | ErrCodeSecurity
  | ErrCodeRateLimited
  | ErrCodeServiceUnavailable | ErrCodeInternal

fun code_text :: "ErrorCode \<Rightarrow> string" where
  "code_text ErrCodeUnknown = ''UNKNOWN''"
| "code_text ErrCodeInvalidInput = ''INVALID_INPUT''"
| "code_text ErrCodeNotFound = ''NOT_FOUND''"
| "code_text ErrCodeAlreadyExists = ''ALREADY_EXISTS''"
| "code_text ErrCodeNotImplemented = ''NOT_IMPLEMENTED''"
| "code_text ErrCodeUnauthorized = ''UNAUTHORIZED''"
| "code_text ErrCodeForbidden = ''FORBIDDEN''"
| "code_text ErrCodeInvalidCredentials = ''INVALID_CREDENTIALS''"
| "code_text ErrCodeInvalidConfig = ''INVALID_CONFIG''"
| "code_text ErrCodeConfigNotFound = ''CONFIG_NOT_FOUND''"
| "code_text ErrCodeIO = ''IO_ERROR''"
| "code_text ErrCodeFileTooLarge = ''FILE_TOO_LARGE''"
| "code_text ErrCodeStorageFull = ''STORAGE_FULL''"
| "code_text ErrCodeConnection = ''CONNECTION_ERROR''"
| "code_text ErrCodeTimeout = ''TIMEOUT''"
| "code_text ErrCodePathTraversal = ''PATH_TRAVERSAL''"
| "code_text ErrCodeSecurity = ''SECURITY_ERROR''"
| "code_text ErrCodeRateLimited = ''RATE_LIMITED''"
| "code_text ErrCodeServiceUnavailable = ''SERVICE_UNAVAILABLE''"
| "code_text ErrCodeInternal = ''INTERNAL_ERROR''"

type_synonym details = "(string \<times> string) list option"

text \<open>
  \<open>Sentinel pre msg\<close> is a package-level error variable whose text is \<open>pre\<close> followed by
  \<open>msg\<close>; \<open>Wrapf a e b\<close> is made by \<open>fmt.Errorf\<close> with one \<open>%w\<close> verb between the texts
  \<open>a\<close> and \<open>b\<close>; \<open>Opaque msg\<close> is an error with no structure the bridge looks at.
\<close>

datatype goerror =
    AppErr ErrorCode string details "goerror option"
  | Sentinel string string
  | Wrapf string goerror string
  | Opaque string

datatype go_panic = NilMapWrite

fun Error :: "goerror \<Rightarrow> string" where
  "Error (AppErr c m d (Some e)) = code_text c @ '': '' @ m @ '': '' @ Error e"
| "Error (AppErr c m d None) = code_text c @ '': '' @ m"
| "Error (Sentinel pre m) = pre @ m"
| "Error (Wrapf a e b) = a @ Error e @ b"
| "Error (Opaque m) = m"

fun Unwrap :: "goerror \<Rightarrow> goerror option" where
  "Unwrap (AppErr c m d cause) = cause"
| "Unwrap (Wrapf a e b) = Some e"
| "Unwrap (Sentinel pre m) = None"
| "Unwrap (Opaque m) = None"

section \<open>Is and As\<close>

text \<open>
  \<open>errors_is err target\<close> is \<open>errors.Is\<close> with a non-nil target: equality, then the error's own
  \<open>Is\<close> method (only \<open>AppError\<close> has one), then the unwrapped error. The \<open>Is\<close> method of an
  \<open>AppError\<close> compares codes with an \<open>AppError\<close> target and asks its cause about any other.
\<close>

fun errors_is :: "goerror \<Rightarrow> goerror \<Rightarrow> bool" where
  "errors_is (AppErr c m d cause) t =
     (AppErr c m d cause = t
      \<or> (case t of AppErr c' _ _ _ \<Rightarrow> c = c'
         | _ \<Rightarrow> (case cause of None \<Rightarrow> False | Some e \<Rightarrow> errors_is e t))
      \<or> (case cause of None \<Rightarrow> False | Some e \<Rightarrow> errors_is e t))"
| "errors_is (Wrapf a e b) t = (Wrapf a e b = t \<or> errors_is e t)"
| "errors_is (Sentinel pre m) t = (Sentinel pre m = t)"
| "errors_is (Opaque m) t = (Opaque m = t)"

text \<open>\<open>errors.As\<close> with an \<open>*AppError\<close> target: the first one on the chain.\<close>

fun as_app :: "goerror \<Rightarrow> goerror option" where
  "as_app (AppErr c m d cause) = Some (AppErr c m d cause)"
| "as_app (Wrapf a e b) = as_app e"
| "as_app (Sentinel pre m) = None"
| "as_app (Opaque m) = None"

section \<open>Constructors\<close>

definition New :: "ErrorCode \<Rightarrow> string \<Rightarrow> goerror" where
  "New c m = AppErr c m (Some []) None"

definition NewWithDetails :: "ErrorCode \<Rightarrow> string \<Rightarrow> details \<Rightarrow> goerror" where
  "NewWithDetails c m d = AppErr c m d None"

definition Wrap :: "ErrorCode \<Rightarrow> string \<Rightarrow> goerror option \<Rightarrow> goerror" where
  "Wrap c m err = (case err of None \<Rightarrow> New c m | Some e \<Rightarrow> AppErr c m (Some []) (Some e))"

text \<open>Writing one key of a details map; the nil map cannot be written.\<close>

definition put_detail :: "string \<Rightarrow> string \<Rightarrow> details \<Rightarrow> go_panic + details" where
  "put_detail k v d = (case d of None \<Rightarrow> Inl NilMapWrite | Some m \<Rightarrow> Inr (Some (aput k v m)))"

text \<open>The loop of \<open>WrapWithDetails\<close>: keys of the wrapped error that are not there yet.\<close>

fun add_missing :: "(string \<times> string) list \<Rightarrow> details \<Rightarrow> go_panic + details" where
  "add_missing [] d = Inr d"
| "add_missing ((k, v) # kvs) d =
     (if (case d of None \<Rightarrow> False | Some m \<Rightarrow> map_of m k \<noteq> None) then add_missing kvs d
      else (case put_detail k v d of Inl p \<Rightarrow> Inl p | Inr d' \<Rightarrow> add_missing kvs d'))"

definition WrapWithDetails ::
  "ErrorCode \<Rightarrow> string \<Rightarrow> goerror option \<Rightarrow> details \<Rightarrow> go_panic + goerror" where
  "WrapWithDetails c m err d =
     (case err of
        None \<Rightarrow> Inr (NewWithDetails c m d)
      | Some e \<Rightarrow>
          (case e of
             AppErr _ _ ed _ \<Rightarrow>
               (case add_missing (case ed of None \<Rightarrow> [] | Some kvs \<Rightarrow> kvs) d of
                  Inl p \<Rightarrow> Inl p
                | Inr d' \<Rightarrow> Inr (AppErr c m d' (Some e)))
           | _ \<Rightarrow> Inr (AppErr c m d (Some e))))"

text \<open>The loop of \<open>WithDetails\<close>: every key is written.\<close>

fun put_all :: "(string \<times> string) list \<Rightarrow> details \<Rightarrow> go_panic + details" where
  "put_all [] d = Inr d"
| "put_all ((k, v) # kvs) d =
     (case put_detail k v d of Inl p \<Rightarrow> Inl p | Inr d' \<Rightarrow> put_all kvs d')"

definition WithDetails :: "goerror option \<Rightarrow> details \<Rightarrow> go_panic + goerror option" where
  "WithDetails err d =
     (case err of
        None \<Rightarrow> Inr None
      | Some e \<Rightarrow>
          (case as_app e of
             Some (AppErr c m ed cause) \<Rightarrow>
               (case put_all (case d of None \<Rightarrow> [] | Some kvs \<Rightarrow> kvs) ed of
                  Inl p \<Rightarrow> Inl p
                | Inr ed' \<Rightarrow> Inr (Some (AppErr c m ed' cause)))
           | _ \<Rightarrow> Inr (Some (AppErr ErrCodeInternal (Error e) d (Some e)))))"

text \<open>The convenience constructors; \<open>id\<close> and \<open>path\<close> are printed with the \<open>%v\<close> verb.\<close>

definition NotFound :: "string \<Rightarrow> string \<Rightarrow> goerror" where
  "NotFound resource ident = NewWithDetails ErrCodeNotFound (resource @ '' not found: '' @ ident)
     (Some [(''resource'', resource), (''id'', ident)])"

definition InvalidInput :: "string \<Rightarrow> details \<Rightarrow> goerror" where
  "InvalidInput m d = NewWithDetails ErrCodeInvalidInput m d"

definition Unauthorized :: "string \<Rightarrow> goerror" where
  "Unauthorized m = New ErrCodeUnauthorized m"

definition Forbidden :: "string \<Rightarrow> goerror" where
  "Forbidden m = New ErrCodeForbidden m"

definition PathTraversal :: "string \<Rightarrow> goerror" where
  "PathTraversal path = NewWithDetails ErrCodePathTraversal (''path traversal detected: '' @ path)
     (Some [(''path'', path)])"

definition IOError :: "string \<Rightarrow> goerror option \<Rightarrow> goerror" where
  "IOError m err = Wrap ErrCodeIO m err"

definition ConfigError :: "string \<Rightarrow> goerror option \<Rightarrow> goerror" where
  "ConfigError m err = Wrap ErrCodeInvalidConfig m err"

definition InternalError :: "string \<Rightarrow> goerror option \<Rightarrow> goerror" where
  "InternalError m err = Wrap ErrCodeInternal m err"

definition AlreadyExists :: "string \<Rightarrow> string \<Rightarrow> goerror" where
  "AlreadyExists resource ident = NewWithDetails ErrCodeAlreadyExists (resource @ '' already exists: '' @ ident)
     (Some [(''resource'', resource), (''id'', ident)])"

definition RateLimited :: "string \<Rightarrow> goerror" where
  "RateLimited m = New ErrCodeRateLimited m"

definition StorageFull :: "string \<Rightarrow> goerror" where
  "StorageFull m = New ErrCodeStorageFull m"

section \<open>Inspecting an error\<close>

definition GetCode :: "goerror option \<Rightarrow> ErrorCode" where
  "GetCode err =
     (case err of None \<Rightarrow> ErrCodeUnknown
      | Some e \<Rightarrow> (case as_app e of Some (AppErr c _ _ _) \<Rightarrow> c | _ \<Rightarrow> ErrCodeUnknown))"

definition GetMessage :: "goerror option \<Rightarrow> string" where
  "GetMessage err =
     (case err of None \<Rightarrow> ''''
      | Some e \<Rightarrow> (case as_app e of Some (AppErr _ m _ _) \<Rightarrow> m | _ \<Rightarrow> Error e))"

definition GetDetails :: "goerror option \<Rightarrow> details" where
  "GetDetails err =
     (case err of None \<Rightarrow> None
      | Some e \<Rightarrow> (case as_app e of Some (AppErr _ _ d _) \<Rightarrow> d | _ \<Rightarrow> None))"

definition IsCode :: "goerror option \<Rightarrow> ErrorCode \<Rightarrow> bool" where
  "IsCode err c \<longleftrightarrow> GetCode err = c"

definition IsAnyCode :: "goerror option \<Rightarrow> ErrorCode list \<Rightarrow> bool" where
  "IsAnyCode err cs \<longleftrightarrow> err \<noteq> None \<and> list_ex (\<lambda>c. GetCode err = c) cs"

definition Join_errors :: "goerror option list \<Rightarrow> goerror option" where
  "Join_errors errs =
     (case List.map_filter (\<lambda>e. e) errs of
        [] \<Rightarrow> None
      | [e] \<Rightarrow> Some e
      | es \<Rightarrow> Some (New ErrCodeInternal (''multiple errors: '' @ Join ''; '' (map Error es))))"

definition HTTPStatus :: "goerror option \<Rightarrow> nat" where
  "HTTPStatus err =
     (case err of None \<Rightarrow> 200
      | Some _ \<Rightarrow>
          (case GetCode err of
             ErrCodeNotFound \<Rightarrow> 404
           | ErrCodeInvalidInput \<Rightarrow> 400
           | ErrCodeUnauthorized \<Rightarrow> 401
           | ErrCodeForbidden \<Rightarrow> 403
           | ErrCodeAlreadyExists \<Rightarrow> 409
           | ErrCodePathTraversal \<Rightarrow> 400
           | ErrCodeRateLimited \<Rightarrow> 429
           | ErrCodeServiceUnavailable \<Rightarrow> 503
           | ErrCodeInvalidConfig \<Rightarrow> 500
           | ErrCodeInternal \<Rightarrow> 500
           | _ \<Rightarrow> 500))"

section \<open>Facts about chains\<close>

text \<open>\<open>wrapped_in es e\<close>: the error \<open>e\<close> under a chain of \<open>fmt.Errorf\<close> wrappers.\<close>

fun wrapped_in :: "(string \<times> string) list \<Rightarrow> goerror \<Rightarrow> goerror" where
  "wrapped_in [] e = e"
| "wrapped_in ((a, b) # ws) e = Wrapf a (wrapped_in ws e) b"

lemma as_app_wrapped [simp]: "as_app (wrapped_in ws e) = as_app e"
  by (induction ws) auto

lemma errors_is_refl [simp]: "errors_is e e"
  by (cases e) auto

lemma errors_is_wrapped: "errors_is e t \<Longrightarrow> errors_is (wrapped_in ws e) t"
  by (induction ws) auto

lemma errors_is_Unwrap: "Unwrap e = Some e' \<Longrightarrow> errors_is e' t \<Longrightarrow> errors_is e t"
  by (cases e) auto

lemma as_app_AppErr: "as_app e = Some a \<Longrightarrow> \<exists>c m d cause. a = AppErr c m d cause"
  by (induction e) auto

lemma errors_is_as_app:
  "as_app e = Some (AppErr c m d cause) \<Longrightarrow> errors_is e (AppErr c m' d' cause')"
  by (induction e) auto

lemma GetCode_wrapped: "GetCode (Some (wrapped_in ws e)) = GetCode (Some e)"
  by (simp add: GetCode_def)

lemma HTTPStatus_wrapped: "HTTPStatus (Some (wrapped_in ws e)) = HTTPStatus (Some e)"
  by (simp add: HTTPStatus_def GetCode_wrapped)

lemma HTTPStatus_error: "400 \<le> HTTPStatus (Some e) \<and> HTTPStatus (Some e) < 600"
  by (simp add: HTTPStatus_def split: ErrorCode.split)

lemma put_all_Some: "\<exists>m'. put_all kvs (Some m) = Inr (Some m')"
  by (induction kvs arbitrary: m) (auto simp: put_detail_def)

lemma map_of_put_all:
  "put_all kvs (Some m) = Inr (Some m') \<Longrightarrow> map_of m' k = (case map_of (rev kvs) k of None \<Rightarrow> map_of m k | Some v \<Rightarrow> Some v)"
proof (induction kvs arbitrary: m)
  case (Cons kv kvs)
  then show ?case
    by (cases kv) (auto simp: put_detail_def map_add_def split: option.splits)
qed simp

end
