(* ===== verification/UploadSlots.thy ===== *)
theory UploadSlots
  imports Interfaces AppErrors
begin

text \<open>
  The cap on the concurrent uploads of an account (\<open>acquireUploadSlot\<close> and
  \<open>releaseUploadSlot\<close> of \<open>pkg/ftp/driver.go\<close>). The buffered channel kept per user name is its
  capacity, fixed when it is made, and the number of tokens in it; the non-blocking send and
  receive of the code are the guarded updates below.
\<close>

section \<open>Slots\<close>

record slot_chan =
  chan_cap :: nat
  chan_used :: nat

type_synonym upload_slots = "(string \<times> slot_chan) list"

definition ErrTooManyConcurrentUploads :: goerror where
  "ErrTooManyConcurrentUploads = Sentinel '''' ''too many concurrent uploads for this account''"

definition acquireUploadSlot :: "string \<Rightarrow> int \<Rightarrow> upload_slots \<Rightarrow> goerror option \<times> upload_slots" where
  "acquireUploadSlot username mx slots =
     (if mx \<le> 0 then (None, slots)
      else
        let (ch, slots1) =
          (case map_of slots username of
             Some ch \<Rightarrow> (ch, slots)
           | None \<Rightarrow> (let ch = \<lparr>chan_cap = nat mx, chan_used = 0\<rparr> in (ch, aput username ch slots)))
        in if chan_used ch < chan_cap ch
           then (None, aput username (ch\<lparr>chan_used := chan_used ch + 1\<rparr>) slots1)
           else (Some ErrTooManyConcurrentUploads, slots1))"

definition releaseUploadSlot :: "string \<Rightarrow> int \<Rightarrow> upload_slots \<Rightarrow> upload_slots" where
  "releaseUploadSlot username mx slots =
     (if mx \<le> 0 then slots
      else case map_of slots username of
             None \<Rightarrow> slots
           | Some ch \<Rightarrow>
               if chan_used ch > 0 then aput username (ch\<lparr>chan_used := chan_used ch - 1\<rparr>) slots
               else slots)"

section \<open>Slots held, and the invariant\<close>

definition slots_used :: "upload_slots \<Rightarrow> string \<Rightarrow> nat" where
  "slots_used slots u = (case map_of slots u of None \<Rightarrow> 0 | Some ch \<Rightarrow> chan_used ch)"

definition slots_inv :: "(string \<Rightarrow> int) \<Rightarrow> upload_slots \<Rightarrow> bool" where
  "slots_inv mx slots \<longleftrightarrow> distinct (akeys slots)
     \<and> (\<forall>u ch. map_of slots u = Some ch \<longrightarrow> 0 < mx u \<and> chan_cap ch = nat (mx u) \<and> chan_used ch \<le> nat (mx u))"

lemma slots_inv_empty [keeps]: "slots_inv mx []"
  by (simp add: slots_inv_def)

lemma acquire_uncapped: "mx \<le> 0 \<Longrightarrow> acquireUploadSlot u mx s = (None, s)"
  by (simp add: acquireUploadSlot_def)

lemma release_uncapped: "mx \<le> 0 \<Longrightarrow> releaseUploadSlot u mx s = s"
  by (simp add: releaseUploadSlot_def)

lemma acquire_capped:
  assumes "slots_inv mx s" and "0 < mx u" and "acquireUploadSlot u (mx u) s = (e, s')"
  shows "slots_inv mx s'"
    and "e = None \<longleftrightarrow> slots_used s u < nat (mx u)"
    and "slots_used s' = (if e = None then (slots_used s)(u := Suc (slots_used s u)) else slots_used s)"
  using assms
  by (auto simp: acquireUploadSlot_def slots_inv_def slots_used_def Let_def fun_eq_iff ErrTooManyConcurrentUploads_def
      Suc_le_eq split: option.splits if_splits)

lemma slot_acquire_keeps: "slots_inv mx s \<Longrightarrow> acquireUploadSlot u (mx u) s = (e, s') \<Longrightarrow> slots_inv mx s'"
  using acquire_capped(1) [of mx s u e s'] by (cases "0 < mx u") (auto simp: acquire_uncapped not_less)

lemma slot_release_keeps: "slots_inv mx s \<Longrightarrow> slots_inv mx (releaseUploadSlot u (mx u) s)"
  by (cases "map_of s u")
    (fastforce simp: slots_inv_def releaseUploadSlot_def)+

lemma release_used:
  "0 < mx \<Longrightarrow> slots_used (releaseUploadSlot u mx s) = (slots_used s)(u := slots_used s u - 1)"
  by (auto simp: slots_used_def releaseUploadSlot_def fun_eq_iff split: option.splits)

lemma slots_capped: "slots_inv mx s \<Longrightarrow> slots_used s u \<le> nat (mx u)"
  by (cases "map_of s u")
    (fastforce simp: slots_inv_def slots_used_def)+

text \<open>
  The slots of the capped accounts form a pool; \<open>mx k + 1\<close> is the positive cap of account
  \<open>k\<close>. An account without a cap takes no slot, by \<open>acquire_uncapped\<close>.
\<close>

definition take_slot :: "(string \<Rightarrow> nat) \<Rightarrow> string \<Rightarrow> upload_slots \<Rightarrow> bool \<times> upload_slots" where
  "take_slot mx u s =
     (case acquireUploadSlot u (int (Suc (mx u))) s of (e, s') \<Rightarrow> (e = None, s'))"

definition give_slot :: "(string \<Rightarrow> nat) \<Rightarrow> string \<Rightarrow> upload_slots \<Rightarrow> upload_slots" where
  "give_slot mx u s = releaseUploadSlot u (int (Suc (mx u))) s"

interpretation slots: slot_pool "take_slot mx" "give_slot mx" slots_used "slots_inv (\<lambda>u. int (Suc (mx u)))"
  "\<lambda>s u. Some (Suc (mx u))" for mx :: "string \<Rightarrow> nat"
proof unfold_locales
  fix k and s s' :: upload_slots
  let ?mx = "\<lambda>u. int (Suc (mx u))"
  assume inv: "slots_inv ?mx s"
  note A = acquire_capped [of ?mx s k, OF inv]
  show "slots_inv ?mx s' \<and> slots_used s' = (slots_used s)(k := Suc (slots_used s k))
      \<and> (\<lambda>u. Some (Suc (mx u))) = (\<lambda>u. Some (Suc (mx u)))" if "take_slot mx k s = (True, s')"
    using that A [of None s'] by (auto simp: take_slot_def split: prod.splits)
  show "slots_inv ?mx s' \<and> slots_used s' = slots_used s
      \<and> (\<lambda>u. Some (Suc (mx u))) = (\<lambda>u. Some (Suc (mx u)))" if "take_slot mx k s = (False, s')"
    using that A by (fastforce simp: take_slot_def split: prod.splits)
  show "slots_inv ?mx (give_slot mx k s) \<and> slots_used (give_slot mx k s) = (slots_used s)(k := slots_used s k - 1)
      \<and> (\<lambda>u. Some (Suc (mx u))) = (\<lambda>u. Some (Suc (mx u)))"
    using slot_release_keeps [OF inv, of k] release_used [of "?mx k" k s] by (simp add: give_slot_def)
  show "slots_used s k \<le> n" if "Some (Suc (mx k)) = Some n" for n
    using that slots_capped [OF inv, of k] by auto
qed

section \<open>Properties\<close>

text \<open>Over any sequence of upload starts and ends, the slots in use of every capped account
  are the uploads admitted and not yet ended, and never more than its cap.\<close>

theorem upload_slots_capped:
  assumes "slot_run (take_slot mx) (give_slot mx) es [] (\<lambda>_. 0) = (slots, led)"
  shows "slots_used slots = led \<and> led u \<le> Suc (mx u)"
  using slots.run_ledger [OF slots_inv_empty _ assms] slots.run_capped [OF slots_inv_empty _ assms, of u "Suc (mx u)"]
  by (auto simp: slots_used_def fun_eq_iff)

theorem upload_slots_capped_witness:
  "let (slots, led) = slot_run (take_slot (\<lambda>_. 1)) (give_slot (\<lambda>_. 1))
       [Acquire ''a'', Acquire ''a'', Acquire ''a'', Release ''a'', Acquire ''a''] [] (\<lambda>_. 0)
   in slots_used slots = led \<and> led ''a'' = 2"
proof -
  let ?es = "[Acquire ''a'', Acquire ''a'', Acquire ''a'', Release ''a'', Acquire ''a'']"
  obtain slots led where r: "slot_run (take_slot (\<lambda>_. 1)) (give_slot (\<lambda>_. 1)) ?es [] (\<lambda>_. 0) = (slots, led)"
    by (cases "slot_run (take_slot (\<lambda>_. 1)) (give_slot (\<lambda>_. 1)) ?es [] (\<lambda>_. 0)")
  have "slots_used slots = led" using upload_slots_capped [OF r] by blast
  moreover have "led ''a'' = 2"
    using r by (auto simp: take_slot_def give_slot_def acquireUploadSlot_def releaseUploadSlot_def Let_def
        ErrTooManyConcurrentUploads_def)
  ultimately show ?thesis unfolding r by simp
qed

end
