(* ===== verification/OsFiles.thy ===== *)
theory OsFiles
  imports GoPath AppErrors
begin

text \<open>
  The calls of Go's \<open>os\<close>, \<open>path/filepath\<close> and \<open>time\<close> packages that the spool makes, on a store
  of regular files: cleaned absolute path to content, mode and modification time. Directories
  are not represented: making one succeeds or fails. Everything the machine decides is in the
  environment of an operation: the instant (nanoseconds since 1970, read once per operation),
  the working directory, the random parts of temporary names in the order they are tried,
  which call on which path fails, and how much of a failing write still reaches the disk. A fault
  lasts for the operation that gets the environment: within it, the same call on the same path
  fails always or never, and the next operation has an environment of its own.
\<close>

section \<open>The environment\<close>

datatype sysop =
    SysGetwd | SysMkdirAll | SysCreateTemp | SysChmod | SysWrite | SysSync | SysClose | SysRename
  | SysOpen | SysCreate | SysRead | SysRemove | SysReadDir | SysStat | SysWalk

record os_env =
  now :: int
  cwd :: string
  temp_names :: "nat list"
  fault :: "sysop \<Rightarrow> string \<Rightarrow> string option"
  short :: nat
  digest :: "string \<Rightarrow> 8 word list"

text \<open>\<open>digest s\<close> is the SHA-256 digest of \<open>s\<close>; nothing is assumed of it.\<close>

definition hex_digit :: "nat \<Rightarrow> char" where
  "hex_digit n = char_of (if n < 10 then 48 + n else 87 + n)"

text \<open>\<open>hex.EncodeToString\<close>.\<close>

definition hex_encode :: "8 word list \<Rightarrow> string" where
  "hex_encode bs = concat (map (\<lambda>b. [hex_digit (unat b div 16), hex_digit (unat b mod 16)]) bs)"

lemma hex_digit_no_slash: "n < 16 \<Longrightarrow> hex_digit n \<noteq> CHR ''/''"
proof -
  assume "n < 16"
  then have "of_char (hex_digit n) \<noteq> (47 :: nat)"
    by (auto simp: hex_digit_def of_char_of)
  then show ?thesis by auto
qed

lemma hex_encode_no_slash: "CHR ''/'' \<notin> set (hex_encode bs)"
proof -
  have "unat b < 2 ^ LENGTH(8)" for b :: "8 word" by (rule unsigned_less)
  then have "unat b div 16 < 16" "unat b mod 16 < 16" for b :: "8 word"
    by (simp_all add: less_mult_imp_div_less)
  from hex_digit_no_slash [OF this(1)] hex_digit_no_slash [OF this(2)] show ?thesis
    by (auto simp: hex_encode_def dest: sym)
qed

datatype os_error = ErrNotExist | OsErr string

fun os_err :: "os_error \<Rightarrow> goerror" where
  "os_err ErrNotExist = Opaque ''no such file or directory''"
| "os_err (OsErr m) = Opaque m"

definition fails :: "os_env \<Rightarrow> sysop \<Rightarrow> string \<Rightarrow> os_error option" where
  "fails env c p = map_option OsErr (fault env c p)"

definition faultless :: "os_env \<Rightarrow> bool" where
  "faultless env \<longleftrightarrow> (\<forall>c p. fault env c p = None)"

lemma fails_faultless [simp]: "faultless env \<Longrightarrow> fails env c p = None"
  by (simp add: faultless_def fails_def)

text \<open>\<open>fmt.Errorf("...: %w", err)\<close>.\<close>

definition Errorf :: "string \<Rightarrow> goerror \<Rightarrow> goerror" where
  "Errorf a e = Wrapf (a @ '': '') e ''''"

section \<open>Files\<close>

record os_file =
  f_content :: string
  f_mode :: nat
  f_mtime :: int

type_synonym files = "(string \<times> os_file) list"

definition Abs_path :: "os_env \<Rightarrow> string \<Rightarrow> os_error + string" where
  "Abs_path env p =
     (if IsAbs p then Inr (Clean p)
      else case fails env SysGetwd p of
             Some e \<Rightarrow> Inl e
           | None \<Rightarrow> Inr (JoinPath [cwd env, p]))"

definition temp_name :: "nat \<Rightarrow> string" where
  "temp_name n = ''upload-'' @ itoa n @ ''.tmp''"

definition temp_path :: "string \<Rightarrow> nat \<Rightarrow> string" where
  "temp_path dir n = (if HasSuffix dir ''/'' then dir else dir @ ''/'') @ temp_name n"

definition CreateTemp :: "os_env \<Rightarrow> string \<Rightarrow> files \<Rightarrow> (os_error + string) \<times> files" where
  "CreateTemp env dir fs =
     (case fails env SysCreateTemp dir of
        Some e \<Rightarrow> (Inl e, fs)
      | None \<Rightarrow>
          (case find (\<lambda>n. map_of fs (temp_path dir n) = None) (temp_names env) of
             None \<Rightarrow> (Inl (OsErr ''file exists''), fs)
           | Some n \<Rightarrow>
               (Inr (temp_path dir n),
                aput (temp_path dir n) \<lparr>f_content = '''', f_mode = 384, f_mtime = now env\<rparr> fs)))"

definition Remove :: "os_env \<Rightarrow> string \<Rightarrow> files \<Rightarrow> os_error option \<times> files" where
  "Remove env p fs =
     (case fails env SysRemove p of
        Some e \<Rightarrow> (Some e, fs)
      | None \<Rightarrow> if map_of fs p = None then (Some ErrNotExist, fs) else (None, adel p fs))"

definition Chmod :: "os_env \<Rightarrow> string \<Rightarrow> nat \<Rightarrow> files \<Rightarrow> os_error option \<times> files" where
  "Chmod env p m fs =
     (case fails env SysChmod p of
        Some e \<Rightarrow> (Some e, fs)
      | None \<Rightarrow>
          (case map_of fs p of
             None \<Rightarrow> (Some ErrNotExist, fs)
           | Some f \<Rightarrow> (None, aput p (f\<lparr>f_mode := m\<rparr>) fs)))"

definition Rename :: "os_env \<Rightarrow> string \<Rightarrow> string \<Rightarrow> files \<Rightarrow> os_error option \<times> files" where
  "Rename env a b fs =
     (case fails env SysRename a of
        Some e \<Rightarrow> (Some e, fs)
      | None \<Rightarrow>
          (case map_of fs a of
             None \<Rightarrow> (Some ErrNotExist, fs)
           | Some f \<Rightarrow> (None, aput b f (adel a fs))))"

text \<open>Appending through an open descriptor; the file may have been unlinked meanwhile.\<close>

definition append_file :: "os_env \<Rightarrow> string \<Rightarrow> string \<Rightarrow> files \<Rightarrow> files" where
  "append_file env p data fs =
     (case map_of fs p of
        None \<Rightarrow> fs
      | Some f \<Rightarrow> aput p (f\<lparr>f_content := f_content f @ data, f_mtime := now env\<rparr>) fs)"

definition ReadFile :: "os_env \<Rightarrow> string \<Rightarrow> files \<Rightarrow> os_error + string" where
  "ReadFile env p fs =
     (case fails env SysOpen p of
        Some e \<Rightarrow> Inl e
      | None \<Rightarrow>
          (case map_of fs p of
             None \<Rightarrow> Inl ErrNotExist
           | Some f \<Rightarrow> (case fails env SysRead p of Some e \<Rightarrow> Inl e | None \<Rightarrow> Inr (f_content f))))"

text \<open>Opening with \<open>O_CREATE | O_TRUNC\<close>: a file that exists keeps its mode.\<close>

definition create_file :: "os_env \<Rightarrow> string \<Rightarrow> nat \<Rightarrow> files \<Rightarrow> files" where
  "create_file env p m fs =
     aput p \<lparr>f_content = '''', f_mode = (case map_of fs p of None \<Rightarrow> m | Some f \<Rightarrow> f_mode f),
             f_mtime = now env\<rparr> fs"

definition WriteFile :: "os_env \<Rightarrow> string \<Rightarrow> string \<Rightarrow> nat \<Rightarrow> files \<Rightarrow> os_error option \<times> files" where
  "WriteFile env p data m fs =
     (case fails env SysOpen p of
        Some e \<Rightarrow> (Some e, fs)
      | None \<Rightarrow>
          (let fs1 = create_file env p m fs in
           case fails env SysWrite p of
             Some e \<Rightarrow> (Some e, append_file env p (take (short env) data) fs1)
           | None \<Rightarrow> (fails env SysClose p, append_file env p data fs1)))"

definition content_of :: "files \<Rightarrow> string \<Rightarrow> string option" where
  "content_of fs p = map_option f_content (map_of fs p)"

lemma map_of_append_file:
  "map_of (append_file env p d fs) = (map_of fs)(p := map_option
     (\<lambda>f. f\<lparr>f_content := f_content f @ d, f_mtime := now env\<rparr>) (map_of fs p))"
  by (auto simp: append_file_def fun_eq_iff split: option.splits)

lemma map_of_create_file:
  "map_of (create_file env p m fs) = (map_of fs)(p \<mapsto>
     \<lparr>f_content = '''', f_mode = (case map_of fs p of None \<Rightarrow> m | Some f \<Rightarrow> f_mode f), f_mtime = now env\<rparr>)"
  by (simp add: create_file_def)

text \<open>The paths an operation may have changed: everywhere else the store is as it was.\<close>

definition only_changes :: "string set \<Rightarrow> files \<Rightarrow> files \<Rightarrow> bool" where
  "only_changes P fs fs' \<longleftrightarrow> (\<forall>p. p \<notin> P \<longrightarrow> map_of fs' p = map_of fs p)"

lemma only_changes_refl [simp]: "only_changes P fs fs"
  by (simp add: only_changes_def)

lemma only_changes_trans: "only_changes P a b \<Longrightarrow> only_changes P b c \<Longrightarrow> only_changes P a c"
  by (simp add: only_changes_def)

lemma only_changes_mono: "only_changes P a b \<Longrightarrow> P \<subseteq> Q \<Longrightarrow> only_changes Q a b"
  by (auto simp: only_changes_def)

lemma only_changes_ops:
  "CreateTemp env d fs = (Inr t, fs') \<Longrightarrow> only_changes {t} fs fs'"
  "CreateTemp env d fs = (Inl e, fs') \<Longrightarrow> fs' = fs"
  "Remove env p fs = (r, fs') \<Longrightarrow> only_changes {p} fs fs'"
  "Chmod env p m fs = (r, fs') \<Longrightarrow> only_changes {p} fs fs'"
  "Rename env a b fs = (r, fs') \<Longrightarrow> only_changes {a, b} fs fs'"
  "only_changes {p} fs (append_file env p data fs)"
  "only_changes {p} fs (create_file env p m fs)"
  "WriteFile env p data m fs = (r, fs') \<Longrightarrow> only_changes {p} fs fs'"
  by (auto simp: only_changes_def CreateTemp_def Remove_def Chmod_def Rename_def WriteFile_def Let_def
      map_of_append_file map_of_create_file split: option.splits if_splits)

lemma CreateTemp_new:
  assumes "CreateTemp env d fs = (Inr t, fs')"
  shows "map_of fs t = None" and "map_of fs' t = Some \<lparr>f_content = '''', f_mode = 384, f_mtime = now env\<rparr>"
    and "\<exists>n. t = temp_path d n"
  using assms by (auto simp: CreateTemp_def find_Some_iff split: option.splits)

section \<open>Time stamps\<close>

text \<open>
  \<open>t.UTC().Format("2006_01_02T15_04_05Z")\<close>: the calendar date of a day number, by the
  usual computation on 400-year eras that begin on the first of March.
\<close>

definition civil_of_days :: "int \<Rightarrow> int \<times> int \<times> int" where
  "civil_of_days z0 =
     (let z = z0 + 719468;
          era = z div 146097;
          doe = z mod 146097;
          yoe = (doe - doe div 1460 + doe div 36524 - doe div 146096) div 365;
          doy = doe - (365 * yoe + yoe div 4 - yoe div 100);
          mp = (5 * doy + 2) div 153;
          d = doy - (153 * mp + 2) div 5 + 1;
          m = (if mp < 10 then mp + 3 else mp - 9);
          y = yoe + era * 400
      in (if m \<le> 2 then y + 1 else y, m, d))"

definition pad2 :: "int \<Rightarrow> string" where
  "pad2 n = (if n < 10 then CHR ''0'' # itoa (nat n) else itoa (nat n))"

definition pad4 :: "int \<Rightarrow> string" where
  "pad4 n = (let s = itoa (nat n) in replicate (4 - length s) (CHR ''0'') @ s)"

definition format_stamp :: "int \<Rightarrow> string" where
  "format_stamp ns =
     (let secs = ns div 1000000000;
          sod = secs mod 86400;
          (y, m, d) = civil_of_days (secs div 86400)
      in pad4 y @ ''_'' @ pad2 m @ ''_'' @ pad2 d @ ''T'' @ pad2 (sod div 3600) @ ''_''
         @ pad2 (sod mod 3600 div 60) @ ''_'' @ pad2 (sod mod 60) @ ''Z'')"

text \<open>\<open>t.UTC().Format("20060102-150405")\<close>.\<close>

definition format_compact :: "int \<Rightarrow> string" where
  "format_compact ns =
     (let secs = ns div 1000000000;
          sod = secs mod 86400;
          (y, m, d) = civil_of_days (secs div 86400)
      in pad4 y @ pad2 m @ pad2 d @ ''-'' @ pad2 (sod div 3600) @ pad2 (sod mod 3600 div 60) @ pad2 (sod mod 60))"

lemma format_stamp_example: "format_stamp 1709210096000000000 = ''2024_02_29T12_34_56Z''"
  by code_simp

end
