(* ===== verification/Spool.thy ===== *)
theory Spool
  imports OsFiles Interfaces
begin

text \<open>
  The spool (\<open>pkg/spool/spool.go\<close>): the upload manager, which receives an upload chunk by chunk
  into a temporary file and accounts its bytes against the capacity of the spool, and the
  file manager on top of it. An \<open>*Upload\<close> is a reference into the store of upload records, so
  that the driver's copy of the pointer and the map of active uploads share one record.
  \<open>spoolDir\<close> and \<open>maxTotalSize\<close> are common to the two managers of the code, and are kept once.
  Every exported operation is one step here. \<open>WriteChunk\<close> gives the manager's lock up between
  reserving the bytes and adding them to what the upload has received; the states in between, in
  which the usage is ahead of the sum over the uploads, are not modelled.
\<close>

section \<open>State\<close>

datatype FileStatus = FileStatusPending | FileStatusCommitted | FileStatusFailed | FileStatusPublished

definition ErrInvalidSpoolDirectory :: goerror where
  "ErrInvalidSpoolDirectory = InvalidInput ''invalid spool directory'' None"

definition ErrInvalidParameters :: goerror where
  "ErrInvalidParameters = InvalidInput ''invalid parameters'' None"

definition ErrEmptyData :: goerror where
  "ErrEmptyData = InvalidInput ''empty data'' None"

definition ErrFileTooLarge :: goerror where
  "ErrFileTooLarge = InvalidInput ''file too large'' None"

definition ErrPathTraversal :: goerror where
  "ErrPathTraversal = PathTraversal ''path traversal in spool''"

definition ErrUploadCancelled :: goerror where
  "ErrUploadCancelled = InternalError ''upload cancelled'' None"

definition ErrUploadIncomplete :: goerror where
  "ErrUploadIncomplete = InvalidInput ''upload incomplete'' None"

definition ErrSpoolCapacityExceeded :: goerror where
  "ErrSpoolCapacityExceeded = StorageFull ''spool capacity exceeded''"

definition ErrFileNotFound :: goerror where
  "ErrFileNotFound = NotFound ''file'' ''unknown''"

record FileRef =
  fr_userID :: string
  fr_fileID :: string
  fr_filename :: string
  fr_size :: int
  fr_path :: string
  fr_createdAt :: string
  fr_targetPath :: string
  fr_status :: FileStatus

record SpoolFile = FileRef +
  sf_modTime :: int

text \<open>\<open>up_open\<close> tells whether the descriptor \<open>TempFile\<close> is open; \<open>Cancel\<close> cancels \<open>up_ctx\<close>.\<close>

record Upload =
  up_id :: string
  up_user :: string
  up_filename :: string
  up_target :: string
  up_open :: bool
  up_temp :: string
  up_size :: int
  up_received :: int
  up_started :: int
  up_max :: uint64
  up_ctx :: ctx

record spool =
  spoolDir :: string
  maxTotalSize :: uint64
  currentUsage :: uint64
  activeUploads :: "(string \<times> nat) list"
  uploads :: "(nat \<times> Upload) list"
  next_ref :: nat
  files :: files
  ctxs :: ctx_store

definition new_spool :: "string \<Rightarrow> uint64 \<Rightarrow> files \<Rightarrow> ctx_store \<Rightarrow> spool" where
  "new_spool dir mx fs cs =
     \<lparr>spoolDir = dir, maxTotalSize = mx, currentUsage = 0, activeUploads = [], uploads = [],
      next_ref = 0, files = fs, ctxs = cs\<rparr>"

definition checkDirectoryWritable :: "os_env \<Rightarrow> string \<Rightarrow> files \<Rightarrow> os_error option \<times> files" where
  "checkDirectoryWritable env dir fs =
     (let t = JoinPath [dir, ''.write_test''] in
      case WriteFile env t ''test'' 384 fs of
        (Some e, fs1) \<Rightarrow> (Some e, fs1)
      | (None, fs1) \<Rightarrow> Remove env t fs1)"

definition NewManager ::
  "os_env \<Rightarrow> string \<Rightarrow> uint64 \<Rightarrow> files \<Rightarrow> ctx_store \<Rightarrow> (goerror + spool) \<times> files" where
  "NewManager env dir mx fs cs =
     (if dir = '''' then (Inl ErrInvalidSpoolDirectory, fs)
      else case fails env SysMkdirAll dir of
        Some e \<Rightarrow> (Inl (Errorf ''failed to create spool directory'' (os_err e)), fs)
      | None \<Rightarrow>
          (case checkDirectoryWritable env dir fs of
             (Some e, fs1) \<Rightarrow> (Inl (Errorf ''spool directory is not writable'' (os_err e)), fs1)
           | (None, fs1) \<Rightarrow> (Inr (new_spool dir mx fs1 cs), fs1)))"

section \<open>Starting an upload\<close>

definition generateUploadID :: "os_env \<Rightarrow> string \<Rightarrow> string \<Rightarrow> string \<Rightarrow> string" where
  "generateUploadID env userID filename targetPath =
     ''upload-'' @ take 16 (hex_encode (digest env
       (userID @ ''-'' @ filename @ ''-'' @ targetPath @ ''-'' @ itoa_int (now env))))"

definition generateFileID :: "os_env \<Rightarrow> Upload \<Rightarrow> string" where
  "generateFileID env u =
     ''file-'' @ take 16 (hex_encode (digest env
       (up_user u @ ''-'' @ up_filename u @ ''-'' @ up_target u @ ''-'' @ itoa_int (up_started u))))
     @ ''-'' @ itoa_int (up_received u)"

text \<open>The checks of \<open>StartUpload\<close> before it takes the lock; \<open>sz\<close> is already non-negative.\<close>

definition start_refused :: "string \<Rightarrow> string \<Rightarrow> string \<Rightarrow> int \<Rightarrow> uint64 \<Rightarrow> spool \<Rightarrow> goerror option" where
  "start_refused userID filename targetPath sz accountMaxSize s =
     (if userID = '''' then Some ErrInvalidParameters
      else if filename = '''' then Some ErrInvalidParameters
      else if accountMaxSize = 0 then Some ErrInvalidParameters
      else if accountMaxSize > to_uint64 MaxInt64 then Some ErrInvalidParameters
      else if to_uint64 sz > accountMaxSize then Some ErrFileTooLarge
      else if Contains userID ''..'' \<or> Contains targetPath ''..'' then Some ErrPathTraversal
      else if to_uint64 sz > maxTotalSize s then Some ErrFileTooLarge
      else if currentUsage s + to_uint64 sz > maxTotalSize s then Some ErrSpoolCapacityExceeded
      else None)"

text \<open>The user's directory of the spool, \<open>filepath.Join(absSpoolDir, filepath.Clean(userID))\<close>.\<close>

definition user_dir :: "string \<Rightarrow> string \<Rightarrow> string" where
  "user_dir absSpoolDir userID = JoinPath [absSpoolDir, Clean userID]"

definition rel_escapes :: "string \<Rightarrow> string \<Rightarrow> bool" where
  "rel_escapes base targ \<longleftrightarrow>
     (case Rel base targ of None \<Rightarrow> True | Some rel \<Rightarrow> HasPrefix rel ''..'')"

definition StartUpload ::
  "os_env \<Rightarrow> ctx \<Rightarrow> string \<Rightarrow> string \<Rightarrow> string \<Rightarrow> int \<Rightarrow> uint64 \<Rightarrow> spool \<Rightarrow> (goerror + nat) \<times> spool"
where
  "StartUpload env parent userID filename targetPath expectedSize accountMaxSize s =
     (let sz = (if expectedSize < 0 then 0 else expectedSize) in
      case start_refused userID filename targetPath sz accountMaxSize s of
        Some e \<Rightarrow> (Inl e, s)
      | None \<Rightarrow>
      let uploadID = generateUploadID env userID filename targetPath in
      case Abs_path env (spoolDir s) of
        Inl e \<Rightarrow> (Inl (Errorf ''failed to get absolute spool directory'' (os_err e)), s)
      | Inr absSpoolDir \<Rightarrow>
      let userDir = user_dir absSpoolDir userID in
      case fails env SysMkdirAll userDir of
        Some e \<Rightarrow> (Inl (Errorf ''failed to create user spool directory'' (os_err e)), s)
      | None \<Rightarrow>
      if rel_escapes absSpoolDir userDir then (Inl ErrPathTraversal, s)
      else case CreateTemp env userDir (files s) of
        (Inl e, fs1) \<Rightarrow>
          (Inl (Errorf ''failed to create temporary file'' (os_err e)), s\<lparr>files := fs1\<rparr>)
      | (Inr tmp, fs1) \<Rightarrow>
      case Chmod env tmp 384 fs1 of
        (Some e, fs2) \<Rightarrow>
          (Inl (Errorf ''failed to set file permissions'' (os_err e)),
           s\<lparr>files := snd (Remove env tmp fs2)\<rparr>)
      | (None, fs2) \<Rightarrow>
      let (uctx, cs) = with_cancel parent (ctxs s);
          upload = \<lparr>up_id = uploadID, up_user = userID, up_filename = filename,
                    up_target = targetPath, up_open = True, up_temp = tmp, up_size = sz,
                    up_received = 0, up_started = now env, up_max = accountMaxSize, up_ctx = uctx\<rparr>
      in (Inr (next_ref s),
          s\<lparr>files := fs2, ctxs := cs,
            uploads := aput (next_ref s) upload (uploads s),
            next_ref := Suc (next_ref s),
            activeUploads := aput uploadID (next_ref s) (activeUploads s)\<rparr>))"

section \<open>Receiving data\<close>

definition set_upload :: "nat \<Rightarrow> Upload \<Rightarrow> spool \<Rightarrow> spool" where
  "set_upload r u s = s\<lparr>uploads := aput r u (uploads s)\<rparr>"

text \<open>\<open>upload.TempFile.Write(data)\<close>: the count written and the error.\<close>

definition write_temp :: "os_env \<Rightarrow> Upload \<Rightarrow> string \<Rightarrow> files \<Rightarrow> int \<times> os_error option \<times> files" where
  "write_temp env u data fs =
     (if \<not> up_open u then (0, Some (OsErr ''file already closed''), fs)
      else case fails env SysWrite (up_temp u) of
        Some e \<Rightarrow> (int (length (take (short env) data)), Some e,
                   append_file env (up_temp u) (take (short env) data) fs)
      | None \<Rightarrow> (int (length data), None, append_file env (up_temp u) data fs))"

definition WriteChunk :: "os_env \<Rightarrow> nat option \<Rightarrow> string \<Rightarrow> spool \<Rightarrow> (int \<times> goerror option) \<times> spool" where
  "WriteChunk env upload data s =
     (case Option.bind upload (map_of (uploads s)) of
        None \<Rightarrow> ((0, Some ErrInvalidParameters), s)
      | Some u \<Rightarrow>
      if ctx_done (ctxs s) (up_ctx u) then ((0, Some ErrUploadCancelled), s)
      else
      let remaining = s64 (up_size u - up_received u); len = int (length data) in
      if up_size u > 0 \<and> len > remaining then ((0, Some ErrFileTooLarge), s)
      else if s64 (up_received u + len) > to_int64 (up_max u) then ((0, Some ErrFileTooLarge), s)
      else if currentUsage s + to_uint64 len > maxTotalSize s
        then ((0, Some ErrSpoolCapacityExceeded), s)
      else
      let s1 = s\<lparr>currentUsage := currentUsage s + to_uint64 len\<rparr> in
      case write_temp env u data (files s1) of
        (n, Some e, fs1) \<Rightarrow>
          ((n, Some (Errorf ''failed to write upload chunk'' (os_err e))),
           s1\<lparr>files := fs1, currentUsage := currentUsage s1 - to_uint64 len\<rparr>)
      | (n, None, fs1) \<Rightarrow>
          ((n, None),
           set_upload (the upload) (u\<lparr>up_received := s64 (up_received u + n)\<rparr>) (s1\<lparr>files := fs1\<rparr>)))"

section \<open>Ending an upload\<close>

definition releaseUploadBytes :: "string \<Rightarrow> int \<Rightarrow> spool \<Rightarrow> spool" where
  "releaseUploadBytes uid received s =
     (if map_of (activeUploads s) uid = None then s
      else
        let used = to_uint64 received in
        s\<lparr>activeUploads := adel uid (activeUploads s),
          currentUsage := (if currentUsage s \<ge> used then currentUsage s - used else 0)\<rparr>)"

definition copyFile :: "os_env \<Rightarrow> string \<Rightarrow> string \<Rightarrow> files \<Rightarrow> os_error option \<times> files" where
  "copyFile env dst src fs =
     (case fails env SysOpen src of
        Some e \<Rightarrow> (Some e, fs)
      | None \<Rightarrow>
      if map_of fs src = None then (Some ErrNotExist, fs)
      else case fails env SysCreate dst of
        Some e \<Rightarrow> (Some e, fs)
      | None \<Rightarrow>
      let fs1 = create_file env dst 438 fs;
          content = (case map_of fs1 src of None \<Rightarrow> '''' | Some f \<Rightarrow> f_content f)
      in case fails env SysRead src of
        Some e \<Rightarrow> (Some e, append_file env dst (take (short env) content) fs1)
      | None \<Rightarrow>
          (case fails env SysWrite dst of
             Some e \<Rightarrow> (Some e, append_file env dst (take (short env) content) fs1)
           | None \<Rightarrow> (None, append_file env dst content fs1)))"

text \<open>Moving the temporary file: rename, and copy and delete when renaming fails. A failure to
  delete the copied file is printed and ignored.\<close>

definition move_file :: "os_env \<Rightarrow> string \<Rightarrow> string \<Rightarrow> files \<Rightarrow> os_error option \<times> files" where
  "move_file env tmp final fs =
     (case Rename env tmp final fs of
        (None, fs1) \<Rightarrow> (None, fs1)
      | (Some _, fs1) \<Rightarrow>
          (case copyFile env final tmp fs1 of
             (Some e, fs2) \<Rightarrow> (Some e, fs2)
           | (None, fs2) \<Rightarrow> (None, snd (Remove env tmp fs2))))"

definition FinishUpload :: "os_env \<Rightarrow> nat option \<Rightarrow> spool \<Rightarrow> (goerror + FileRef) \<times> spool" where
  "FinishUpload env upload s =
     (case Option.bind upload (map_of (uploads s)) of
        None \<Rightarrow> (Inl ErrInvalidParameters, s)
      | Some u \<Rightarrow>
      if ctx_done (ctxs s) (up_ctx u) then (Inl ErrUploadCancelled, s)
      else if up_size u > 0 \<and> up_received u \<noteq> up_size u then (Inl ErrUploadIncomplete, s)
      else if \<not> up_open u
        then (Inl (Errorf ''failed to sync upload file'' (Opaque ''file already closed'')), s)
      else case fails env SysSync (up_temp u) of
        Some e \<Rightarrow> (Inl (Errorf ''failed to sync upload file'' (os_err e)), s)
      | None \<Rightarrow>
      let s1 = set_upload (the upload) (u\<lparr>up_open := False\<rparr>) s in
      case fails env SysClose (up_temp u) of
        Some e \<Rightarrow> (Inl (Errorf ''failed to close upload file'' (os_err e)), s1)
      | None \<Rightarrow>
      let fileID = generateFileID env u in
      case Abs_path env (spoolDir s) of
        Inl e \<Rightarrow> (Inl (Errorf ''failed to get absolute spool directory'' (os_err e)), s1)
      | Inr absSpoolDir \<Rightarrow>
      let finalPath = JoinPath [user_dir absSpoolDir (up_user u), fileID] in
      case move_file env (up_temp u) finalPath (files s1) of
        (Some e, fs1) \<Rightarrow> (Inl (Errorf ''failed to move upload file'' (os_err e)), s1\<lparr>files := fs1\<rparr>)
      | (None, fs1) \<Rightarrow>
      case Chmod env finalPath 384 fs1 of
        (Some e, fs2) \<Rightarrow>
          (Inl (Errorf ''failed to set final file permissions'' (os_err e)), s1\<lparr>files := fs2\<rparr>)
      | (None, fs2) \<Rightarrow>
          (Inr \<lparr>fr_userID = up_user u, fr_fileID = fileID, fr_filename = up_filename u,
                fr_size = up_received u, fr_path = finalPath,
                fr_createdAt = format_stamp (up_started u), fr_targetPath = up_target u,
                fr_status = FileStatusCommitted\<rparr>,
           releaseUploadBytes (up_id u) (up_received u) (s1\<lparr>files := fs2\<rparr>)))"

text \<open>Closing the descriptor may fail, and removing the file too; neither stops an abort.\<close>

definition AbortUpload :: "os_env \<Rightarrow> nat option \<Rightarrow> spool \<Rightarrow> goerror option \<times> spool" where
  "AbortUpload env upload s =
     (case Option.bind upload (map_of (uploads s)) of
        None \<Rightarrow> (Some ErrInvalidParameters, s)
      | Some u \<Rightarrow>
          (let s1 = s\<lparr>ctxs := cancel_ctx (up_ctx u) (ctxs s)\<rparr>;
               s2 = set_upload (the upload) (u\<lparr>up_open := False\<rparr>) s1;
               s3 = s2\<lparr>files := snd (Remove env (up_temp u) (files s2))\<rparr>
           in (None, releaseUploadBytes (up_id u) (up_received u) s3)))"

definition GetUpload :: "string \<Rightarrow> spool \<Rightarrow> nat option" where
  "GetUpload uid s = map_of (activeUploads s) uid"

definition RemoveUpload :: "string \<Rightarrow> spool \<Rightarrow> spool" where
  "RemoveUpload uid s =
     (case Option.bind (map_of (activeUploads s) uid) (map_of (uploads s)) of
        None \<Rightarrow> s
      | Some u \<Rightarrow> releaseUploadBytes (up_id u) (up_received u) s)"

definition CurrentUsage :: "spool \<Rightarrow> uint64 \<times> nat" where
  "CurrentUsage s = (currentUsage s, length (activeUploads s))"

section \<open>The invariant of the accounting\<close>

definition received :: "spool \<Rightarrow> nat \<Rightarrow> nat" where
  "received s r = (case map_of (uploads s) r of None \<Rightarrow> 0 | Some u \<Rightarrow> nat (up_received u))"

text \<open>
  The counts of one upload are within its limits; an upload that is no longer active cannot
  receive data any more: its context is done or its descriptor closed.
\<close>

definition upload_ok :: "spool \<Rightarrow> nat \<Rightarrow> Upload \<Rightarrow> bool" where
  "upload_ok s r u \<longleftrightarrow> 0 \<le> up_received u \<and> up_received u \<le> uint (up_max u) \<and> uint (up_max u) \<le> MaxInt64
     \<and> 0 \<le> up_size u \<and> (0 < up_size u \<longrightarrow> up_received u \<le> up_size u) \<and> up_size u \<le> MaxInt64
     \<and> up_ctx u \<noteq> []
     \<and> (map_of (activeUploads s) (up_id u) = Some r \<or> ctx_done (ctxs s) (up_ctx u) \<or> \<not> up_open u)"

definition ids_unique :: "spool \<Rightarrow> bool" where
  "ids_unique s \<longleftrightarrow> (\<forall>r r' u u'. map_of (uploads s) r = Some u \<longrightarrow> map_of (uploads s) r' = Some u' \<longrightarrow>
     up_id u = up_id u' \<longrightarrow> r = r')"

definition active_ok :: "spool \<Rightarrow> bool" where
  "active_ok s \<longleftrightarrow> distinct (akeys (activeUploads s))
     \<and> (\<forall>uid r. map_of (activeUploads s) uid = Some r \<longrightarrow>
          (\<exists>u. map_of (uploads s) r = Some u \<and> up_id u = uid))"

definition spool_inv :: "spool \<Rightarrow> bool" where
  "spool_inv s \<longleftrightarrow> active_ok s \<and> ids_unique s
     \<and> (\<forall>r u. map_of (uploads s) r = Some u \<longrightarrow> r < next_ref s \<and> upload_ok s r u)
     \<and> unat (currentUsage s) = asum (received s) (activeUploads s)
     \<and> currentUsage s \<le> maxTotalSize s"

lemma spool_invD:
  assumes "spool_inv s"
  shows "active_ok s" "ids_unique s" "unat (currentUsage s) = asum (received s) (activeUploads s)"
    "currentUsage s \<le> maxTotalSize s"
    "map_of (uploads s) r = Some u \<Longrightarrow> r < next_ref s"
    "map_of (uploads s) r = Some u \<Longrightarrow> upload_ok s r u"
  using assms by (auto simp: spool_inv_def)

lemma active_unique:
  "spool_inv s \<Longrightarrow> map_of (uploads s) r = Some u \<Longrightarrow> map_of (activeUploads s) uid = Some r \<Longrightarrow> uid = up_id u"
  by (force simp: spool_inv_def active_ok_def)

lemma active_ref:
  assumes "active_ok s" and "ids_unique s" and "map_of (uploads s) r = Some u"
    and "map_of (activeUploads s) (up_id u) = Some r'"
  shows "r' = r"
proof -
  obtain u' where "map_of (uploads s) r' = Some u'" "up_id u' = up_id u"
    using assms(1,4) by (auto simp: active_ok_def)
  with assms(2,3) show ?thesis unfolding ids_unique_def by blast
qed

text \<open>What the invariant looks at; the files may change freely, contexts may be cancelled.\<close>

lemma spool_inv_files [simp]: "spool_inv (s\<lparr>files := fs\<rparr>) = spool_inv s"
  by (simp add: spool_inv_def active_ok_def ids_unique_def upload_ok_def received_def [abs_def])

lemma upload_ok_cancel: "upload_ok s r u \<Longrightarrow> upload_ok (s\<lparr>ctxs := cancel_ctx c (ctxs s)\<rparr>) r u"
  using ctx_done_mono [of "ctxs s" "up_ctx u" c] by (auto simp: upload_ok_def)

lemma spool_inv_cancel [keeps]: "spool_inv s \<Longrightarrow> spool_inv (s\<lparr>ctxs := cancel_ctx c (ctxs s)\<rparr>)"
  by (simp add: spool_inv_def active_ok_def ids_unique_def upload_ok_cancel received_def [abs_def])

lemma received_set: "received (set_upload r u s) = (received s)(r := nat (up_received u))"
  by (auto simp: received_def set_upload_def fun_eq_iff)

lemma set_upload_sel [simp]:
  "uploads (set_upload r u s) = aput r u (uploads s)"
  "activeUploads (set_upload r u s) = activeUploads s" "currentUsage (set_upload r u s) = currentUsage s"
  "maxTotalSize (set_upload r u s) = maxTotalSize s" "files (set_upload r u s) = files s"
  "ctxs (set_upload r u s) = ctxs s" "next_ref (set_upload r u s) = next_ref s"
  "spoolDir (set_upload r u s) = spoolDir s"
  by (simp_all add: set_upload_def)

text \<open>Closing the descriptor of an upload.\<close>

lemma spool_inv_close [keeps]:
  assumes inv: "spool_inv s" and u: "map_of (uploads s) r = Some u"
  shows "spool_inv (set_upload r (u\<lparr>up_open := False\<rparr>) s)"
proof -
  have "received (set_upload r (u\<lparr>up_open := False\<rparr>) s) = received s"
    using u by (simp add: received_set) (simp add: received_def fun_eq_iff)
  moreover have "active_ok (set_upload r (u\<lparr>up_open := False\<rparr>) s)"
    using spool_invD(1) [OF inv] active_unique [OF inv u] by (auto simp: active_ok_def)
  moreover have "ids_unique (set_upload r (u\<lparr>up_open := False\<rparr>) s)"
    using spool_invD(2) [OF inv] u unfolding ids_unique_def by auto
  ultimately show ?thesis
    using spool_invD [OF inv] u by (auto simp: spool_inv_def upload_ok_def)
qed

text \<open>Releasing an upload that cannot receive any more gives its bytes back, exactly once.\<close>

lemma release_keeps:
  assumes inv: "spool_inv s" and u: "map_of (uploads s) r = Some u"
    and off: "ctx_done (ctxs s) (up_ctx u) \<or> \<not> up_open u"
  shows "spool_inv (releaseUploadBytes (up_id u) (up_received u) s)"
    and "map_of (activeUploads s) (up_id u) = Some r \<Longrightarrow>
      unat (currentUsage (releaseUploadBytes (up_id u) (up_received u) s)) + nat (up_received u)
        = unat (currentUsage s)"
proof -
  let ?s' = "releaseUploadBytes (up_id u) (up_received u) s"
  note D = spool_invD [OF inv]
  have ok: "upload_ok s r u" using D(6) u by blast
  show "spool_inv ?s'"
  proof (cases "map_of (activeUploads s) (up_id u)")
    case None
    then show ?thesis using inv by (simp add: releaseUploadBytes_def)
  next
    case (Some r')
    then have r': "r' = r" using active_ref D(1,2) u by blast
    let ?used = "to_uint64 (up_received u)"
    have used: "unat ?used = nat (up_received u)"
      using ok by (intro unat_to_uint64_nat) (simp_all add: upload_ok_def)
    have d: "distinct (akeys (activeUploads s))" using D(1) by (simp add: active_ok_def)
    have sum: "asum (received s) (activeUploads s)
        = asum (received s) (adel (up_id u) (activeUploads s)) + nat (up_received u)"
      using asum_adel [OF d Some, of "received s"] u r' by (simp add: received_def)
    then have le: "?used \<le> currentUsage s" using D(3) used by (simp add: word_le_nat_alt)
    have s': "?s' = s\<lparr>activeUploads := adel (up_id u) (activeUploads s), currentUsage := currentUsage s - ?used\<rparr>"
      using Some le by (simp add: releaseUploadBytes_def Let_def)
    have rec: "received ?s' = received s" by (simp add: s' received_def fun_eq_iff)
    have cu: "unat (currentUsage s - ?used) = unat (currentUsage s) - nat (up_received u)"
      using le used by (simp add: unat_sub)
    have usage: "unat (currentUsage ?s') = asum (received ?s') (activeUploads ?s')"
      unfolding rec using cu sum D(3) by (simp add: s')
    have le2: "currentUsage ?s' \<le> maxTotalSize ?s'"
      using D(4) cu by (simp add: s' word_le_nat_alt)
    have act: "active_ok ?s'" "ids_unique ?s'"
      using D(1,2) by (simp_all add: s' active_ok_def ids_unique_def)
    have ups: "upload_ok ?s' q v" if v: "map_of (uploads s) q = Some v" for q v
    proof -
      have "upload_ok s q v" using D(6) v by blast
      moreover have "up_id v = up_id u \<Longrightarrow> v = u"
        using D(2) u v unfolding ids_unique_def by (metis option.inject)
      ultimately show ?thesis using off by (auto simp: upload_ok_def s')
    qed
    have "next_ref ?s' = next_ref s" "uploads ?s' = uploads s" by (simp_all add: s')
    then show ?thesis using usage le2 act ups D(5) unfolding spool_inv_def by auto
  qed
  show "unat (currentUsage ?s') + nat (up_received u) = unat (currentUsage s)"
    if a: "map_of (activeUploads s) (up_id u) = Some r"
  proof -
    have d: "distinct (akeys (activeUploads s))" using D(1) by (simp add: active_ok_def)
    have used: "unat (to_uint64 (up_received u)) = nat (up_received u)"
      using ok by (intro unat_to_uint64_nat) (simp_all add: upload_ok_def)
    have "nat (up_received u) \<le> unat (currentUsage s)"
      using asum_ge [OF d a, of "received s"] u D(3) by (simp add: received_def)
    then show ?thesis using a used by (simp add: releaseUploadBytes_def Let_def word_le_nat_alt unat_sub)
  qed
qed

section \<open>Every operation keeps the invariant\<close>

definition fresh_id :: "string \<Rightarrow> spool \<Rightarrow> bool" where
  "fresh_id uid s \<longleftrightarrow> list_all (\<lambda>(r, u). up_id u \<noteq> uid) (uploads s)"

lemma fresh_idD: "fresh_id uid s \<Longrightarrow> map_of (uploads s) r = Some u \<Longrightarrow> up_id u \<noteq> uid"
  by (auto simp: fresh_id_def list_all_iff dest: map_of_SomeD)

lemma to_uint64_le: "0 \<le> x \<Longrightarrow> x < 2 ^ 64 \<Longrightarrow> to_uint64 x \<le> w \<longleftrightarrow> x \<le> uint w"
  by (simp add: to_uint64_def word_le_def unsigned_of_int take_bit_int_eq_self)

text \<open>Registering a new upload: the last step of \<open>StartUpload\<close>.\<close>

lemma register_keeps:
  assumes inv: "spool_inv s" and new: "fresh_id (up_id u) s"
    and ok: "up_received u = 0" "0 \<le> up_size u" "up_size u \<le> MaxInt64" "uint (up_max u) \<le> MaxInt64" "up_ctx u \<noteq> []"
    and s': "s' = s\<lparr>files := fs, ctxs := cs, uploads := aput (next_ref s) u (uploads s),
            next_ref := Suc (next_ref s), activeUploads := aput (up_id u) (next_ref s) (activeUploads s)\<rparr>"
    and cs: "cancelled cs = cancelled (ctxs s)"
  shows "spool_inv s'"
proof -
  note D = spool_invD [OF inv]
  have nr: "map_of (uploads s) (next_ref s) = None"
    using D(5) [of "next_ref s"] by (cases "map_of (uploads s) (next_ref s)") auto
  have na: "map_of (activeUploads s) (up_id u) = None"
  proof (rule ccontr)
    assume "map_of (activeUploads s) (up_id u) \<noteq> None"
    then obtain r where "map_of (activeUploads s) (up_id u) = Some r" by blast
    then obtain v where "map_of (uploads s) r = Some v" "up_id v = up_id u"
      using D(1) by (auto simp: active_ok_def)
    then show False using fresh_idD [OF new] by blast
  qed
  have nb: "map_of (activeUploads s) uid \<noteq> Some (next_ref s)" for uid
    using D(1) nr by (force simp: active_ok_def)
  have dn: "ctx_done cs = ctx_done (ctxs s)" using cs by (simp add: ctx_done_def fun_eq_iff)
  have rec: "received s' = received s"
    using nr ok(1) by (auto simp: received_def s' fun_eq_iff)
  have d: "distinct (akeys (activeUploads s))" using D(1) by (simp add: active_ok_def)
  have r0: "received s (next_ref s) = 0" using nr by (simp add: received_def)
  have use: "unat (currentUsage s') = asum (received s') (activeUploads s')"
    unfolding rec using D(3) na r0 by (simp add: s' asum_aput_new map_of_None_akeys)
  have act: "active_ok s'" using D(1) na nb nr by (auto simp: active_ok_def s')
  have uni: "ids_unique s'"
    using D(2) fresh_idD [OF new] by (fastforce simp: ids_unique_def s')
  have "map_of (uploads s') r = Some v \<Longrightarrow> r < next_ref s' \<and> upload_ok s' r v" for r v
  proof (cases "r = next_ref s")
    case True
    assume "map_of (uploads s') r = Some v"
    with True show ?thesis using ok by (simp add: s' upload_ok_def)
  next
    case False
    assume v: "map_of (uploads s') r = Some v"
    with False have v': "map_of (uploads s) r = Some v" by (simp add: s')
    with D(6) have "upload_ok s r v" by blast
    then show ?thesis
      using False v' D(5) [OF v'] fresh_idD [OF new v'] by (simp add: upload_ok_def s' dn)
  qed
  then show ?thesis using act uni use D(4) unfolding spool_inv_def by (auto simp: s')
qed

lemma start_refused_bounds:
  assumes "start_refused user name target sz mx s = None" and "0 \<le> sz" and "sz \<le> MaxInt64"
  shows "uint mx \<le> MaxInt64" and "mx \<noteq> 0" and "sz \<le> uint mx" and "\<not> Contains user ''..''"
    and "\<not> Contains target ''..''" and "user \<noteq> ''''" and "name \<noteq> ''''"
proof -
  have "mx \<le> to_uint64 MaxInt64" and sz: "to_uint64 sz \<le> mx"
    using assms(1) by (auto simp: start_refused_def split: if_splits)
  then show "uint mx \<le> MaxInt64" by (simp add: word_le_def to_uint64_def unsigned_of_int take_bit_int_eq_self)
  show "sz \<le> uint mx" using sz assms(2,3) by (simp add: to_uint64_le)
  show "mx \<noteq> 0" "\<not> Contains user ''..''" "\<not> Contains target ''..''" "user \<noteq> ''''" "name \<noteq> ''''"
    using assms(1) by (auto simp: start_refused_def split: if_splits)
qed

text \<open>The two outcomes of \<open>StartUpload\<close>.\<close>

lemma StartUpload_Inl:
  "StartUpload env parent user name target size0 mx s = (Inl e, s') \<Longrightarrow> s' = s\<lparr>files := files s'\<rparr>"
  by (auto simp: StartUpload_def Let_def with_cancel_def
      split: option.splits sum.splits prod.splits if_splits)

lemma StartUpload_Inr:
  assumes "StartUpload env parent user name target size0 mx s = (Inr r, s')"
  defines "sz \<equiv> (if size0 < 0 then 0 else size0)"
  obtains dir tmp fs1 fs2 u where
    "start_refused user name target sz mx s = None"
    and "Abs_path env (spoolDir s) = Inr dir"
    and "\<not> rel_escapes dir (user_dir dir user)"
    and "CreateTemp env (user_dir dir user) (files s) = (Inr tmp, fs1)"
    and "Chmod env tmp 384 fs1 = (None, fs2)"
    and "r = next_ref s"
    and "u = \<lparr>up_id = generateUploadID env user name target, up_user = user, up_filename = name,
              up_target = target, up_open = True, up_temp = tmp, up_size = sz, up_received = 0,
              up_started = now env, up_max = mx, up_ctx = next_token (ctxs s) # parent\<rparr>"
    and "s' = s\<lparr>files := fs2, ctxs := (ctxs s)\<lparr>next_token := Suc (next_token (ctxs s))\<rparr>,
            uploads := aput (next_ref s) u (uploads s), next_ref := Suc (next_ref s),
            activeUploads := aput (up_id u) (next_ref s) (activeUploads s)\<rparr>"
  using assms(1)
  by (auto simp: StartUpload_def Let_def with_cancel_def sz_def [symmetric]
      split: option.splits sum.splits prod.splits if_splits)

lemma StartUpload_keeps:
  assumes inv: "spool_inv s" and st: "StartUpload env parent user name target size0 mx s = (x, s')"
    and new: "fresh_id (generateUploadID env user name target) s" and "size0 \<le> MaxInt64"
  shows "spool_inv s'"
proof (cases x)
  case (Inl e)
  then show ?thesis using StartUpload_Inl [OF st [unfolded Inl]] inv by (metis spool_inv_files)
next
  case (Inr r)
  from st [unfolded Inr] show ?thesis
  proof (rule StartUpload_Inr)
    fix dir tmp fs1 fs2 u
    assume none: "start_refused user name target (if size0 < 0 then 0 else size0) mx s = None"
      and u: "u = \<lparr>up_id = generateUploadID env user name target, up_user = user, up_filename = name,
              up_target = target, up_open = True, up_temp = tmp, up_size = if size0 < 0 then 0 else size0,
              up_received = 0,
              up_started = now env, up_max = mx, up_ctx = next_token (ctxs s) # parent\<rparr>"
      and s': "s' = s\<lparr>files := fs2, ctxs := (ctxs s)\<lparr>next_token := Suc (next_token (ctxs s))\<rparr>,
            uploads := aput (next_ref s) u (uploads s), next_ref := Suc (next_ref s),
            activeUploads := aput (up_id u) (next_ref s) (activeUploads s)\<rparr>"
    have "uint mx \<le> MaxInt64" using \<open>size0 \<le> MaxInt64\<close> by (intro start_refused_bounds(1) [OF none]) auto
    then show ?thesis
      using new \<open>size0 \<le> MaxInt64\<close> by (intro register_keeps [OF inv _ _ _ _ _ _ s']) (auto simp: u)
  qed
qed

text \<open>The two outcomes of \<open>WriteChunk\<close>: a refused or failed chunk leaves the books alone.\<close>

lemma WriteChunk_err:
  "WriteChunk env upload data s = ((n, Some e), s') \<Longrightarrow> s' = s\<lparr>files := files s'\<rparr>"
  by (auto simp: WriteChunk_def Let_def split: option.splits prod.splits if_splits)

lemma WriteChunk_ok:
  assumes "WriteChunk env upload data s = ((n, None), s')"
  obtains r u where "upload = Some r" and "map_of (uploads s) r = Some u"
    and "\<not> ctx_done (ctxs s) (up_ctx u)" and "up_open u" and "fails env SysWrite (up_temp u) = None"
    and "n = int (length data)"
    and "0 < up_size u \<longrightarrow> int (length data) \<le> s64 (up_size u - up_received u)"
    and "s64 (up_received u + int (length data)) \<le> to_int64 (up_max u)"
    and "currentUsage s + to_uint64 (int (length data)) \<le> maxTotalSize s"
    and "s' = set_upload r (u\<lparr>up_received := s64 (up_received u + int (length data))\<rparr>)
           (s\<lparr>currentUsage := currentUsage s + to_uint64 (int (length data)),
              files := append_file env (up_temp u) data (files s)\<rparr>)"
  using assms
  by (auto simp: WriteChunk_def write_temp_def Let_def bind_eq_Some_conv
      split: option.splits prod.splits if_splits)

text \<open>
  The sizes of one chunk: a Go slice is at most \<open>MaxInt64\<close> long, and the capacity leaves room
  for it in 64 bits.
\<close>

definition chunk_fits :: "string \<Rightarrow> spool \<Rightarrow> bool" where
  "chunk_fits data s \<longleftrightarrow> int (length data) \<le> MaxInt64 \<and> uint (maxTotalSize s) + int (length data) < 2 ^ 64"

text \<open>The code bounds every chunk by the size limits: where \<open>up_received\<close> and the chunk are each
  at most \<open>MaxInt64\<close>, their sum is too, or it wraps to a negative number, and the wrapped sum
  would pass the test. The driver reads into buffers far below that size; the bound is
  \<open>int (length data) \<le> MaxInt64 - up_received u\<close>.\<close>

definition write_fits :: "nat option \<Rightarrow> string \<Rightarrow> spool \<Rightarrow> bool" where
  "write_fits upload data s \<longleftrightarrow> chunk_fits data s
     \<and> (case Option.bind upload (map_of (uploads s)) of None \<Rightarrow> True
        | Some u \<Rightarrow> up_received u + int (length data) \<le> MaxInt64)"

lemma WriteChunk_bounds:
  assumes inv: "spool_inv s" and fit: "write_fits (Some r) data s"
    and u: "map_of (uploads s) r = Some u"
    and sz: "0 < up_size u \<longrightarrow> int (length data) \<le> s64 (up_size u - up_received u)"
    and mx: "s64 (up_received u + int (length data)) \<le> to_int64 (up_max u)"
    and cap: "currentUsage s + to_uint64 (int (length data)) \<le> maxTotalSize s"
  shows "s64 (up_received u + int (length data)) = up_received u + int (length data)"
    and "up_received u + int (length data) \<le> uint (up_max u)"
    and "0 < up_size u \<Longrightarrow> up_received u + int (length data) \<le> up_size u"
    and "unat (currentUsage s + to_uint64 (int (length data))) = unat (currentUsage s) + length data"
proof -
  have ok: "upload_ok s r u" using spool_invD(6) [OF inv u] .
  have le: "up_received u + int (length data) \<le> MaxInt64" using fit u by (simp add: write_fits_def)
  show e: "s64 (up_received u + int (length data)) = up_received u + int (length data)"
    using ok le by (intro s64_id) (simp_all add: upload_ok_def)
  show "up_received u + int (length data) \<le> uint (up_max u)"
    using mx ok unfolding e by (simp add: upload_ok_def to_int64_uint)
  have "s64 (up_size u - up_received u) = up_size u - up_received u" if "0 < up_size u"
    using ok that by (intro s64_id) (simp_all add: upload_ok_def)
  then show "up_received u + int (length data) \<le> up_size u" if "0 < up_size u" using sz that by simp
  have "uint (currentUsage s) \<le> uint (maxTotalSize s)"
    using spool_invD(4) [OF inv] by (simp add: word_le_def)
  then have "int (unat (currentUsage s) + length data) < int (2 ^ 64)"
    using fit by (simp add: write_fits_def chunk_fits_def)
  then have b: "unat (currentUsage s) + length data < 2 ^ 64" unfolding of_nat_less_iff .
  have l: "unat (to_uint64 (int (length data))) = length data"
    using fit by (subst unat_to_uint64_nat) (simp_all add: write_fits_def chunk_fits_def)
  have "unat (currentUsage s) + unat (to_uint64 (int (length data))) < 2 ^ LENGTH(64)"
    unfolding l using b by simp
  then show "unat (currentUsage s + to_uint64 (int (length data))) = unat (currentUsage s) + length data"
    using unat_add_lem [THEN iffD1] l by metis
qed

lemma WriteChunk_keeps:
  assumes inv: "spool_inv s" and w: "WriteChunk env upload data s = ((n, e), s')"
    and fit: "write_fits upload data s"
  shows "spool_inv s'"
proof (cases e)
  case (Some e')
  then show ?thesis using WriteChunk_err w inv by (metis spool_inv_files)
next
  case None
  from w [unfolded None] show ?thesis
  proof (rule WriteChunk_ok)
    fix r and u :: Upload
    let ?n = "int (length data)"
    let ?u' = "u\<lparr>up_received := s64 (up_received u + ?n)\<rparr>"
    assume up: "upload = Some r" and u: "map_of (uploads s) r = Some u"
      and nd: "\<not> ctx_done (ctxs s) (up_ctx u)" and op: "up_open u"
      and sz: "0 < up_size u \<longrightarrow> ?n \<le> s64 (up_size u - up_received u)"
      and mx: "s64 (up_received u + ?n) \<le> to_int64 (up_max u)"
      and cap: "currentUsage s + to_uint64 ?n \<le> maxTotalSize s"
      and s': "s' = set_upload r ?u' (s\<lparr>currentUsage := currentUsage s + to_uint64 ?n,
              files := append_file env (up_temp u) data (files s)\<rparr>)"
    note B = WriteChunk_bounds [OF inv fit [unfolded up] u sz mx cap]
    note D = spool_invD [OF inv]
    have ok: "upload_ok s r u" using D(6) u by blast
    then have a: "map_of (activeUploads s) (up_id u) = Some r" using nd op by (simp add: upload_ok_def)
    have d: "distinct (akeys (activeUploads s))" using D(1) by (simp add: active_ok_def)
    have rec: "received s' = (received s)(r := received s r + length data)"
    proof -
      have "received s' = (received (s\<lparr>currentUsage := currentUsage s + to_uint64 ?n,
              files := append_file env (up_temp u) data (files s)\<rparr>))(r := nat (up_received u + ?n))"
        unfolding s' received_set by (simp add: B(1))
      also have "received (s\<lparr>currentUsage := currentUsage s + to_uint64 ?n,
              files := append_file env (up_temp u) data (files s)\<rparr>) = received s"
        by (simp add: received_def fun_eq_iff)
      also have "nat (up_received u + ?n) = received s r + length data"
        using ok by (simp add: received_def u upload_ok_def nat_add_distrib)
      finally show ?thesis .
    qed
    have "asum (received s') (activeUploads s) = asum (received s) (activeUploads s) + length data"
      using asum_fun_upd_in [OF d a, of "received s" "received s r + length data"] active_unique [OF inv u]
      unfolding rec by simp
    then have use: "unat (currentUsage s') = asum (received s') (activeUploads s')"
      using B(4) D(3) by (simp add: s')
    have act: "active_ok s'" using D(1) active_unique [OF inv u] by (auto simp: active_ok_def s' u)
    have uni: "ids_unique s'" using D(2) u unfolding ids_unique_def by (auto simp: s')
    have ups: "map_of (uploads s') q = Some v \<Longrightarrow> q < next_ref s' \<and> upload_ok s' q v" for q v
      using D(5,6) ok u B(1-3) a
      by (cases "q = r") (auto simp: s' upload_ok_def)
    show ?thesis using act uni use ups cap unfolding spool_inv_def by (auto simp: s')
  qed
qed

text \<open>The outcomes of \<open>FinishUpload\<close>: every state change after the checks closes the descriptor.\<close>

lemma FinishUpload_Inl:
  assumes "FinishUpload env upload s = (Inl e, s')"
  shows "s' = s \<or> (\<exists>r u. upload = Some r \<and> map_of (uploads s) r = Some u
     \<and> s' = (set_upload r (u\<lparr>up_open := False\<rparr>) s)\<lparr>files := files s'\<rparr>)"
  using assms
  by (auto simp: FinishUpload_def Let_def bind_eq_Some_conv set_upload_def
      split: option.splits prod.splits if_splits sum.splits)

lemma FinishUpload_Inr:
  assumes "FinishUpload env upload s = (Inr ref, s')"
  obtains r u dir fs1 fs2 where "upload = Some r" and "map_of (uploads s) r = Some u"
    and "\<not> ctx_done (ctxs s) (up_ctx u)" and "up_size u > 0 \<longrightarrow> up_received u = up_size u" and "up_open u"
    and "Abs_path env (spoolDir s) = Inr dir"
    and "ref = \<lparr>fr_userID = up_user u, fr_fileID = generateFileID env u, fr_filename = up_filename u,
                fr_size = up_received u, fr_path = JoinPath [user_dir dir (up_user u), generateFileID env u],
                fr_createdAt = format_stamp (up_started u), fr_targetPath = up_target u,
                fr_status = FileStatusCommitted\<rparr>"
    and "move_file env (up_temp u) (fr_path ref) (files s) = (None, fs1)"
    and "Chmod env (fr_path ref) 384 fs1 = (None, fs2)"
    and "s' = releaseUploadBytes (up_id u) (up_received u)
                ((set_upload r (u\<lparr>up_open := False\<rparr>) s)\<lparr>files := fs2\<rparr>)"
  using assms
  by (auto simp: FinishUpload_def Let_def bind_eq_Some_conv
      split: option.splits prod.splits if_splits sum.splits)

lemma release_after_close:
  assumes inv: "spool_inv s" and u: "map_of (uploads s) r = Some u"
  shows "spool_inv (releaseUploadBytes (up_id u) (up_received u)
           ((set_upload r (u\<lparr>up_open := False\<rparr>) s)\<lparr>files := fs\<rparr>))"
  using release_keeps(1) [of "(set_upload r (u\<lparr>up_open := False\<rparr>) s)\<lparr>files := fs\<rparr>" r "u\<lparr>up_open := False\<rparr>"]
    spool_inv_close [OF inv u] by simp

lemma FinishUpload_keeps:
  assumes inv: "spool_inv s" and f: "FinishUpload env upload s = (x, s')"
  shows "spool_inv s'"
proof (cases x)
  case (Inl e)
  from FinishUpload_Inl [OF f [unfolded Inl]] inv spool_inv_close show ?thesis
    by (metis spool_inv_files)
next
  case (Inr ref)
  from f [unfolded Inr] inv show ?thesis
    by (elim FinishUpload_Inr) (simp add: release_after_close)
qed

lemma AbortUpload_keeps:
  assumes inv: "spool_inv s" and a: "AbortUpload env upload s = (x, s')"
  shows "spool_inv s'"
proof (cases "Option.bind upload (map_of (uploads s))")
  case None
  then show ?thesis using a inv by (simp add: AbortUpload_def)
next
  case (Some u)
  then obtain r where r: "upload = Some r" "map_of (uploads s) r = Some u" by (auto simp: bind_eq_Some_conv)
  let ?s1 = "s\<lparr>ctxs := cancel_ctx (up_ctx u) (ctxs s)\<rparr>"
  have "spool_inv ?s1" using inv by (rule spool_inv_cancel)
  from release_after_close [OF this, of r u] r a show ?thesis
    by (auto simp: AbortUpload_def Let_def)
qed

section \<open>The upload manager as a system of steps\<close>

text \<open>
  The calls that reach the upload manager, in any interleaving of any number of uploads, and
  the cancellation of a session's context by the FTP server.
\<close>

datatype spool_op =
    Start os_env ctx string string string int uint64
  | Chunk os_env "nat option" string
  | Finish os_env "nat option"
  | Abort os_env "nat option"
  | CancelCtx ctx

fun spool_step :: "spool \<Rightarrow> spool_op \<Rightarrow> spool" where
  "spool_step s (Start env parent user name target sz mx) = snd (StartUpload env parent user name target sz mx s)"
| "spool_step s (Chunk env upload data) = snd (WriteChunk env upload data s)"
| "spool_step s (Finish env upload) = snd (FinishUpload env upload s)"
| "spool_step s (Abort env upload) = snd (AbortUpload env upload s)"
| "spool_step s (CancelCtx c) = s\<lparr>ctxs := cancel_ctx c (ctxs s)\<rparr>"

text \<open>
  What the steps need: the generated id of an upload is new (the digest of its names and the
  nanosecond), sizes are 64-bit numbers, and a chunk does not exhaust them.
\<close>

fun spool_op_ok :: "spool \<Rightarrow> spool_op \<Rightarrow> bool" where
  "spool_op_ok s (Start env parent user name target sz mx) \<longleftrightarrow>
     fresh_id (generateUploadID env user name target) s \<and> sz \<le> MaxInt64"
| "spool_op_ok s (Chunk env upload data) \<longleftrightarrow> write_fits upload data s"
| "spool_op_ok s op \<longleftrightarrow> True"

lemma release_sel [simp]:
  "maxTotalSize (releaseUploadBytes uid n s) = maxTotalSize s" "uploads (releaseUploadBytes uid n s) = uploads s"
  "files (releaseUploadBytes uid n s) = files s" "ctxs (releaseUploadBytes uid n s) = ctxs s"
  "spoolDir (releaseUploadBytes uid n s) = spoolDir s" "next_ref (releaseUploadBytes uid n s) = next_ref s"
  "activeUploads (releaseUploadBytes uid n s) = adel uid (activeUploads s)"
  by (auto simp: releaseUploadBytes_def Let_def map_of_None_akeys adel_notin)

lemma limit_ops:
  "maxTotalSize (snd (StartUpload env parent user name target sz mx s)) = maxTotalSize s"
  "maxTotalSize (snd (WriteChunk env upload data s)) = maxTotalSize s"
  "maxTotalSize (snd (FinishUpload env upload s)) = maxTotalSize s"
  "maxTotalSize (snd (AbortUpload env upload s)) = maxTotalSize s"
  by (auto simp: StartUpload_def WriteChunk_def FinishUpload_def AbortUpload_def Let_def with_cancel_def
      split: option.split sum.split prod.split)

lemma spool_step_keeps: "spool_inv s \<Longrightarrow> spool_op_ok s op \<Longrightarrow> spool_inv (spool_step s op)"
proof (cases op)
  case (Chunk env upload data)
  then show "spool_inv s \<Longrightarrow> spool_op_ok s op \<Longrightarrow> ?thesis" by simp (metis WriteChunk_keeps prod.collapse)
qed (auto simp: spool_inv_cancel
      intro: StartUpload_keeps FinishUpload_keeps AbortUpload_keeps prod.collapse [symmetric])

lemma spool_inv_new: "spool_inv (new_spool dir mx fs cs)"
  by (simp add: spool_inv_def new_spool_def active_ok_def ids_unique_def)

interpretation spool: bounded_system spool_step spool_op_ok spool_inv "\<lambda>s. unat (currentUsage s)"
  "\<lambda>s. unat (maxTotalSize s)"
proof unfold_locales
  fix s op
  assume inv: "spool_inv s"
  then show "unat (currentUsage s) \<le> unat (maxTotalSize s)" by (simp add: spool_inv_def word_le_nat_alt)
  assume ok: "spool_op_ok s op"
  with inv show "spool_inv (spool_step s op)" by (rule spool_step_keeps)
  show "unat (maxTotalSize (spool_step s op)) = unat (maxTotalSize s)"
    by (cases op) (simp_all add: limit_ops)
qed

section \<open>Properties of the accounting\<close>

text \<open>C5. Whatever uploads are started, written, finished and aborted, in any interleaving and
  under any failures of the operating system, the usage counter is the sum of the bytes
  received by the active uploads and never exceeds the capacity of the spool. (This is between
  operations: while a chunk is written its bytes are counted before the upload has received them.)\<close>

theorem spool_usage_bounded:
  assumes "run_ok spool_step spool_op_ok (new_spool dir mx fs cs) ops"
    and "s = foldl spool_step (new_spool dir mx fs cs) ops"
  shows "unat (currentUsage s) = asum (received s) (activeUploads s) \<and> currentUsage s \<le> mx"
  using spool.inv_run [OF spool_inv_new assms(1)] spool.level_run [OF spool_inv_new assms(1)]
  by (auto simp: assms(2) spool_inv_def word_le_nat_alt new_spool_def)

text \<open>An environment for the examples: nothing fails, and the last byte of a text is its digest.\<close>

definition example_env :: "int \<Rightarrow> nat \<Rightarrow> os_env" where
  "example_env t n = \<lparr>now = t, cwd = ''/'', temp_names = [n], fault = (\<lambda>_ _. None), short = 0,
     digest = (\<lambda>s. if last s = CHR ''1'' then [1] else if last s = CHR ''2'' then [2] else [3])\<rparr>"

theorem spool_usage_bounded_witness:
  "let s = foldl spool_step (new_spool ''/s'' 10 [] ctx_init)
     [Start (example_env 1 7) [] ''a'' ''f'' ''/t/f'' (-1) 8, Chunk (example_env 2 7) (Some 0) ''abcdef'',
      Start (example_env 3 8) [] ''b'' ''g'' ''/t/g'' (-1) 8, Chunk (example_env 4 7) (Some 1) ''xyz'',
      Chunk (example_env 5 7) (Some 1) ''uv'', Finish (example_env 6 7) (Some 0)]
   in unat (currentUsage s) = asum (received s) (activeUploads s) \<and> currentUsage s \<le> 10"
  unfolding Let_def
  by (rule spool_usage_bounded [OF _ refl]) code_simp

end
