(* ===== verification/SpoolContent.thy ===== *)
theory SpoolContent
  imports Spool
begin

text \<open>
  What the files of the spool hold. The temporary files of the uploads are pairwise different
  and different from every finished file, so interleaved uploads do not mix their data: a
  finished file holds the chunks accepted for its upload, in their order.
\<close>

section \<open>Names of temporary and finished files\<close>

text \<open>The documented behaviour of the machine: \<open>Getwd\<close> returns a rooted path.\<close>

definition env_ok :: "os_env \<Rightarrow> bool" where
  "env_ok env \<longleftrightarrow> IsAbs (cwd env)"

lemma Abs_path_abs: "env_ok env \<Longrightarrow> Abs_path env p = Inr q \<Longrightarrow> IsAbs q"
  by (auto simp: Abs_path_def env_ok_def IsAbs_CleanI JoinPath_abs split: if_splits option.splits
      simp del: JoinPath.simps)

lemma itoa_no_slash: "CHR ''/'' \<notin> set (itoa n)"
  using itoa_digits [of n] by (auto simp: list_all_iff is_digit_def)

lemma Base_temp: "Base (temp_path d n) = temp_name n"
proof -
  have p: "proper (temp_name n)"
    using itoa_no_slash [of n] by (simp add: proper_def temp_name_def)
  show ?thesis
  proof (cases "HasSuffix d ''/''")
    case True
    then obtain d' where "d = d' @ ''/''" by (auto simp: suffix_def)
    then have "temp_path d n = d' @ CHR ''/'' # temp_name n"
      by (simp add: temp_path_def)
    then show ?thesis using Base_snoc [OF p] by metis
  next
    case False
    then have "temp_path d n = d @ CHR ''/'' # temp_name n"
      by (simp add: temp_path_def)
    then show ?thesis using Base_snoc [OF p] by metis
  qed
qed

lemma itoa_int_no_slash: "CHR ''/'' \<notin> set (itoa_int n)"
  by (simp add: itoa_int_def itoa_no_slash)

lemma proper_fileID: "proper (generateFileID env u)"
proof -
  have "CHR ''/'' \<notin> set (take 16 (hex_encode (digest env x)))" for x
    using hex_encode_no_slash by (meson in_set_takeD)
  then show ?thesis using itoa_int_no_slash by (simp add: proper_def generateFileID_def)
qed

lemma comps_file_path:
  assumes "IsAbs dir" and "proper c"
  shows "clean_comps (JoinPath [user_dir dir user, c]) = clean_comps (user_dir dir user) @ [c]"
proof -
  have a: "IsAbs (user_dir dir user)" unfolding user_dir_def using assms(1) by (rule JoinPath_abs)
  have "Split (CHR ''/'') c = [c]" using assms(2) by (simp add: proper_def Split_no_sep)
  then show ?thesis
    using clean_comps_JoinPath [OF a, of c] assms(2) by (auto simp: proper_def nonempty_comp_def)
qed

lemma Base_file_path:
  assumes "IsAbs dir" and "proper c"
  shows "Base (JoinPath [user_dir dir user, c]) = c"
proof -
  let ?p = "JoinPath [user_dir dir user, c]"
  have a: "IsAbs (user_dir dir user)" unfolding user_dir_def using assms(1) by (rule JoinPath_abs)
  have "?p = render True (clean_comps ?p)"
    using JoinPath_Clean [OF a, of c] Clean_abs [OF JoinPath_abs [OF a, of c]] by simp
  then have "?p = render True (clean_comps (user_dir dir user) @ [c])"
    using comps_file_path [OF assms, of user] by simp
  moreover have "\<And>d. d \<in> set (clean_comps (user_dir dir user) @ [c]) \<Longrightarrow> proper d"
    using clean_comps_proper [OF a] assms(2) by auto
  ultimately show ?thesis using Base_render by metis
qed

lemma file_path_not_temp:
  assumes "IsAbs dir"
  shows "JoinPath [user_dir dir user, generateFileID env u] \<noteq> temp_path d n"
proof
  assume "JoinPath [user_dir dir user, generateFileID env u] = temp_path d n"
  then have "generateFileID env u = temp_name n"
    using Base_file_path [OF assms proper_fileID, of user env u] Base_temp [of d n] by metis
  then show False by (simp add: generateFileID_def temp_name_def)
qed

section \<open>Which files an operation touches\<close>

lemma StartUpload_parts:
  assumes st: "StartUpload env parent user name target sz mx s = (x, s')"
  shows "files s' = files s \<or> (\<exists>dir tmp fs1 e fs2. Abs_path env (spoolDir s) = Inr dir
     \<and> \<not> rel_escapes dir (user_dir dir user)
     \<and> CreateTemp env (user_dir dir user) (files s) = (Inr tmp, fs1) \<and> Chmod env tmp 384 fs1 = (e, fs2)
     \<and> (files s' = fs2 \<or> files s' = snd (Remove env tmp fs2)))"
proof (cases x)
  case (Inr r)
  from st [unfolded Inr] show ?thesis by (rule StartUpload_Inr) auto
next
  case (Inl e)
  with st show ?thesis
    by (auto simp: StartUpload_def Let_def with_cancel_def dest: only_changes_ops(2)
        split: option.splits sum.splits prod.splits if_splits)
qed

lemma CreateTemp_name: "CreateTemp env d fs = (Inr t, fs') \<Longrightarrow> t \<in> temp_path d ` set (temp_names env)"
  by (auto simp: CreateTemp_def find_Some_iff split: option.splits)

lemma StartUpload_files:
  assumes st: "StartUpload env parent user name target sz mx s = (x, s')"
  shows "only_changes {p. \<exists>dir. Abs_path env (spoolDir s) = Inr dir \<and> \<not> rel_escapes dir (user_dir dir user)
      \<and> p \<in> temp_path (user_dir dir user) ` set (temp_names env)} (files s) (files s')"
    (is "only_changes ?P _ _")
  using StartUpload_parts [OF st]
proof (elim disjE exE conjE)
  fix dir tmp fs1 e fs2
  assume *: "Abs_path env (spoolDir s) = Inr dir" "\<not> rel_escapes dir (user_dir dir user)"
    and c: "CreateTemp env (user_dir dir user) (files s) = (Inr tmp, fs1)" and m: "Chmod env tmp 384 fs1 = (e, fs2)"
  have 1: "only_changes {tmp} (files s) fs2"
    using only_changes_trans [OF only_changes_ops(1) [OF c] only_changes_ops(4) [OF m]] .
  have 2: "only_changes {tmp} (files s) (snd (Remove env tmp fs2))"
    using only_changes_trans [OF 1 only_changes_ops(3) [OF prod.collapse [symmetric]]] .
  have in_P: "{tmp} \<subseteq> ?P" using * CreateTemp_name [OF c] by auto
  show ?thesis if "files s' = fs2" unfolding that using 1 in_P by (rule only_changes_mono)
  show ?thesis if "files s' = snd (Remove env tmp fs2)" unfolding that using 2 in_P by (rule only_changes_mono)
qed simp

lemma WriteChunk_files:
  assumes "WriteChunk env upload data s = (x, s')"
  shows "files s' = files s \<or>
    (\<exists>r u. upload = Some r \<and> map_of (uploads s) r = Some u \<and> only_changes {up_temp u} (files s) (files s'))"
  using assms only_changes_ops(6)
  by (auto simp: WriteChunk_def Let_def write_temp_def bind_eq_Some_conv
      split: option.splits prod.splits if_splits)

lemma copyFile_files: "copyFile env dst src fs = (x, fs') \<Longrightarrow> only_changes {dst} fs fs'"
  by (auto simp: copyFile_def Let_def only_changes_def map_of_append_file map_of_create_file
      split: option.splits if_splits)

lemma move_file_files: "move_file env tmp final fs = (x, fs') \<Longrightarrow> only_changes {tmp, final} fs fs'"
proof -
  assume m: "move_file env tmp final fs = (x, fs')"
  obtain e fs1 where r: "Rename env tmp final fs = (e, fs1)" by (cases "Rename env tmp final fs")
  obtain e2 fs2 where c: "copyFile env final tmp fs1 = (e2, fs2)" by (cases "copyFile env final tmp fs1")
  have 1: "only_changes {tmp, final} fs fs1" using only_changes_ops(5) [OF r] .
  have 2: "only_changes {tmp, final} fs1 fs2" using copyFile_files [OF c] by (rule only_changes_mono) simp
  have 3: "only_changes {tmp, final} fs2 (snd (Remove env tmp fs2))"
    using only_changes_ops(3) [OF prod.collapse [symmetric]] by (rule only_changes_mono) simp
  show ?thesis
    using m r c 1 only_changes_trans [OF 1 2] only_changes_trans [OF only_changes_trans [OF 1 2] 3]
    by (auto simp: move_file_def split: option.splits)
qed

lemma FinishUpload_files:
  assumes "FinishUpload env upload s = (x, s')"
  shows "files s' = files s \<or>
    (\<exists>r u dir. upload = Some r \<and> map_of (uploads s) r = Some u \<and> up_open u
      \<and> Abs_path env (spoolDir s) = Inr dir
      \<and> only_changes {up_temp u, JoinPath [user_dir dir (up_user u), generateFileID env u]} (files s) (files s'))"
proof -
  have ch: "only_changes {t, p} fs fs2"
    if "move_file env t p fs = (e, fs1)" "Chmod env p 384 fs1 = (e2, fs2)" for t p fs fs1 fs2 e e2
    using only_changes_trans [OF move_file_files [OF that(1)] only_changes_mono [OF only_changes_ops(4) [OF that(2)]]]
    by simp
  show ?thesis
    using assms
    by (auto simp: FinishUpload_def Let_def bind_eq_Some_conv intro: ch move_file_files
        split: option.splits prod.splits if_splits sum.splits)
qed

lemma AbortUpload_files:
  assumes "AbortUpload env upload s = (x, s')"
  shows "s' = s \<or> (\<exists>r u. upload = Some r \<and> map_of (uploads s) r = Some u \<and> only_changes {up_temp u} (files s) (files s'))"
  using assms only_changes_ops(3) [OF prod.collapse [symmetric]]
  by (auto simp: AbortUpload_def Let_def bind_eq_Some_conv split: option.splits)

section \<open>Temporary files are not shared\<close>

definition temps_ok :: "spool \<Rightarrow> bool" where
  "temps_ok s \<longleftrightarrow>
     (\<forall>r u. map_of (uploads s) r = Some u \<longrightarrow> (\<exists>d n. up_temp u = temp_path d n))
     \<and> (\<forall>r r' u u'. map_of (uploads s) r = Some u \<longrightarrow> map_of (uploads s) r' = Some u' \<longrightarrow>
          up_temp u = up_temp u' \<longrightarrow> r = r')"

text \<open>The random number of a temporary name has not been drawn before.\<close>

definition fresh_temps :: "os_env \<Rightarrow> spool \<Rightarrow> bool" where
  "fresh_temps env s \<longleftrightarrow> list_all (\<lambda>(r, u). list_all
     (\<lambda>n. Base (up_temp u) \<noteq> temp_name n) (temp_names env)) (uploads s)"

lemma fresh_tempsD:
  "fresh_temps env s \<Longrightarrow> map_of (uploads s) r = Some u \<Longrightarrow> n \<in> set (temp_names env) \<Longrightarrow> up_temp u \<noteq> temp_path d n"
  using Base_temp [of d n] by (fastforce simp: fresh_temps_def list_all_iff dest!: map_of_SomeD)

fun content_op_ok :: "spool \<Rightarrow> spool_op \<Rightarrow> bool" where
  "content_op_ok s (Start env parent user name target sz mx) \<longleftrightarrow>
     spool_op_ok s (Start env parent user name target sz mx) \<and> fresh_temps env s"
| "content_op_ok s (Finish env upload) \<longleftrightarrow> env_ok env"
| "content_op_ok s op \<longleftrightarrow> spool_op_ok s op"

lemma content_op_spool: "content_op_ok s op \<Longrightarrow> spool_op_ok s op"
  by (cases op) auto

definition content_inv :: "spool \<Rightarrow> bool" where
  "content_inv s \<longleftrightarrow> spool_inv s \<and> temps_ok s"

text \<open>An update of an upload that keeps its temporary path.\<close>

lemma temps_ok_same:
  "temps_ok s \<Longrightarrow> (\<And>r. map_option up_temp (map_of (uploads s') r) = map_option up_temp (map_of (uploads s) r)) \<Longrightarrow>
     temps_ok s'"
proof -
  assume t: "temps_ok s"
    and eq: "\<And>r. map_option up_temp (map_of (uploads s') r) = map_option up_temp (map_of (uploads s) r)"
  have old: "\<exists>v. map_of (uploads s) r = Some v \<and> up_temp v = up_temp u" if "map_of (uploads s') r = Some u" for r u
    using eq [of r] that by (cases "map_of (uploads s) r") auto
  show ?thesis unfolding temps_ok_def
  proof (intro conjI allI impI)
    fix r u assume "map_of (uploads s') r = Some u"
    from old [OF this] t show "\<exists>d n. up_temp u = temp_path d n" unfolding temps_ok_def by metis
  next
    fix r r' u u'
    assume "map_of (uploads s') r = Some u" "map_of (uploads s') r' = Some u'" "up_temp u = up_temp u'"
    with old [OF this(1)] old [OF this(2)] t show "r = r'" unfolding temps_ok_def by metis
  qed
qed

lemma uploads_WriteChunk:
  "map_option up_temp (map_of (uploads (snd (WriteChunk env upload data s))) r)
     = map_option up_temp (map_of (uploads s) r)"
  by (auto simp: WriteChunk_def Let_def bind_eq_Some_conv split: option.split prod.split)

lemma uploads_FinishUpload:
  "map_option up_temp (map_of (uploads (snd (FinishUpload env upload s))) r)
     = map_option up_temp (map_of (uploads s) r)"
  by (auto simp: FinishUpload_def Let_def bind_eq_Some_conv split: option.split prod.split sum.split)

lemma uploads_AbortUpload:
  "map_option up_temp (map_of (uploads (snd (AbortUpload env upload s))) r)
     = map_option up_temp (map_of (uploads s) r)"
  by (auto simp: AbortUpload_def Let_def bind_eq_Some_conv split: option.split)

lemma StartUpload_temps:
  assumes t: "temps_ok s" and inv: "spool_inv s" and fr: "fresh_temps env s"
    and st: "StartUpload env parent user name target sz mx s = (x, s')"
  shows "temps_ok s'"
proof (cases x)
  case (Inl e)
  have "uploads s' = uploads s" using StartUpload_Inl [OF st [unfolded Inl]] by (metis spool.select_convs(5) spool.surjective spool.update_convs(7))
  with t show ?thesis by (simp add: temps_ok_def)
next
  case (Inr r)
  from st [unfolded Inr] show ?thesis
  proof (rule StartUpload_Inr)
    fix dir tmp fs1 fs2 and u :: Upload
    assume c: "CreateTemp env (user_dir dir user) (files s) = (Inr tmp, fs1)"
      and u: "u = \<lparr>up_id = generateUploadID env user name target, up_user = user, up_filename = name,
              up_target = target, up_open = True, up_temp = tmp, up_size = if sz < 0 then 0 else sz,
              up_received = 0,
              up_started = now env, up_max = mx, up_ctx = next_token (ctxs s) # parent\<rparr>"
      and s': "s' = s\<lparr>files := fs2, ctxs := (ctxs s)\<lparr>next_token := Suc (next_token (ctxs s))\<rparr>,
            uploads := aput (next_ref s) u (uploads s), next_ref := Suc (next_ref s),
            activeUploads := aput (up_id u) (next_ref s) (activeUploads s)\<rparr>"
    obtain n where n: "n \<in> set (temp_names env)" "tmp = temp_path (user_dir dir user) n"
      using CreateTemp_name [OF c] by auto
    have "up_temp v \<noteq> tmp" if "map_of (uploads s) q = Some v" for q v
      using fresh_tempsD [OF fr that n(1)] n(2) by simp
    note new = this
    show ?thesis unfolding temps_ok_def
    proof (intro conjI allI impI)
      fix q v assume q: "map_of (uploads s') q = Some v"
      show "\<exists>d n. up_temp v = temp_path d n"
      proof (cases "q = next_ref s")
        case True
        then have "up_temp v = temp_path (user_dir dir user) n" using q n(2) by (auto simp: s' u)
        then show ?thesis by blast
      next
        case False
        then have "map_of (uploads s) q = Some v" using q by (simp add: s')
        with t show ?thesis unfolding temps_ok_def by blast
      qed
    next
      fix q q' v v'
      assume "map_of (uploads s') q = Some v" "map_of (uploads s') q' = Some v'" "up_temp v = up_temp v'"
      with new t show "q = q'"
        by (cases "q = next_ref s"; cases "q' = next_ref s") (force simp: s' u temps_ok_def)+
    qed
  qed
qed

lemma content_step_keeps: "content_inv s \<Longrightarrow> content_op_ok s op \<Longrightarrow> content_inv (spool_step s op)"
proof -
  assume c: "content_inv s" and ok: "content_op_ok s op"
  have "spool_inv (spool_step s op)"
    using c ok spool_step_keeps content_op_spool by (simp add: content_inv_def)
  moreover have t: "temps_ok s" using c by (simp add: content_inv_def)
  have "temps_ok (spool_step s op)"
  proof (cases op)
    case (Start env parent user name target sz mx)
    have "temps_ok (snd (StartUpload env parent user name target sz mx s))"
      using c ok Start by (intro StartUpload_temps [OF _ _ _ prod.collapse [symmetric]]) (auto simp: content_inv_def)
    with Start show ?thesis by simp
  next
    case (Chunk env upload data)
    then show ?thesis using temps_ok_same [OF t uploads_WriteChunk] by simp
  next
    case (Finish env upload)
    then show ?thesis using temps_ok_same [OF t uploads_FinishUpload] by simp
  next
    case (Abort env upload)
    then show ?thesis using temps_ok_same [OF t uploads_AbortUpload] by simp
  next
    case (CancelCtx c)
    then show ?thesis using t by (simp add: temps_ok_def)
  qed
  ultimately show ?thesis by (simp add: content_inv_def)
qed

interpretation content: step_system spool_step content_op_ok content_inv
  by unfold_locales (rule content_step_keeps)

section \<open>What a temporary file holds\<close>

text \<open>The data of the chunks that were accepted for upload \<open>r\<close> along a run.\<close>

definition accepted1 :: "nat \<Rightarrow> spool \<Rightarrow> spool_op \<Rightarrow> string" where
  "accepted1 r s op =
     (case op of
        Chunk env (Some r') data \<Rightarrow>
          if r' = r \<and> snd (fst (WriteChunk env (Some r') data s)) = None then data else ''''
      | _ \<Rightarrow> '''')"

fun accepted :: "nat \<Rightarrow> spool \<Rightarrow> spool_op list \<Rightarrow> string" where
  "accepted r s [] = ''''"
| "accepted r s (op # ops) = accepted1 r s op @ accepted r (spool_step s op) ops"

text \<open>No write to the temporary file of upload \<open>r\<close> failed half way: its chunks were accepted,
  or refused by a check, which is not an error wrapped by \<open>fmt.Errorf\<close>.\<close>

definition untorn1 :: "nat \<Rightarrow> spool \<Rightarrow> spool_op \<Rightarrow> bool" where
  "untorn1 r s op =
     (case op of
        Chunk env (Some r') data \<Rightarrow>
          r' = r \<longrightarrow> (case snd (fst (WriteChunk env (Some r') data s)) of Some (Wrapf _ _ _) \<Rightarrow> False | _ \<Rightarrow> True)
      | _ \<Rightarrow> True)"

fun untorn :: "nat \<Rightarrow> spool \<Rightarrow> spool_op list \<Rightarrow> bool" where
  "untorn r s [] \<longleftrightarrow> True"
| "untorn r s (op # ops) \<longleftrightarrow> untorn1 r s op \<and> untorn r (spool_step s op) ops"

text \<open>While the upload is open, its temporary file holds \<open>c\<close>, and \<open>BytesReceived\<close> is its length.\<close>

definition follows :: "nat \<Rightarrow> string \<Rightarrow> spool \<Rightarrow> bool" where
  "follows r c s \<longleftrightarrow>
     (case map_of (uploads s) r of
        None \<Rightarrow> c = ''''
      | Some u \<Rightarrow> up_open u \<longrightarrow> up_received u = int (length c) \<and> content_of (files s) (up_temp u) = Some c)"

text \<open>Another upload's operation: the record of upload \<open>r\<close> and its temporary file are untouched.\<close>

lemma follows_frame:
  assumes "follows r c s" and "map_of (uploads s') r = map_of (uploads s) r"
    and "only_changes P (files s) (files s')"
    and "\<And>u. map_of (uploads s) r = Some u \<Longrightarrow> up_open u \<Longrightarrow> up_temp u \<notin> P"
  shows "follows r c s'"
  using assms by (auto simp: follows_def content_of_def only_changes_def split: option.splits)

lemma follows_closed:
  "map_of (uploads s') r = Some u \<Longrightarrow> \<not> up_open u \<Longrightarrow> follows r c s'"
  by (simp add: follows_def)

lemma WriteChunk_other:
  "upload \<noteq> Some r \<Longrightarrow> map_of (uploads (snd (WriteChunk env upload data s))) r = map_of (uploads s) r"
  by (auto simp: WriteChunk_def Let_def bind_eq_Some_conv split: option.split prod.split)

lemma FinishUpload_other:
  "upload \<noteq> Some r \<Longrightarrow> map_of (uploads (snd (FinishUpload env upload s))) r = map_of (uploads s) r"
  by (auto simp: FinishUpload_def Let_def bind_eq_Some_conv split: option.split prod.split sum.split)

lemma AbortUpload_other:
  "upload \<noteq> Some r \<Longrightarrow> map_of (uploads (snd (AbortUpload env upload s))) r = map_of (uploads s) r"
  by (auto simp: AbortUpload_def Let_def bind_eq_Some_conv split: option.split)

lemma temp_distinct:
  "temps_ok s \<Longrightarrow> map_of (uploads s) r = Some u \<Longrightarrow> map_of (uploads s) r' = Some u' \<Longrightarrow> r' \<noteq> r \<Longrightarrow>
     up_temp u \<noteq> up_temp u'"
  unfolding temps_ok_def by metis

lemma follows_Chunk:
  assumes t: "temps_ok s" and inv: "spool_inv s" and f: "follows r c s"
    and fit: "write_fits upload data s" and u1: "untorn1 r s (Chunk env upload data)"
  shows "follows r (c @ accepted1 r s (Chunk env upload data)) (snd (WriteChunk env upload data s))"
proof (cases "upload = Some r")
  case False
  let ?s' = "snd (WriteChunk env upload data s)"
  have a: "accepted1 r s (Chunk env upload data) = ''''"
    using False by (simp add: accepted1_def split: option.split)
  have "follows r c ?s'"
    using WriteChunk_files [OF prod.collapse [symmetric], of env upload data s]
  proof (elim disjE exE conjE)
    assume "files ?s' = files s"
    then show ?thesis
      using follows_frame [OF f WriteChunk_other [OF False], of "{}"] by simp
  next
    fix r' and u' :: Upload
    assume r': "upload = Some r'" "map_of (uploads s) r' = Some u'" and oc: "only_changes {up_temp u'} (files s) (files ?s')"
    then have "r' \<noteq> r" using False by auto
    then show ?thesis
      using temp_distinct [OF t _ r'(2)] by (intro follows_frame [OF f WriteChunk_other [OF False] oc]) auto
  qed
  with a show ?thesis by simp
next
  case True
  obtain n e s' where w: "WriteChunk env (Some r) data s = ((n, e), s')"
    by (metis prod.collapse)
  show ?thesis
  proof (cases e)
    case None
    from w [unfolded None] show ?thesis
    proof (rule WriteChunk_ok)
      fix r0 and u :: Upload
      assume r0: "Some r = Some r0" and u: "map_of (uploads s) r0 = Some u" and op: "up_open u"
        and sz: "0 < up_size u \<longrightarrow> int (length data) \<le> s64 (up_size u - up_received u)"
        and mx: "s64 (up_received u + int (length data)) \<le> to_int64 (up_max u)"
        and cap: "currentUsage s + to_uint64 (int (length data)) \<le> maxTotalSize s"
        and s': "s' = set_upload r0 (u\<lparr>up_received := s64 (up_received u + int (length data))\<rparr>)
           (s\<lparr>currentUsage := currentUsage s + to_uint64 (int (length data)),
              files := append_file env (up_temp u) data (files s)\<rparr>)"
      have "s64 (up_received u + int (length data)) = up_received u + int (length data)"
        using WriteChunk_bounds(1) [OF inv _ u sz mx cap] fit True r0 by simp
      then show ?thesis
        using f u op r0 True w None
        by (auto simp: follows_def accepted1_def s' content_of_def map_of_append_file)
    qed
  next
    case (Some e')
    have na: "accepted1 r s (Chunk env upload data) = ''''" using True w Some by (simp add: accepted1_def)
    have "(case e' of Wrapf _ _ _ \<Rightarrow> False | _ \<Rightarrow> True)" using u1 True w Some by (simp add: untorn1_def)
    then have "s' = s" using w Some
      by (auto simp: WriteChunk_def Let_def Errorf_def split: option.splits prod.splits if_splits)
    then show ?thesis using na True w f by simp
  qed
qed

lemma follows_Start:
  assumes t: "temps_ok s" and inv: "spool_inv s" and f: "follows r c s" and fr: "fresh_temps env s"
    and st: "StartUpload env parent user name target sz mx s = (x, s')"
  shows "follows r c s'"
proof (cases "map_of (uploads s) r")
  case (Some u)
  have "r < next_ref s" using spool_invD(5) [OF inv Some] .
  then have same: "map_of (uploads s') r = map_of (uploads s) r"
  proof (cases x)
    case (Inl e)
    then show ?thesis using StartUpload_Inl [OF st [unfolded Inl]]
      by (metis spool.select_convs(5) spool.surjective spool.update_convs(7))
  next
    case (Inr q)
    from st [unfolded Inr] \<open>r < next_ref s\<close> show ?thesis by (elim StartUpload_Inr) simp
  qed
  show ?thesis
    by (rule follows_frame [OF f same StartUpload_files [OF st]])
      (use fresh_tempsD [OF fr] in auto)
next
  case None
  with f have c: "c = ''''" by (simp add: follows_def)
  show ?thesis
  proof (cases x)
    case (Inl e)
    then have "map_of (uploads s') r = map_of (uploads s) r" using StartUpload_Inl [OF st [unfolded Inl]]
      by (metis spool.select_convs(5) spool.surjective spool.update_convs(7))
    with None c show ?thesis by (simp add: follows_def)
  next
    case (Inr q)
    from st [unfolded Inr] show ?thesis
    proof (rule StartUpload_Inr)
      fix dir tmp fs1 fs2 and u :: Upload
      assume ct: "CreateTemp env (user_dir dir user) (files s) = (Inr tmp, fs1)"
        and m: "Chmod env tmp 384 fs1 = (None, fs2)"
        and u: "u = \<lparr>up_id = generateUploadID env user name target, up_user = user, up_filename = name,
              up_target = target, up_open = True, up_temp = tmp, up_size = if sz < 0 then 0 else sz,
              up_received = 0,
              up_started = now env, up_max = mx, up_ctx = next_token (ctxs s) # parent\<rparr>"
        and s': "s' = s\<lparr>files := fs2, ctxs := (ctxs s)\<lparr>next_token := Suc (next_token (ctxs s))\<rparr>,
            uploads := aput (next_ref s) u (uploads s), next_ref := Suc (next_ref s),
            activeUploads := aput (up_id u) (next_ref s) (activeUploads s)\<rparr>"
      have "content_of fs2 tmp = Some ''''"
        using CreateTemp_new(2) [OF ct] m by (auto simp: Chmod_def content_of_def split: option.splits)
      then show ?thesis using None c by (simp add: follows_def s' u)
    qed
  qed
qed

lemma FinishUpload_own:
  assumes "FinishUpload env (Some r) s = (x, s')"
  shows "s' = s \<or> (\<exists>u. map_of (uploads s') r = Some u \<and> \<not> up_open u)"
  using assms
  by (auto simp: FinishUpload_def Let_def bind_eq_Some_conv split: option.splits prod.splits sum.splits if_splits)

lemma AbortUpload_own:
  assumes "AbortUpload env (Some r) s = (x, s')"
  shows "s' = s \<or> (\<exists>u. map_of (uploads s') r = Some u \<and> \<not> up_open u)"
  using assms by (auto simp: AbortUpload_def Let_def bind_eq_Some_conv split: option.splits)

lemma follows_Finish:
  assumes t: "temps_ok s" and f: "follows r c s" and e: "env_ok env"
    and fin: "FinishUpload env upload s = (x, s')"
  shows "follows r c s'"
proof (cases "upload = Some r")
  case True
  with FinishUpload_own [of env r s x s'] fin f follows_closed show ?thesis by metis
next
  case False
  have same: "map_of (uploads s') r = map_of (uploads s) r"
    using FinishUpload_other [OF False, of env s] fin by simp
  show ?thesis using FinishUpload_files [OF fin]
  proof (elim disjE exE conjE)
    assume "files s' = files s"
    then show ?thesis using follows_frame [OF f same, of "{}"] by simp
  next
    fix r' dir and u' :: Upload
    assume r': "upload = Some r'" "map_of (uploads s) r' = Some u'" and dir: "Abs_path env (spoolDir s) = Inr dir"
      and oc: "only_changes {up_temp u', JoinPath [user_dir dir (up_user u'), generateFileID env u']} (files s) (files s')"
    have "r' \<noteq> r" using False r'(1) by auto
    show ?thesis
    proof (rule follows_frame [OF f same oc])
      fix u assume u: "map_of (uploads s) r = Some u"
      obtain d n where "up_temp u = temp_path d n" using t u unfolding temps_ok_def by metis
      then have "up_temp u \<noteq> JoinPath [user_dir dir (up_user u'), generateFileID env u']"
        using file_path_not_temp [OF Abs_path_abs [OF e dir]] by metis
      with temp_distinct [OF t u r'(2) \<open>r' \<noteq> r\<close>]
      show "up_temp u \<notin> {up_temp u', JoinPath [user_dir dir (up_user u'), generateFileID env u']}" by simp
    qed
  qed
qed

lemma follows_Abort:
  assumes t: "temps_ok s" and f: "follows r c s" and ab: "AbortUpload env upload s = (x, s')"
  shows "follows r c s'"
proof (cases "upload = Some r")
  case True
  with AbortUpload_own [of env r s x s'] ab f follows_closed show ?thesis by metis
next
  case False
  have same: "map_of (uploads s') r = map_of (uploads s) r"
    using AbortUpload_other [OF False, of env s] ab by simp
  show ?thesis using AbortUpload_files [OF ab]
  proof (elim disjE exE conjE)
    fix r' and u' :: Upload
    assume r': "upload = Some r'" "map_of (uploads s) r' = Some u'"
      and oc: "only_changes {up_temp u'} (files s) (files s')"
    have "r' \<noteq> r" using False r'(1) by auto
    then show ?thesis using temp_distinct [OF t _ r'(2)] by (intro follows_frame [OF f same oc]) auto
  qed (use f in simp)
qed

lemma follows_step:
  assumes c: "content_inv s" and ok: "content_op_ok s op" and u1: "untorn1 r s op" and f: "follows r c s"
  shows "follows r (c @ accepted1 r s op) (spool_step s op)"
proof -
  have t: "temps_ok s" and inv: "spool_inv s" using c by (simp_all add: content_inv_def)
  show ?thesis
  proof (cases op)
    case (Start env parent user name target sz mx)
    then show ?thesis
      using follows_Start [OF t inv f _ prod.collapse [symmetric]] ok by (simp add: accepted1_def)
  next
    case (Chunk env upload data)
    then show ?thesis using follows_Chunk [OF t inv f] ok u1 by simp
  next
    case (Finish env upload)
    then show ?thesis using follows_Finish [OF t f _ prod.collapse [symmetric]] ok by (simp add: accepted1_def)
  next
    case (Abort env upload)
    then show ?thesis using follows_Abort [OF t f prod.collapse [symmetric]] by (simp add: accepted1_def)
  next
    case (CancelCtx cx)
    then show ?thesis using f by (simp add: accepted1_def follows_def split: option.splits)
  qed
qed

lemma follows_run:
  "content_inv s \<Longrightarrow> run_ok spool_step content_op_ok s ops \<Longrightarrow> untorn r s ops \<Longrightarrow> follows r c s \<Longrightarrow>
     follows r (c @ accepted r s ops) (foldl spool_step s ops)"
proof (induction ops arbitrary: s c)
  case (Cons op ops)
  then have "follows r (c @ accepted1 r s op) (spool_step s op)" by (intro follows_step) auto
  with Cons.IH [of "spool_step s op" "c @ accepted1 r s op"] Cons.prems content_step_keeps show ?case by simp
qed simp

text \<open>Moving a file to another name moves its content.\<close>

lemma move_file_content:
  assumes m: "move_file env tmp final fs = (None, fs')" and "tmp \<noteq> final" and c: "content_of fs tmp = Some c"
  shows "content_of fs' final = Some c"
proof (cases "Rename env tmp final fs")
  case (Pair e fs1)
  show ?thesis
  proof (cases e)
    case None
    with m Pair c show ?thesis by (auto simp: move_file_def Rename_def content_of_def split: option.splits)
  next
    case (Some e')
    then have fs1: "fs1 = fs" using Pair by (auto simp: Rename_def split: option.splits)
    obtain fs2 where cp: "copyFile env final tmp fs = (None, fs2)" and fs': "fs' = snd (Remove env tmp fs2)"
      using m Pair Some fs1 by (auto simp: move_file_def split: prod.splits option.splits)
    have "content_of fs2 final = Some c"
      using cp c \<open>tmp \<noteq> final\<close>
      by (auto simp: copyFile_def Let_def content_of_def map_of_append_file map_of_create_file split: option.splits if_splits)
    then show ?thesis
      using \<open>tmp \<noteq> final\<close> by (auto simp: fs' Remove_def content_of_def split: option.splits)
  qed
qed

lemma Chmod_content: "Chmod env p m fs = (None, fs') \<Longrightarrow> content_of fs' q = content_of fs q"
  by (auto simp: Chmod_def content_of_def split: option.splits)

lemma Chmod_mode: "Chmod env p m fs = (None, fs') \<Longrightarrow> map_option f_mode (map_of fs' p) = Some m"
  by (auto simp: Chmod_def split: option.splits)

lemma FinishUpload_content:
  assumes t: "temps_ok s" and e: "env_ok env" and f: "follows r c s"
    and fin: "FinishUpload env (Some r) s = (Inr ref, s')"
  shows "content_of (files s') (fr_path ref) = Some c" and "fr_size ref = int (length c)"
    and "map_option f_mode (map_of (files s') (fr_path ref)) = Some 384"
proof -
  have "content_of (files s') (fr_path ref) = Some c \<and> fr_size ref = int (length c)
    \<and> map_option f_mode (map_of (files s') (fr_path ref)) = Some 384"
    using fin
  proof (rule FinishUpload_Inr)
    fix r0 dir fs1 fs2 and u :: Upload
    assume r0: "Some r = Some r0" and u: "map_of (uploads s) r0 = Some u" and op: "up_open u"
      and dir: "Abs_path env (spoolDir s) = Inr dir"
      and ref: "ref = \<lparr>fr_userID = up_user u, fr_fileID = generateFileID env u, fr_filename = up_filename u,
                fr_size = up_received u, fr_path = JoinPath [user_dir dir (up_user u), generateFileID env u],
                fr_createdAt = format_stamp (up_started u), fr_targetPath = up_target u,
                fr_status = FileStatusCommitted\<rparr>"
      and mv: "move_file env (up_temp u) (fr_path ref) (files s) = (None, fs1)"
      and cm: "Chmod env (fr_path ref) 384 fs1 = (None, fs2)"
      and s': "s' = releaseUploadBytes (up_id u) (up_received u)
                ((set_upload r0 (u\<lparr>up_open := False\<rparr>) s)\<lparr>files := fs2\<rparr>)"
    obtain d n where tp: "up_temp u = temp_path d n" using t u unfolding temps_ok_def by metis
    have ne: "up_temp u \<noteq> fr_path ref"
      using file_path_not_temp [OF Abs_path_abs [OF e dir], of "up_user u" env u d n] by (simp add: ref tp)
    have c: "content_of (files s) (up_temp u) = Some c" and n: "up_received u = int (length c)"
      using f u r0 op by (auto simp: follows_def)
    have "content_of fs2 (fr_path ref) = Some c"
      using Chmod_content [OF cm] move_file_content [OF mv ne c] by simp
    then show ?thesis using n Chmod_mode [OF cm] by (simp add: s' ref)
  qed
  then show "content_of (files s') (fr_path ref) = Some c" and "fr_size ref = int (length c)"
    and "map_option f_mode (map_of (files s') (fr_path ref)) = Some 384" by blast+
qed

section \<open>Properties of the content\<close>

lemma content_inv_new: "content_inv (new_spool dir mx fs cs)"
  by (simp add: content_inv_def spool_inv_new temps_ok_def) (simp add: new_spool_def)

text \<open>C4. After any interleaving of uploads, a finished upload's file holds exactly the chunks
  accepted for it, in their order, and \<open>FileRef.Size\<close> is their length; the file is readable by
  its owner only. The operating system may fail anywhere except half way through a write of
  this upload, which the driver answers by aborting it.\<close>

theorem finished_file_is_what_was_accepted:
  assumes "run_ok spool_step content_op_ok (new_spool dir mx fs cs) ops"
    and "untorn r (new_spool dir mx fs cs) ops" and "env_ok env"
    and "FinishUpload env (Some r) (foldl spool_step (new_spool dir mx fs cs) ops) = (Inr ref, s')"
  shows "content_of (files s') (fr_path ref) = Some (accepted r (new_spool dir mx fs cs) ops)
     \<and> fr_size ref = int (length (accepted r (new_spool dir mx fs cs) ops))
     \<and> map_option f_mode (map_of (files s') (fr_path ref)) = Some 384"
proof -
  let ?s0 = "new_spool dir mx fs cs"
  have "follows r ('''' @ accepted r ?s0 ops) (foldl spool_step ?s0 ops)"
    by (rule follows_run [OF content_inv_new assms(1,2)]) (simp add: follows_def new_spool_def)
  moreover have "temps_ok (foldl spool_step ?s0 ops)"
    using content.inv_run [OF content_inv_new assms(1)] by (simp add: content_inv_def)
  ultimately show ?thesis using FinishUpload_content [OF _ assms(3) _ assms(4)] by simp
qed

lemma example_env_ok: "env_ok (example_env t n)"
  by (simp add: env_ok_def example_env_def)

theorem finished_file_is_what_was_accepted_witness:
  "let ops = [Start (example_env 1 7) [] ''a'' ''f'' ''/t/f'' (-1) 8, Chunk (example_env 2 7) (Some 0) ''abc'',
      Start (example_env 3 8) [] ''b'' ''g'' ''/t/g'' (-1) 8, Chunk (example_env 4 7) (Some 1) ''xyz'',
      Chunk (example_env 5 7) (Some 0) ''def'']
   in \<exists>ref s'. FinishUpload (example_env 6 7) (Some 0) (foldl spool_step (new_spool ''/s'' 10 [] ctx_init) ops) = (Inr ref, s')
     \<and> content_of (files s') (fr_path ref) = Some ''abcdef''"
proof -
  let ?s0 = "new_spool ''/s'' 10 [] ctx_init"
  let ?ops = "[Start (example_env 1 7) [] ''a'' ''f'' ''/t/f'' (-1) 8, Chunk (example_env 2 7) (Some 0) ''abc'',
      Start (example_env 3 8) [] ''b'' ''g'' ''/t/g'' (-1) 8, Chunk (example_env 4 7) (Some 1) ''xyz'',
      Chunk (example_env 5 7) (Some 0) ''def'']"
  have ok: "run_ok spool_step content_op_ok ?s0 ?ops" by code_simp
  have un: "untorn 0 ?s0 ?ops" by code_simp
  have ac: "accepted 0 ?s0 ?ops = ''abcdef''" by code_simp
  have fin: "is_ok (fst (FinishUpload (example_env 6 7) (Some 0) (foldl spool_step ?s0 ?ops)))" by code_simp
  obtain ref s' where f: "FinishUpload (example_env 6 7) (Some 0) (foldl spool_step ?s0 ?ops) = (Inr ref, s')"
    using fin by (cases "FinishUpload (example_env 6 7) (Some 0) (foldl spool_step ?s0 ?ops)"; cases "fst (FinishUpload (example_env 6 7) (Some 0) (foldl spool_step ?s0 ?ops))") auto
  show ?thesis
    using finished_file_is_what_was_accepted [OF ok un example_env_ok f] f unfolding Let_def ac by blast
qed

end
