(* ===== verification/SpoolConfined.thy ===== *)
theory SpoolConfined
  imports SpoolContent
begin

text \<open>
  Where the spool writes. Whatever user names and target paths reach it, it changes no file
  outside its directory; its checks by \<open>filepath.Rel\<close> imply lexical containment.
\<close>

section \<open>The check by Rel\<close>

lemma strip_common_spec: "strip_common as bs = (as', bs') \<Longrightarrow> \<exists>cs. as = cs @ as' \<and> bs = cs @ bs'"
proof (induction as bs rule: strip_common.induct)
  case (1 a as b bs)
  show ?case
  proof (cases "a = b")
    case True
    then obtain cs where "as = cs @ as'" "bs = cs @ bs'" using 1 by auto
    with True show ?thesis by (intro exI [of _ "a # cs"]) simp
  next
    case False
    with 1 show ?thesis by simp
  qed
qed auto

lemma Rel_below:
  assumes "IsAbs a" and "IsAbs b" and r: "Rel a b = Some r" and n: "\<not> HasPrefix r ''..''"
  shows "below a b"
proof (cases "Clean a = Clean b")
  case True
  then have "clean_comps a = clean_comps b" using clean_comps_Clean assms(1,2) by metis
  then show ?thesis using assms(2) by (simp add: below_def)
next
  case False
  obtain as bs where s: "strip_common (clean_comps a) (clean_comps b) = (as, bs)"
    by (cases "strip_common (clean_comps a) (clean_comps b)")
  have r': "r = Join ''/'' (replicate (length as) ''..'' @ bs)"
    using r False s assms(1,2) by (auto simp: Rel_def IsAbs_CleanI split: if_splits)
  have "as = []"
  proof (rule ccontr)
    assume "as \<noteq> []"
    then obtain x as0 where as: "as = x # as0" by (cases as) auto
    have "r = Join ''/'' (''..'' # (replicate (length as0) ''..'' @ bs))" using r' as by simp
    then have "HasPrefix r ''..''" by (cases "replicate (length as0) ''..'' @ bs") auto
    with n show False by contradiction
  qed
  with strip_common_spec [OF s] assms(2) show ?thesis by (auto simp: below_def)
qed

lemma not_escapes_below: "IsAbs a \<Longrightarrow> IsAbs b \<Longrightarrow> \<not> rel_escapes a b \<Longrightarrow> below a b"
  by (auto simp: rel_escapes_def intro: Rel_below split: option.splits)

section \<open>The user's directory\<close>

lemma IsAbs_user_dir: "IsAbs dir \<Longrightarrow> IsAbs (user_dir dir user)"
  unfolding user_dir_def by (rule JoinPath_abs)

lemma temp_path_comps: "IsAbs d \<Longrightarrow> clean_comps (temp_path d n) = clean_comps d @ [temp_name n]"
proof -
  assume a: "IsAbs d"
  have sp: "Split (CHR ''/'') (temp_name n) = [temp_name n]" and p: "nonempty_comp (temp_name n)" "temp_name n \<noteq> ''..''"
    using itoa_no_slash [of n] by (simp_all add: temp_name_def Split_no_sep nonempty_comp_def)
  show ?thesis
  proof (cases "HasSuffix d ''/''")
    case False
    then have "temp_path d n = d @ CHR ''/'' # temp_name n" by (simp add: temp_path_def)
    then show ?thesis using clean_comps_below [of d "temp_name n"] a sp p by (auto simp: IsAbs_iff)
  next
    case True
    then obtain d' where d: "d = d' @ ''/''" by (auto simp: suffix_def)
    then have t: "temp_path d n = d' @ CHR ''/'' # temp_name n" by (simp add: temp_path_def)
    show ?thesis
    proof (cases "d' = ''''")
      case True
      then have "clean_comps (temp_path d n) = [temp_name n]"
        using sp p by (simp add: t clean_comps_def clean_list_no_dotdot nonempty_comp_def)
      moreover have "clean_comps d = []"
        using True d clean_comps_render [of "[]"] by (simp add: render_def)
      ultimately show ?thesis by simp
    next
      case False
      then show ?thesis using clean_comps_below [of d' "temp_name n"] clean_comps_snoc_slash [OF False] sp p t d by auto
    qed
  qed
qed

lemma temp_path_below: "IsAbs d \<Longrightarrow> below dir d \<Longrightarrow> below dir (temp_path d n)"
  by (auto simp: below_def temp_path_comps) (auto simp: temp_path_def IsAbs_append)

lemma file_path_below:
  "IsAbs dir \<Longrightarrow> below dir (user_dir dir user) \<Longrightarrow> proper c \<Longrightarrow> below dir (JoinPath [user_dir dir user, c])"
  by (auto simp: below_def comps_file_path JoinPath_abs IsAbs_user_dir)

section \<open>The invariant\<close>

text \<open>The account of an upload has a directory inside the spool, and its temporary file is there.\<close>

definition confined :: "spool \<Rightarrow> bool" where
  "confined s \<longleftrightarrow> IsAbs (spoolDir s)
     \<and> (\<forall>r u. map_of (uploads s) r = Some u \<longrightarrow> below (spoolDir s) (up_temp u)
          \<and> below (Clean (spoolDir s)) (user_dir (Clean (spoolDir s)) (up_user u)))"

lemma Abs_path_rooted: "IsAbs d \<Longrightarrow> Abs_path env d = Inr (Clean d)"
  by (simp add: Abs_path_def)

lemma below_Clean_root: "IsAbs d \<Longrightarrow> below (Clean d) p = below d p"
  by (simp add: below_def clean_comps_Clean)

abbreviation owner :: "spool \<Rightarrow> nat \<Rightarrow> (string \<times> string) option" where
  "owner s r \<equiv> map_option (\<lambda>u. (up_temp u, up_user u)) (map_of (uploads s) r)"

lemma owner_ops:
  "owner (snd (WriteChunk env upload data s)) r = owner s r"
  "owner (snd (FinishUpload env upload s)) r = owner s r"
  "owner (snd (AbortUpload env upload s)) r = owner s r"
  by (auto simp: WriteChunk_def FinishUpload_def AbortUpload_def Let_def bind_eq_Some_conv
      split: option.split prod.split sum.split)

lemma spoolDir_ops:
  "spoolDir (snd (StartUpload env parent user name target sz mx s)) = spoolDir s"
  "spoolDir (snd (WriteChunk env upload data s)) = spoolDir s"
  "spoolDir (snd (FinishUpload env upload s)) = spoolDir s"
  "spoolDir (snd (AbortUpload env upload s)) = spoolDir s"
  by (auto simp: StartUpload_def WriteChunk_def FinishUpload_def AbortUpload_def Let_def with_cancel_def
      split: option.split sum.split prod.split)

lemma spoolDir_step: "spoolDir (spool_step s op) = spoolDir s"
  by (cases op) (simp_all add: spoolDir_ops)

lemma confined_same:
  assumes c: "confined s" and d: "spoolDir s' = spoolDir s" and o: "\<And>r. owner s' r = owner s r"
  shows "confined s'"
proof -
  have "\<exists>v. map_of (uploads s) r = Some v \<and> up_temp v = up_temp u \<and> up_user v = up_user u"
    if "map_of (uploads s') r = Some u" for r u
    using o [of r] that by (cases "map_of (uploads s) r") auto
  then show ?thesis using c unfolding confined_def d by metis
qed

lemma confined_Start:
  assumes c: "confined s" and st: "StartUpload env parent user name target sz mx s = (x, s')"
  shows "confined s' \<and> only_changes {p. below (spoolDir s) p} (files s) (files s')"
proof
  have a: "IsAbs (spoolDir s)" using c by (simp add: confined_def)
  let ?dir = "Clean (spoolDir s)"
  have aD: "IsAbs ?dir" using a by (rule IsAbs_CleanI)
  have in_dir: "below (spoolDir s) (temp_path (user_dir ?dir user) n)" if "\<not> rel_escapes ?dir (user_dir ?dir user)" for n
    using temp_path_below [OF IsAbs_user_dir [OF aD] not_escapes_below [OF aD IsAbs_user_dir [OF aD] that]]
    by (simp add: below_Clean_root [OF a])
  show "only_changes {p. below (spoolDir s) p} (files s) (files s')"
    using StartUpload_files [OF st] by (rule only_changes_mono) (auto simp: Abs_path_rooted [OF a] in_dir)
  show "confined s'"
  proof (cases x)
    case (Inl e)
    have "uploads s' = uploads s" using StartUpload_Inl [OF st [unfolded Inl]]
      by (metis spool.select_convs(5) spool.surjective spool.update_convs(7))
    then show ?thesis using c spoolDir_ops(1) [of env parent user name target sz mx s] st by (intro confined_same [OF c]) auto
  next
    case (Inr r)
    from st [unfolded Inr] show ?thesis
    proof (rule StartUpload_Inr)
      fix dir tmp fs1 fs2 and u :: Upload
      assume d: "Abs_path env (spoolDir s) = Inr dir" and ne: "\<not> rel_escapes dir (user_dir dir user)"
        and ct: "CreateTemp env (user_dir dir user) (files s) = (Inr tmp, fs1)"
        and u: "u = \<lparr>up_id = generateUploadID env user name target, up_user = user, up_filename = name,
              up_target = target, up_open = True, up_temp = tmp, up_size = if sz < 0 then 0 else sz,
              up_received = 0,
              up_started = now env, up_max = mx, up_ctx = next_token (ctxs s) # parent\<rparr>"
        and s': "s' = s\<lparr>files := fs2, ctxs := (ctxs s)\<lparr>next_token := Suc (next_token (ctxs s))\<rparr>,
            uploads := aput (next_ref s) u (uploads s), next_ref := Suc (next_ref s),
            activeUploads := aput (up_id u) (next_ref s) (activeUploads s)\<rparr>"
      have dir: "dir = ?dir" using d Abs_path_rooted [OF a] by simp
      have t: "below (spoolDir s) tmp" using CreateTemp_name [OF ct] in_dir ne dir by auto
      have us: "below ?dir (user_dir ?dir user)"
        using not_escapes_below [OF aD IsAbs_user_dir [OF aD]] ne dir by simp
      show ?thesis
        using c t us unfolding confined_def by (simp add: s' u)
    qed
  qed
qed

lemma confined_step:
  assumes c: "confined s"
  shows "confined (spool_step s op) \<and> only_changes {p. below (spoolDir s) p} (files s) (files (spool_step s op))"
proof (cases op)
  case (Start env parent user name target sz mx)
  then show ?thesis using confined_Start [OF c prod.collapse [symmetric]] by simp
next
  case (Chunk env upload data)
  have "only_changes {p. below (spoolDir s) p} (files s) (files (snd (WriteChunk env upload data s)))"
    using WriteChunk_files [OF prod.collapse [symmetric], of env upload data s]
  proof (elim disjE exE conjE)
    fix r and u :: Upload assume "map_of (uploads s) r = Some u" "only_changes {up_temp u} (files s) (files (snd (WriteChunk env upload data s)))"
    then show ?thesis using c by (auto simp: confined_def intro: only_changes_mono)
  qed simp
  then show ?thesis using Chunk confined_same [OF c spoolDir_ops(2) owner_ops(1)] by simp
next
  case (Finish env upload)
  have a: "IsAbs (spoolDir s)" using c by (simp add: confined_def)
  have "only_changes {p. below (spoolDir s) p} (files s) (files (snd (FinishUpload env upload s)))"
    using FinishUpload_files [OF prod.collapse [symmetric], of env upload s]
  proof (elim disjE exE conjE)
    fix r dir and u :: Upload
    assume u: "map_of (uploads s) r = Some u" and d: "Abs_path env (spoolDir s) = Inr dir"
      and oc: "only_changes {up_temp u, JoinPath [user_dir dir (up_user u), generateFileID env u]} (files s)
                 (files (snd (FinishUpload env upload s)))"
    have dir: "dir = Clean (spoolDir s)" using d Abs_path_rooted [OF a] by simp
    have "below dir (JoinPath [user_dir dir (up_user u), generateFileID env u])"
      using c u dir IsAbs_CleanI [OF a] by (intro file_path_below proper_fileID) (auto simp: confined_def)
    then have "below (spoolDir s) (JoinPath [user_dir dir (up_user u), generateFileID env u])"
      by (simp add: dir below_Clean_root [OF a])
    with oc show ?thesis using c u by (auto simp: confined_def intro: only_changes_mono)
  qed simp
  then show ?thesis using Finish confined_same [OF c spoolDir_ops(3) owner_ops(2)] by simp
next
  case (Abort env upload)
  have "only_changes {p. below (spoolDir s) p} (files s) (files (snd (AbortUpload env upload s)))"
    using AbortUpload_files [OF prod.collapse [symmetric], of env upload s]
  proof (elim disjE exE conjE)
    fix r and u :: Upload assume "map_of (uploads s) r = Some u" "only_changes {up_temp u} (files s) (files (snd (AbortUpload env upload s)))"
    then show ?thesis using c by (auto simp: confined_def intro: only_changes_mono)
  qed simp
  then show ?thesis using Abort confined_same [OF c spoolDir_ops(4) owner_ops(3)] by simp
next
  case (CancelCtx cx)
  then show ?thesis using c by (simp add: confined_def)
qed

text \<open>The state and its files together, as a system whose invariant fixes the files outside.\<close>

definition outside_same :: "string \<Rightarrow> files \<Rightarrow> spool \<Rightarrow> bool" where
  "outside_same dir fs s \<longleftrightarrow> confined s \<and> spoolDir s = dir \<and> only_changes {p. below dir p} fs (files s)"

interpretation outside: step_system spool_step "\<lambda>_ _. True" "outside_same dir fs" for dir :: string and fs :: files
proof unfold_locales
  fix s op
  assume o: "outside_same dir fs s"
  then have c: "confined s" and d: "spoolDir s = dir" by (simp_all add: outside_same_def)
  have "confined (spool_step s op)" and oc: "only_changes {p. below dir p} (files s) (files (spool_step s op))"
    using confined_step [OF c, of op] d by simp_all
  then show "outside_same dir fs (spool_step s op)"
    using o d only_changes_trans [OF _ oc, of fs] by (simp add: outside_same_def spoolDir_step)
qed

lemma run_ok_True [simp]: "run_ok step (\<lambda>_ _. True) s ops"
  by (induction ops arbitrary: s) auto

section \<open>Property\<close>

text \<open>C6. No operation of the upload manager, with any user name, file name and target path and
  under any failures, creates, changes or deletes a file outside the spool directory.\<close>

theorem spool_writes_inside_only:
  assumes "IsAbs dir" and "\<not> below dir p"
  shows "map_of (files (foldl spool_step (new_spool dir mx fs cs) ops)) p = map_of fs p"
proof -
  have "outside_same dir fs (new_spool dir mx fs cs)"
    using assms(1) by (simp add: outside_same_def confined_def new_spool_def)
  then have "outside_same dir fs (foldl spool_step (new_spool dir mx fs cs) ops)"
    by (rule outside.inv_run) simp
  with assms(2) show ?thesis by (simp add: outside_same_def only_changes_def)
qed

theorem spool_writes_inside_only_witness:
  "map_of (files (foldl spool_step (new_spool ''/spool'' 100 [(''/etc/passwd'', \<lparr>f_content = ''x'', f_mode = 420, f_mtime = 0\<rparr>)] ctx_init)
     [Start (example_env 1 7) [] ''/../etc'' ''passwd'' ''t'' 0 9, Start (example_env 1 7) [] ''a/b'' ''passwd'' ''t'' 0 9])) ''/etc/passwd''
   = Some \<lparr>f_content = ''x'', f_mode = 420, f_mtime = 0\<rparr>"
proof -
  have "\<not> below ''/spool'' ''/etc/passwd''" by code_simp
  then show ?thesis by (subst spool_writes_inside_only) simp_all
qed

end
