(* ===== verification/SpoolManager.thy ===== *)
theory SpoolManager
  imports SpoolConfined "HOL-Library.List_Lexorder" "HOL-Library.Char_ord"
begin

text \<open>
  The file manager of the spool (\<open>pkg/spool/spool.go\<close>): storing a whole file or a stream,
  retrieving, listing and deleting, and the cleanup of old files.
\<close>

section \<open>Storing\<close>

text \<open>The variant of the \<open>Rel\<close> check that \<open>Store\<close> uses.\<close>

definition store_escapes :: "string \<Rightarrow> string \<Rightarrow> bool" where
  "store_escapes base targ \<longleftrightarrow>
     (case Rel base targ of None \<Rightarrow> True
      | Some rel \<Rightarrow> rel = ''..'' \<or> HasPrefix rel ''../'' \<or> IsAbs rel)"

definition Store :: "os_env \<Rightarrow> string \<Rightarrow> string \<Rightarrow> string \<Rightarrow> spool \<Rightarrow> (goerror + FileRef) \<times> spool" where
  "Store env userID filename data s =
     (if userID = '''' \<or> filename = '''' then (Inl ErrInvalidParameters, s)
      else if data = '''' then (Inl ErrEmptyData, s)
      else if to_uint64 (int (length data)) > maxTotalSize s then (Inl ErrFileTooLarge, s)
      else if Contains userID ''..'' then (Inl ErrPathTraversal, s)
      else case Abs_path env (spoolDir s) of
        Inl e \<Rightarrow> (Inl (Errorf ''failed to get absolute path for spool directory'' (os_err e)), s)
      | Inr absSpoolDir \<Rightarrow>
      let userDir = user_dir absSpoolDir userID in
      if store_escapes absSpoolDir userDir then (Inl ErrPathTraversal, s)
      else case fails env SysMkdirAll userDir of
        Some e \<Rightarrow> (Inl (Errorf ''failed to create user directory'' (os_err e)), s)
      | None \<Rightarrow>
      let fileID = ''file-'' @ take 16 (hex_encode (digest env
             (filename @ ''-'' @ userID @ ''-'' @ itoa_int (now env)))) @ ''-'' @ itoa (length data);
          filePath = JoinPath [userDir, fileID]
      in case WriteFile env filePath data 384 (files s) of
        (Some e, fs1) \<Rightarrow> (Inl (Errorf ''failed to write spool file'' (os_err e)), s\<lparr>files := fs1\<rparr>)
      | (None, fs1) \<Rightarrow>
          (Inr \<lparr>fr_userID = userID, fr_fileID = fileID, fr_filename = filename,
                fr_size = int (length data), fr_path = filePath,
                fr_createdAt = format_stamp (now env), fr_targetPath = '''',
                fr_status = FileStatusCommitted\<rparr>, s\<lparr>files := fs1\<rparr>))"

text \<open>An \<open>io.Reader\<close> is the list of what its calls return; one that is exhausted reports EOF.
  A call delivers at most the size of the buffer.\<close>

datatype read_end = RdOk | RdEOF | RdErr goerror

type_synonym reader = "(string \<times> read_end) list"

fun read_some :: "nat \<Rightarrow> reader \<Rightarrow> (string \<times> read_end) \<times> reader" where
  "read_some n [] = (('''', RdEOF), [])"
| "read_some n ((c, e) # rd) =
     (if length c \<le> n then ((c, e), rd) else ((take n c, RdOk), (drop n c, e) # rd))"

definition left_to_read :: "reader \<Rightarrow> nat" where
  "left_to_read rd = sum_list (map (\<lambda>(c, e). Suc (length c)) rd)"

lemma read_some_less:
  "0 < n \<Longrightarrow> read_some n rd = ((c, e), rd') \<Longrightarrow> c \<noteq> '''' \<Longrightarrow> left_to_read rd' < left_to_read rd"
  by (cases "(n, rd)" rule: read_some.cases) (auto simp: left_to_read_def split: if_splits)

text \<open>The copy loop of \<open>StoreStream\<close>: 32 KiB at a time until a call returns no byte.\<close>

function copy_loop :: "os_env \<Rightarrow> nat \<Rightarrow> reader \<Rightarrow> spool \<Rightarrow> goerror option \<times> spool" where
  "copy_loop env r rd s =
     (case read_some 32768 rd of ((c, e), rd') \<Rightarrow>
        (case e of
           RdErr err \<Rightarrow> (Some (Errorf ''failed to read upload data'' err), snd (AbortUpload env (Some r) s))
         | _ \<Rightarrow>
             if c = '''' then (None, s)
             else (case WriteChunk env (Some r) c s of
                     ((n, Some err), s1) \<Rightarrow>
                       (Some (Errorf ''failed to write upload chunk'' err), snd (AbortUpload env (Some r) s1))
                   | ((n, None), s1) \<Rightarrow> copy_loop env r rd' s1)))"
  by pat_completeness auto
termination
  by (relation "measure (\<lambda>(env, r, rd, s). left_to_read rd)")
    (auto intro: read_some_less [of 32768, OF _ sym])

declare copy_loop.simps [simp del]

definition StoreStream ::
  "os_env \<Rightarrow> string \<Rightarrow> string \<Rightarrow> string \<Rightarrow> reader option \<Rightarrow> int \<Rightarrow> spool \<Rightarrow> (goerror + FileRef) \<times> spool"
where
  "StoreStream env userID filename targetPath reader sz s =
     (if userID = '''' \<or> filename = '''' \<or> targetPath = '''' then (Inl ErrInvalidParameters, s)
      else case reader of None \<Rightarrow> (Inl ErrInvalidParameters, s)
      | Some rd \<Rightarrow>
      if sz \<le> 0 then (Inl ErrEmptyData, s)
      else if to_uint64 sz > maxTotalSize s then (Inl ErrFileTooLarge, s)
      else case StartUpload env [] userID filename targetPath sz (maxTotalSize s) s of
        (Inl e, s1) \<Rightarrow> (Inl (Errorf ''failed to start upload'' e), s1)
      | (Inr r, s1) \<Rightarrow>
      (case copy_loop env r rd s1 of
        (Some e, s2) \<Rightarrow> (Inl e, s2)
      | (None, s2) \<Rightarrow>
      (case FinishUpload env (Some r) s2 of
        (Inl e, s3) \<Rightarrow> (Inl (Errorf ''failed to finish upload'' e), s3)
      | (Inr ref, s3) \<Rightarrow> (Inr ref, s3))))"

section \<open>Retrieving and deleting\<close>

definition Retrieve :: "os_env \<Rightarrow> string \<Rightarrow> string \<Rightarrow> spool \<Rightarrow> goerror + string" where
  "Retrieve env userID fileID s =
     (if userID = '''' \<or> fileID = '''' then Inl ErrInvalidParameters
      else if fileID = ''.'' \<or> fileID = ''..'' \<or> fileID \<noteq> Base fileID \<or> Contains fileID [CHR 92]
        then Inl ErrPathTraversal
      else case Abs_path env (spoolDir s) of
        Inl e \<Rightarrow> Inl (Errorf ''failed to get absolute path for spool directory'' (os_err e))
      | Inr absSpoolDir \<Rightarrow>
      let userDir = user_dir absSpoolDir userID in
      if rel_escapes absSpoolDir userDir then Inl ErrPathTraversal
      else case ReadFile env (JoinPath [userDir, fileID]) (files s) of
        Inr data \<Rightarrow> Inr data
      | Inl _ \<Rightarrow>
          (case ReadFile env (JoinPath [userDir, ''file-'' @ fileID]) (files s) of
             Inr data \<Rightarrow> Inr data
           | Inl _ \<Rightarrow> Inl ErrFileNotFound))"

definition DeleteByPath :: "os_env \<Rightarrow> string \<Rightarrow> spool \<Rightarrow> goerror option \<times> spool" where
  "DeleteByPath env filePath s =
     (if filePath = '''' then (Some ErrInvalidParameters, s)
      else case Abs_path env (spoolDir s) of
        Inl e \<Rightarrow> (Some (Errorf ''failed to get absolute spool directory'' (os_err e)), s)
      | Inr absSpoolDir \<Rightarrow>
      case Abs_path env filePath of
        Inl e \<Rightarrow> (Some (Errorf ''failed to get absolute file path'' (os_err e)), s)
      | Inr absFilePath \<Rightarrow>
      if rel_escapes absSpoolDir absFilePath then (Some ErrPathTraversal, s)
      else case Remove env absFilePath (files s) of
        (Some (OsErr m), fs1) \<Rightarrow> (Some (Errorf ''failed to delete file'' (os_err (OsErr m))), s\<lparr>files := fs1\<rparr>)
      | (_, fs1) \<Rightarrow> (None, s\<lparr>files := fs1\<rparr>))"

text \<open>The names in a directory, in the order of \<open>os.ReadDir\<close>.\<close>

definition dir_names :: "string \<Rightarrow> files \<Rightarrow> string list" where
  "dir_names d fs = sort (map Base (filter (\<lambda>p. Dir p = d) (akeys fs)))"

definition file_entry :: "os_env \<Rightarrow> string \<Rightarrow> string \<Rightarrow> files \<Rightarrow> string \<Rightarrow> FileRef option" where
  "file_entry env userID userDir fs name =
     (let filePath = JoinPath [userDir, name] in
      case fails env SysStat filePath of
        Some _ \<Rightarrow> None
      | None \<Rightarrow>
          (case map_of fs filePath of
             None \<Rightarrow> None
           | Some f \<Rightarrow>
               if HasSuffix name ''.tmp'' then None
               else Some \<lparr>fr_userID = userID, fr_fileID = name, fr_filename = name,
                          fr_size = int (length (f_content f)), fr_path = filePath,
                          fr_createdAt = format_stamp (f_mtime f), fr_targetPath = '''',
                          fr_status = FileStatusCommitted\<rparr>))"

definition List_files :: "os_env \<Rightarrow> string \<Rightarrow> spool \<Rightarrow> goerror + FileRef list" where
  "List_files env userID s =
     (if userID = '''' then Inl ErrInvalidParameters
      else case Abs_path env (spoolDir s) of
        Inl e \<Rightarrow> Inl (Errorf ''failed to get absolute path for spool directory'' (os_err e))
      | Inr absSpoolDir \<Rightarrow>
      let userDir = user_dir absSpoolDir userID in
      if rel_escapes absSpoolDir userDir then Inl ErrPathTraversal
      else case fails env SysReadDir userDir of
        Some e \<Rightarrow> Inl (Errorf ''failed to read user directory'' (os_err e))
      | None \<Rightarrow> Inr (List.map_filter (file_entry env userID userDir (files s)) (dir_names userDir (files s))))"

definition GetFileRef :: "os_env \<Rightarrow> string \<Rightarrow> string \<Rightarrow> spool \<Rightarrow> goerror + FileRef" where
  "GetFileRef env userID fileID s =
     (if userID = '''' \<or> fileID = '''' then Inl ErrInvalidParameters
      else case List_files env userID s of
        Inl e \<Rightarrow> Inl (Errorf ''failed to list user files'' e)
      | Inr refs \<Rightarrow>
          (case find (\<lambda>ref. fr_fileID ref = fileID) refs of
             None \<Rightarrow> Inl ErrFileNotFound
           | Some ref \<Rightarrow> Inr ref))"

definition Delete :: "os_env \<Rightarrow> string \<Rightarrow> string \<Rightarrow> spool \<Rightarrow> goerror option \<times> spool" where
  "Delete env userID fileID s =
     (if userID = '''' \<or> fileID = '''' then (Some ErrInvalidParameters, s)
      else case GetFileRef env userID fileID s of
        Inl e \<Rightarrow> (Some e, s)
      | Inr ref \<Rightarrow> DeleteByPath env (fr_path ref) s)"

definition MarkPublished :: "os_env \<Rightarrow> string \<Rightarrow> string \<Rightarrow> spool \<Rightarrow> goerror option" where
  "MarkPublished env userID fileID s =
     (case GetFileRef env userID fileID s of Inl e \<Rightarrow> Some e | Inr _ \<Rightarrow> None)"

definition MarkFailed :: "string \<Rightarrow> string \<Rightarrow> spool \<Rightarrow> goerror option" where
  "MarkFailed userID fileID s = None"

section \<open>The whole spool, and the cleanup\<close>

text \<open>The files below the spool directory in the order of \<open>filepath.Walk\<close>, which visits the
  entries of each directory by name.\<close>

definition walk_files :: "string \<Rightarrow> files \<Rightarrow> string list" where
  "walk_files dir fs = sort_key clean_comps (filter (below dir) (akeys fs))"

definition walk_entry :: "string \<Rightarrow> files \<Rightarrow> string \<Rightarrow> SpoolFile option" where
  "walk_entry dir fs path =
     (case (Rel dir path, map_of fs path) of
        (Some relPath, Some f) \<Rightarrow>
          (let parts = Split (CHR ''/'') relPath in
           if length parts < 2 then None
           else Some \<lparr>fr_userID = parts ! 0, fr_fileID = parts ! 1, fr_filename = parts ! 1,
                      fr_size = int (length (f_content f)), fr_path = path,
                      fr_createdAt = format_stamp (f_mtime f), fr_targetPath = '''',
                      fr_status = FileStatusCommitted, sf_modTime = f_mtime f\<rparr>)
      | _ \<Rightarrow> None)"

definition ListAll :: "os_env \<Rightarrow> spool \<Rightarrow> goerror + SpoolFile list" where
  "ListAll env s =
     (case Abs_path env (spoolDir s) of
        Inl e \<Rightarrow> Inl (Errorf ''failed to get absolute path for spool directory'' (os_err e))
      | Inr dir \<Rightarrow>
          (case fails env SysWalk dir of
             Some e \<Rightarrow> Inl (Errorf ''failed to walk spool directory'' (os_err e))
           | None \<Rightarrow> Inr (List.map_filter (walk_entry dir (files s)) (walk_files dir (files s)))))"

definition Cleanup :: "os_env \<Rightarrow> int \<Rightarrow> spool \<Rightarrow> goerror option \<times> spool" where
  "Cleanup env maxAge s =
     (let age = (if maxAge \<le> 0 then 30 else maxAge) in
      case ListAll env s of
        Inl e \<Rightarrow> (Some (Errorf ''failed to list files for cleanup'' e), s)
      | Inr allFiles \<Rightarrow>
          (let cutoff = now env - s64 (age * 60000000000) in
           (None, foldl (\<lambda>s f. if sf_modTime f < cutoff then snd (DeleteByPath env (fr_path f) s) else s)
                    s allFiles)))"

definition GetPendingFiles :: "os_env \<Rightarrow> spool \<Rightarrow> goerror + FileRef list" where
  "GetPendingFiles env s =
     (case ListAll env s of
        Inl e \<Rightarrow> Inl e
      | Inr allFiles \<Rightarrow>
          Inr (map FileRef.truncate (filter (\<lambda>f. fr_status f = FileStatusCommitted) allFiles)))"

section \<open>The cleanup removes exactly the old files\<close>

definition clean_keys :: "files \<Rightarrow> bool" where
  "clean_keys fs \<longleftrightarrow> distinct (akeys fs) \<and> list_all (\<lambda>p. IsAbs p \<and> Clean p = p) (akeys fs)"

text \<open>
  An old file of some user, in terms of the components of its path alone: older than the cutoff
  and at least two levels below the spool directory, in a directory whose name does not start
  with two dots.
\<close>

definition stale :: "string \<Rightarrow> int \<Rightarrow> files \<Rightarrow> string \<Rightarrow> bool" where
  "stale dir cutoff fs p \<longleftrightarrow>
     (case map_of fs p of None \<Rightarrow> False | Some f \<Rightarrow> f_mtime f < cutoff)
     \<and> prefix (clean_comps dir) (clean_comps p)
     \<and> (case drop (length (clean_comps dir)) (clean_comps p) of
          user # name # rest \<Rightarrow> \<not> HasPrefix user ''..''
        | _ \<Rightarrow> False)"

lemma strip_common_prefix: "strip_common as (as @ bs) = ([], bs)"
  by (induction as) (auto intro: strip_common.simps)

lemma Join_dots_iff:
  assumes "nonempty_comp t"
  shows "HasPrefix (Join ''/'' (t # ts)) ''..'' \<longleftrightarrow> HasPrefix t ''..''"
proof -
  have "\<exists>w. Join ''/'' (t # ts) = t @ w \<and> (w = '''' \<or> hd w = CHR ''/'')" by (cases ts) auto
  then obtain w where w: "Join ''/'' (t # ts) = t @ w" "w = '''' \<or> hd w = CHR ''/''" by blast
  obtain a t' where t: "t = a # t'" using assms by (cases t) (auto simp: nonempty_comp_def)
  show ?thesis
  proof (cases t')
    case Nil
    then show ?thesis using w t assms by (auto simp: prefix_def nonempty_comp_def)
  next
    case (Cons b t'')
    then show ?thesis using w t by (simp add: prefix_def)
  qed
qed

lemma Join_dots:
  "HasPrefix (Join ''/'' (t # ts)) ''..'' \<Longrightarrow> nonempty_comp t \<Longrightarrow> Contains t ''..''"
  by (simp add: Join_dots_iff prefix_imp_sublist del: Join.simps)

lemma Rel_of_comps:
  assumes "IsAbs dir" and "IsAbs p" and "clean_comps p = clean_comps dir @ t # ts"
  shows "Rel dir p = Some (Join ''/'' (t # ts))"
proof -
  have "Clean dir \<noteq> Clean p"
    using assms clean_comps_Clean [OF assms(1)] clean_comps_Clean [OF assms(2)] by auto
  then show ?thesis using assms by (simp add: Rel_def IsAbs_CleanI strip_common_prefix)
qed

text \<open>The files the walk reports and the deletion accepts are the old files of users.\<close>

lemma stale_iff:
  assumes d: "IsAbs dir" and p: "IsAbs p"
  shows "stale dir cutoff fs p \<longleftrightarrow>
    (\<exists>f. walk_entry dir fs p = Some f \<and> below dir p \<and> sf_modTime f < cutoff \<and> \<not> rel_escapes dir p)"
proof (cases "prefix (clean_comps dir) (clean_comps p)")
  case True
  then obtain ts where ts: "clean_comps p = clean_comps dir @ ts" by (auto simp: prefix_def)
  have pr: "proper c" if "c \<in> set ts" for c using clean_comps_proper [OF p, of c] that ts by simp
  have b: "below dir p" using p True by (simp add: below_def)
  show ?thesis
  proof (cases ts)
    case Nil
    then have "Clean dir = Clean p" using ts d p by (simp add: Clean_abs)
    then have "Rel dir p = Some ''.''" by (simp add: Rel_def)
    then have "walk_entry dir fs p = None" by (simp add: walk_entry_def split: option.split)
    with ts Nil show ?thesis by (simp add: stale_def)
  next
    case (Cons u us)
    have rel: "Rel dir p = Some (Join ''/'' ts)" using Rel_of_comps [OF d p] ts Cons by simp
    have sp: "Split (CHR ''/'') (Join ''/'' ts) = ts"
      by (rule Split_Join) (use pr Cons in \<open>auto simp: proper_def\<close>)
    have esc: "rel_escapes dir p \<longleftrightarrow> HasPrefix u ''..''"
      using Join_dots_iff [OF proper_nonempty, of u us] pr Cons by (simp add: rel_escapes_def rel del: Join.simps)
    have "(\<exists>f. walk_entry dir fs p = Some f \<and> sf_modTime f < cutoff)
        \<longleftrightarrow> 2 \<le> length ts \<and> (case map_of fs p of None \<Rightarrow> False | Some f \<Rightarrow> f_mtime f < cutoff)"
      unfolding walk_entry_def rel by (auto simp: sp Let_def simp del: Join.simps split: option.splits)
    moreover have "2 \<le> length ts \<longleftrightarrow> us \<noteq> []" using Cons by (cases us) simp_all
    moreover have "stale dir cutoff fs p \<longleftrightarrow> (case map_of fs p of None \<Rightarrow> False | Some f \<Rightarrow> f_mtime f < cutoff)
        \<and> us \<noteq> [] \<and> \<not> HasPrefix u ''..''"
      using Cons by (cases us) (simp_all add: stale_def ts)
    ultimately show ?thesis using b esc by blast
  qed
qed (auto simp: stale_def below_def)

lemma DeleteByPath_faultless:
  assumes "IsAbs (spoolDir s)" and "faultless env" and "IsAbs p" and "Clean p = p"
  shows "files (snd (DeleteByPath env p s))
      = (if rel_escapes (Clean (spoolDir s)) p then files s else adel p (files s))"
    and "spoolDir (snd (DeleteByPath env p s)) = spoolDir s"
  using assms
  by (auto simp: DeleteByPath_def Abs_path_rooted Remove_def map_of_None_akeys adel_notin IsAbs_iff
      split: os_error.split)

lemma walk_entry_path: "walk_entry dir fs p = Some f \<Longrightarrow> fr_path f = p"
  by (auto simp: walk_entry_def Let_def split: option.splits if_splits)

lemma delete_all:
  assumes env: "faultless env" and abs: "IsAbs dir"
  shows "spoolDir s = dir \<Longrightarrow> (\<And>f. f \<in> set fs \<Longrightarrow> IsAbs (fr_path f) \<and> Clean (fr_path f) = fr_path f) \<Longrightarrow>
    map_of (files (foldl (\<lambda>s f. if sf_modTime f < cutoff then snd (DeleteByPath env (fr_path f) s) else s) s fs)) p
      = (if \<exists>f \<in> set fs. fr_path f = p \<and> sf_modTime f < cutoff \<and> \<not> rel_escapes (Clean dir) p then None
         else map_of (files s) p)"
proof (induction fs arbitrary: s)
  case (Cons f fs)
  let ?s1 = "if sf_modTime f < cutoff then snd (DeleteByPath env (fr_path f) s) else s"
  have f: "IsAbs (fr_path f)" "Clean (fr_path f) = fr_path f" using Cons.prems(2) by auto
  note D = DeleteByPath_faultless [of s env "fr_path f", OF _ env f]
  have d: "spoolDir ?s1 = dir" using Cons.prems(1) abs D by auto
  have "map_of (files ?s1) p = (if fr_path f = p \<and> sf_modTime f < cutoff \<and> \<not> rel_escapes (Clean dir) p then None
         else map_of (files s) p)"
    using Cons.prems(1) abs D(1) by auto
  then show ?case using Cons.IH [OF d] Cons.prems(2) by auto
qed simp

lemma ListAll_faultless:
  "faultless env \<Longrightarrow> IsAbs (spoolDir s) \<Longrightarrow>
     ListAll env s = Inr (List.map_filter (walk_entry (Clean (spoolDir s)) (files s)) (walk_files (Clean (spoolDir s)) (files s)))"
  by (simp add: ListAll_def Abs_path_rooted)

text \<open>C30. When nothing fails, and the age in nanoseconds fits the type of durations, the cleanup
  deletes exactly the files of users that are older than the given age, or than 30 minutes where
  that is not positive: the old files at least two levels
  below the spool directory, orphaned temporary files included. Every other file is left as it
  was: newer ones, those directly in the spool directory, those of a directory whose name starts
  with two dots, and all files outside the spool.\<close>

theorem cleanup_removes_exactly_stale:
  assumes env: "faultless env" and abs: "IsAbs (spoolDir s)" and keys: "clean_keys (files s)"
    and age: "maxAge * 60000000000 \<le> MaxInt64"
  shows "fst (Cleanup env maxAge s) = None
     \<and> map_of (files (snd (Cleanup env maxAge s))) p
       = (if stale (Clean (spoolDir s)) (now env - (if maxAge \<le> 0 then 30 else maxAge) * 60000000000) (files s) p
          then None else map_of (files s) p)"
proof -
  let ?dir = "Clean (spoolDir s)"
  define age' where "age' = (if maxAge \<le> 0 then 30 else maxAge)"
  let ?cut = "now env - age' * 60000000000"
  let ?fs = "List.map_filter (walk_entry ?dir (files s)) (walk_files ?dir (files s))"
  have s64: "s64 (age' * 60000000000) = age' * 60000000000" using age by (intro s64_id) (auto simp: age'_def)
  have in_fs: "f \<in> set ?fs \<longleftrightarrow> (\<exists>q \<in> set (akeys (files s)). below ?dir q \<and> walk_entry ?dir (files s) q = Some f)" for f
    by (auto simp: List.map_filter_def walk_files_def) force
  have abs_key: "IsAbs q \<and> Clean q = q" if "q \<in> set (akeys (files s))" for q
    using that keys by (auto simp: clean_keys_def list_all_iff)
  have ok: "IsAbs (fr_path f) \<and> Clean (fr_path f) = fr_path f" if "f \<in> set ?fs" for f
    using that abs_key walk_entry_path by (metis in_fs)
  have key: "q \<in> set (akeys (files s))" if "walk_entry ?dir (files s) q = Some f" for q f
    using that map_of_None_akeys [of "files s" q] by (auto simp: walk_entry_def split: option.splits)
  have CC: "Clean ?dir = ?dir" using abs by (rule Clean_idem)
  have "(\<exists>f \<in> set ?fs. fr_path f = p \<and> sf_modTime f < ?cut \<and> \<not> rel_escapes ?dir p)
      \<longleftrightarrow> stale ?dir ?cut (files s) p"
  proof (cases "p \<in> set (akeys (files s))")
    case True
    have "stale ?dir ?cut (files s) p \<longleftrightarrow> (\<exists>f. walk_entry ?dir (files s) p = Some f \<and> below ?dir p
        \<and> sf_modTime f < ?cut \<and> \<not> rel_escapes ?dir p)"
      using stale_iff abs abs_key [OF True] by (simp add: IsAbs_CleanI)
    moreover have "(\<exists>f \<in> set ?fs. fr_path f = p \<and> sf_modTime f < ?cut \<and> \<not> rel_escapes ?dir p)
        \<longleftrightarrow> (\<exists>f. walk_entry ?dir (files s) p = Some f \<and> below ?dir p \<and> sf_modTime f < ?cut \<and> \<not> rel_escapes ?dir p)"
      unfolding Bex_def in_fs using True walk_entry_path by blast
    ultimately show ?thesis by simp
  next
    case False
    then have "\<not> stale ?dir ?cut (files s) p" using map_of_None_akeys [of "files s" p] by (auto simp: stale_def)
    moreover have "\<not> (\<exists>f \<in> set ?fs. fr_path f = p)"
      unfolding Bex_def in_fs using False walk_entry_path by blast
    ultimately show ?thesis by blast
  qed
  moreover have "Cleanup env maxAge s
      = (None, foldl (\<lambda>s f. if sf_modTime f < ?cut then snd (DeleteByPath env (fr_path f) s) else s) s ?fs)"
    by (simp add: Cleanup_def ListAll_faultless [OF env abs] s64 flip: age'_def)
  ultimately show ?thesis
    using delete_all [OF env abs refl, of ?fs ?cut p] ok CC by (simp flip: age'_def)
qed

theorem cleanup_removes_exactly_stale_witness:
  "let s = new_spool ''/s'' 10 [(''/s/a/f1'', \<lparr>f_content = ''x'', f_mode = 384, f_mtime = 5\<rparr>),
      (''/s/a/f2'', \<lparr>f_content = ''y'', f_mode = 384, f_mtime = 3000000000000\<rparr>),
      (''/s/f3'', \<lparr>f_content = ''z'', f_mode = 384, f_mtime = 5\<rparr>)] ctx_init;
     s' = snd (Cleanup (example_env 3600000000000 7) 0 s)
   in map_of (files s') ''/s/a/f1'' = None \<and> map_of (files s') ''/s/a/f2'' \<noteq> None
      \<and> map_of (files s') ''/s/f3'' \<noteq> None"
proof -
  let ?s = "new_spool ''/s'' 10 [(''/s/a/f1'', \<lparr>f_content = ''x'', f_mode = 384, f_mtime = 5\<rparr>),
      (''/s/a/f2'', \<lparr>f_content = ''y'', f_mode = 384, f_mtime = 3000000000000\<rparr>),
      (''/s/f3'', \<lparr>f_content = ''z'', f_mode = 384, f_mtime = 5\<rparr>)] ctx_init"
  let ?env = "example_env 3600000000000 7"
  have f: "faultless ?env" by (simp add: faultless_def example_env_def)
  have a: "IsAbs (spoolDir ?s)" by code_simp
  have k: "clean_keys (files ?s)" by code_simp
  have st: "stale (Clean (spoolDir ?s)) (now ?env - 30 * 60000000000) (files ?s) ''/s/a/f1''" by code_simp
  have nst: "\<not> stale (Clean (spoolDir ?s)) (now ?env - 30 * 60000000000) (files ?s) ''/s/a/f2''" by code_simp
  have top: "\<not> stale (Clean (spoolDir ?s)) (now ?env - 30 * 60000000000) (files ?s) ''/s/f3''" by code_simp
  note C = cleanup_removes_exactly_stale [OF f a k, of 0]
  have "map_of (files (snd (Cleanup ?env 0 ?s))) ''/s/a/f1'' = None" using C [of "''/s/a/f1''"] st by simp
  moreover have "map_of (files (snd (Cleanup ?env 0 ?s))) ''/s/a/f2'' \<noteq> None"
    using C [of "''/s/a/f2''"] nst by (simp add: new_spool_def)
  moreover have "map_of (files (snd (Cleanup ?env 0 ?s))) ''/s/f3'' \<noteq> None"
    using C [of "''/s/f3''"] top by (simp add: new_spool_def)
  ultimately show ?thesis unfolding Let_def by blast
qed

section \<open>Storing and retrieving\<close>

lemma user_dir_stays:
  assumes a: "IsAbs dir" and n: "\<not> Contains user ''..''"
  shows "\<not> rel_escapes dir (user_dir dir user)"
proof -
  let ?ts = "filter nonempty_comp (Split (CHR ''/'') (Clean user))"
  have nd: "''..'' \<notin> set (Split (CHR ''/'') (Clean user))"
    using Clean_parts_no_dots [OF n, of "''..''"] by auto
  have cc: "clean_comps (user_dir dir user) = clean_comps dir @ ?ts"
    unfolding user_dir_def by (rule clean_comps_JoinPath [OF a nd])
  have abs: "IsAbs (user_dir dir user)" by (rule IsAbs_user_dir [OF a])
  have no: "\<not> Contains t ''..''" if "t \<in> set ?ts" for t
    using that Clean_parts_no_dots [OF n, of t] by (auto simp: nonempty_comp_def)
  show ?thesis
  proof (cases "?ts = []")
    case True
    then have "Clean dir = Clean (user_dir dir user)" using cc a abs by (simp add: Clean_abs)
    then show ?thesis by (simp add: rel_escapes_def Rel_def)
  next
    case False
    then obtain t ts where ts: "?ts = t # ts" by (cases ?ts) auto
    have "Rel dir (user_dir dir user) = Some (Join ''/'' (t # ts))"
      using Rel_of_comps [OF a abs] cc ts by simp
    moreover have "\<not> HasPrefix (Join ''/'' (t # ts)) ''..''"
    proof
      assume "HasPrefix (Join ''/'' (t # ts)) ''..''"
      moreover have t: "t \<in> set ?ts" using ts by simp
      then have "nonempty_comp t" by simp
      ultimately have "Contains t ''..''" by (rule Join_dots)
      with no [OF t] show False by contradiction
    qed
    ultimately show ?thesis by (simp add: rel_escapes_def)
  qed
qed

lemma Store_Inr:
  assumes "Store env user name data s = (Inr ref, s')"
  obtains dir fs1 where "Abs_path env (spoolDir s) = Inr dir" and "\<not> Contains user ''..''" and "user \<noteq> ''''"
    and "fr_fileID ref = ''file-'' @ take 16 (hex_encode (digest env
             (name @ ''-'' @ user @ ''-'' @ itoa_int (now env)))) @ ''-'' @ itoa (length data)"
    and "fr_path ref = JoinPath [user_dir dir user, fr_fileID ref]" and "fr_size ref = int (length data)"
    and "WriteFile env (fr_path ref) data 384 (files s) = (None, fs1)" and "s' = s\<lparr>files := fs1\<rparr>"
  using assms by (auto simp: Store_def Let_def split: if_splits sum.splits option.splits prod.splits)

lemma WriteFile_content: "WriteFile env p data m fs = (None, fs') \<Longrightarrow> content_of fs' p = Some data"
  by (auto simp: WriteFile_def Let_def content_of_def map_of_append_file map_of_create_file split: option.splits)

lemma no_slash_Base: "CHR ''/'' \<notin> set p \<Longrightarrow> p \<noteq> '''' \<Longrightarrow> Base p = p"
proof -
  assume a: "CHR ''/'' \<notin> set p" "p \<noteq> ''''"
  then have "hd (rev p) \<noteq> CHR ''/''" by (metis hd_in_set rev_is_Nil_conv set_rev)
  then have "TrimRight p ''/'' = p" using a(2) by (cases "rev p") (auto simp: TrimRight_def)
  then show ?thesis using a by (simp add: Base_def Split_no_sep)
qed

lemma hex_encode_chars: "c \<in> set (hex_encode bs) \<Longrightarrow> c \<in> set ''0123456789abcdef''"
proof -
  have d: "hex_digit n \<in> set ''0123456789abcdef''" if "n < 16" for n
  proof -
    have "list_all (\<lambda>n. hex_digit n \<in> set ''0123456789abcdef'') [0..<16]" by code_simp
    with that show ?thesis unfolding list_all_iff by simp
  qed
  have "unat b < 2 ^ LENGTH(8)" for b :: "8 word" by (rule unsigned_less)
  then have "unat b div 16 < 16" "unat b mod 16 < 16" for b :: "8 word"
    by (simp_all add: less_mult_imp_div_less)
  then have "hex_digit (unat b div 16) \<in> set ''0123456789abcdef''" "hex_digit (unat b mod 16) \<in> set ''0123456789abcdef''"
    for b :: "8 word" using d by blast+
  moreover assume "c \<in> set (hex_encode bs)"
  then have "\<exists>b :: 8 word. c = hex_digit (unat b div 16) \<or> c = hex_digit (unat b mod 16)"
    by (auto simp: hex_encode_def)
  ultimately show ?thesis by metis
qed

lemma stored_id_chars:
  assumes "c \<in> set (''file-'' @ take 16 (hex_encode bs) @ ''-'' @ itoa n)"
  shows "c \<noteq> CHR ''/''" and "c \<noteq> CHR 0x5C"
proof -
  have "c \<in> set ''file-'' \<or> c \<in> set (hex_encode bs) \<or> c \<in> set (itoa n)"
    using assms by (auto dest: in_set_takeD)
  then have "c \<in> set ''file-'' \<or> c \<in> set ''0123456789abcdef'' \<or> is_digit c"
    using hex_encode_chars [of c bs] itoa_digits [of n] unfolding list_all_iff by blast
  then show "c \<noteq> CHR ''/''" and "c \<noteq> CHR 0x5C" by (auto simp: is_digit_def)
qed

text \<open>C31. What \<open>Store\<close> stores, \<open>Retrieve\<close> returns under the same user and the returned file id.\<close>

theorem store_then_retrieve:
  assumes st: "Store env user name data s = (Inr ref, s')" and abs: "IsAbs (spoolDir s)" and ok: "faultless env'"
  shows "Retrieve env' user (fr_fileID ref) s' = Inr data \<and> fr_size ref = int (length data)"
  using st
proof (rule Store_Inr)
  fix dir fs1
  let ?id = "fr_fileID ref"
  assume dir: "Abs_path env (spoolDir s) = Inr dir" and nd: "\<not> Contains user ''..''" and ue: "user \<noteq> ''''"
    and fid: "?id = ''file-'' @ take 16 (hex_encode (digest env
             (name @ ''-'' @ user @ ''-'' @ itoa_int (now env)))) @ ''-'' @ itoa (length data)"
    and path: "fr_path ref = JoinPath [user_dir dir user, ?id]" and sz: "fr_size ref = int (length data)"
    and w: "WriteFile env (fr_path ref) data 384 (files s) = (None, fs1)" and s': "s' = s\<lparr>files := fs1\<rparr>"
  have d: "dir = Clean (spoolDir s)" using dir Abs_path_rooted [OF abs] by simp
  have a: "IsAbs dir" using abs d by (simp add: IsAbs_CleanI)
  have sl: "CHR ''/'' \<notin> set ?id" and bs: "CHR 0x5C \<notin> set ?id"
    unfolding fid using stored_id_chars by blast+
  have "hd ?id = CHR ''f''" and ne: "?id \<noteq> ''''" by (simp_all add: fid)
  then have dots: "?id \<noteq> ''.''" "?id \<noteq> ''..''" by auto
  have "Base ?id = ?id" using no_slash_Base [OF sl ne] .
  moreover have "\<not> Contains ?id [CHR 0x5C]" using bs by (auto simp: sublist_def)
  moreover have "ReadFile env' (fr_path ref) fs1 = Inr data"
    using WriteFile_content [OF w] ok by (auto simp: ReadFile_def content_of_def)
  ultimately show ?thesis
    using ue ne dots user_dir_stays [OF a nd] sz abs
    by (simp add: Retrieve_def s' Abs_path_rooted path d)
qed

theorem store_then_retrieve_witness:
  "let (r, s) = Store (example_env 1 7) ''a'' ''f.pdf'' ''hello'' (new_spool ''/s'' 10 [] ctx_init)
   in case r of Inr ref \<Rightarrow> Retrieve (example_env 2 7) ''a'' (fr_fileID ref) s = Inr ''hello'' | Inl _ \<Rightarrow> False"
proof -
  let ?st = "Store (example_env 1 7) ''a'' ''f.pdf'' ''hello'' (new_spool ''/s'' 10 [] ctx_init)"
  have ok: "is_ok (fst ?st)" by code_simp
  obtain r s where st: "?st = (r, s)" by (cases ?st)
  with ok obtain ref where r: "r = Inr ref" by (cases r) auto
  have "IsAbs (spoolDir (new_spool ''/s'' 10 [] ctx_init))" by code_simp
  moreover have "faultless (example_env 2 7)" by (simp add: faultless_def example_env_def)
  ultimately have "Retrieve (example_env 2 7) ''a'' (fr_fileID ref) s = Inr ''hello''"
    using store_then_retrieve [OF st [unfolded r]] by blast
  then show ?thesis by (simp add: st r)
qed

section \<open>Ending an upload\<close>

lemma Abort_state:
  assumes "map_of (uploads s) r = Some u"
  shows "AbortUpload env (Some r) s = (None, releaseUploadBytes (up_id u) (up_received u)
     (s\<lparr>ctxs := cancel_ctx (up_ctx u) (ctxs s), uploads := aput r (u\<lparr>up_open := False\<rparr>) (uploads s),
        files := snd (Remove env (up_temp u) (files s))\<rparr>))"
  using assms by (simp add: AbortUpload_def Let_def set_upload_def)

text \<open>Aborting an upload takes it off the active ones, gives its bytes back exactly once,
  refuses every later chunk as cancelled, and, when deleting succeeds, leaves no temporary
  file; aborting again changes the accounting no more.\<close>

theorem abort_releases:
  assumes inv: "spool_inv s" and u: "map_of (uploads s) r = Some u" and env: "faultless env"
    and s': "AbortUpload env (Some r) s = (x, s')"
  shows "x = None \<and> GetUpload (up_id u) s' = None
    \<and> unat (currentUsage s') = unat (currentUsage s) - (if map_of (activeUploads s) (up_id u) = Some r then nat (up_received u) else 0)
    \<and> WriteChunk env' (Some r) data s' = ((0, Some ErrUploadCancelled), s')
    \<and> content_of (files s') (up_temp u) = None
    \<and> currentUsage (snd (AbortUpload env' (Some r) s')) = currentUsage s'"
proof -
  let ?u = "u\<lparr>up_open := False\<rparr>"
  let ?s1 = "s\<lparr>ctxs := cancel_ctx (up_ctx u) (ctxs s), uploads := aput r ?u (uploads s),
        files := snd (Remove env (up_temp u) (files s))\<rparr>"
  have st: "x = None" "s' = releaseUploadBytes (up_id u) (up_received u) ?s1"
    using s' Abort_state [OF u, of env] by auto
  have cx: "up_ctx u \<noteq> []" using spool_invD(6) [OF inv u] by (simp add: upload_ok_def)
  have "spool_inv (set_upload r ?u (s\<lparr>ctxs := cancel_ctx (up_ctx u) (ctxs s)\<rparr>))"
    using spool_inv_close [OF spool_inv_cancel [OF inv]] u by simp
  then have "spool_inv ((set_upload r ?u (s\<lparr>ctxs := cancel_ctx (up_ctx u) (ctxs s)\<rparr>))
      \<lparr>files := snd (Remove env (up_temp u) (files s))\<rparr>)" by simp
  moreover have "(set_upload r ?u (s\<lparr>ctxs := cancel_ctx (up_ctx u) (ctxs s)\<rparr>))
      \<lparr>files := snd (Remove env (up_temp u) (files s))\<rparr> = ?s1" by (simp add: set_upload_def)
  ultimately have inv1: "spool_inv ?s1" by simp
  have u1: "map_of (uploads ?s1) r = Some ?u" by simp
  have gone: "map_of (activeUploads s') (up_id u) = None" by (simp add: st)
  have use: "unat (currentUsage s') = unat (currentUsage s) - (if map_of (activeUploads s) (up_id u) = Some r then nat (up_received u) else 0)"
  proof (cases "map_of (activeUploads s) (up_id u)")
    case None
    then show ?thesis by (simp add: st releaseUploadBytes_def)
  next
    case (Some r')
    then have r': "r' = r" using active_ref [OF spool_invD(1,2) [OF inv] u] by blast
    have "unat (currentUsage s') + nat (up_received u) = unat (currentUsage ?s1)"
      using release_keeps(2) [OF inv1 u1] Some r' by (simp add: st)
    then show ?thesis using Some r' by simp
  qed
  have cdone: "ctx_done (ctxs s') (up_ctx ?u)" using cx by (simp add: st ctx_done_cancel_self)
  have us: "map_of (uploads s') r = Some ?u" by (simp add: st)
  have "WriteChunk env' (Some r) data s' = ((0, Some ErrUploadCancelled), s')"
    using cdone us by (simp add: WriteChunk_def)
  moreover have "content_of (files s') (up_temp u) = None"
    using env by (auto simp: st Remove_def content_of_def)
  moreover have "currentUsage (snd (AbortUpload env' (Some r) s')) = currentUsage s'"
    using Abort_state [OF us, of env'] gone by (simp add: releaseUploadBytes_def)
  ultimately show ?thesis using st(1) gone use by (simp add: GetUpload_def)
qed

theorem abort_releases_witness:
  "let s = foldl spool_step (new_spool ''/s'' 10 [] ctx_init)
       [Start (example_env 1 7) [] ''a'' ''f'' ''/t/f'' (-1) 8, Chunk (example_env 2 7) (Some 0) ''abcdef''];
       s' = snd (AbortUpload (example_env 3 7) (Some 0) s)
   in unat (currentUsage s) = 6 \<and> unat (currentUsage s') = 0"
proof -
  let ?init = "new_spool ''/s'' 10 [] ctx_init"
  let ?ops = "[Start (example_env 1 7) [] ''a'' ''f'' ''/t/f'' (-1) 8, Chunk (example_env 2 7) (Some 0) ''abcdef'']"
  let ?s = "foldl spool_step ?init ?ops"
  have ok: "run_ok spool_step spool_op_ok ?init ?ops" by code_simp
  have inv: "spool_inv ?s" using spool.inv_run [OF spool_inv_new ok] .
  have "map_option (\<lambda>u. (map_of (activeUploads ?s) (up_id u), up_received u)) (map_of (uploads ?s) 0)
     = Some (Some 0, 6)" by code_simp
  then obtain u where u: "map_of (uploads ?s) 0 = Some u" "map_of (activeUploads ?s) (up_id u) = Some 0" "up_received u = 6"
    by auto
  have "faultless (example_env 3 7)" by (simp add: faultless_def example_env_def)
  from abort_releases [OF inv u(1) this prod.collapse [symmetric]]
  have "unat (currentUsage (snd (AbortUpload (example_env 3 7) (Some 0) ?s))) = unat (currentUsage ?s) - 6"
    using u(2,3) by simp
  moreover have "unat (currentUsage ?s) = 6" by code_simp
  ultimately show ?thesis unfolding Let_def by simp
qed

text \<open>A \<open>FinishUpload\<close> that fails leaves the upload among the active ones with its bytes
  counted: its caller has to abort it to get the capacity back.\<close>

theorem failed_finish_keeps_bytes:
  assumes "FinishUpload env upload s = (Inl e, s')"
  shows "activeUploads s' = activeUploads s \<and> currentUsage s' = currentUsage s"
  using FinishUpload_Inl [OF assms]
proof (elim disjE exE conjE)
  fix r and u :: Upload
  assume eq: "s' = (set_upload r (u\<lparr>up_open := False\<rparr>) s)\<lparr>files := files s'\<rparr>"
  from arg_cong [OF eq, of activeUploads] arg_cong [OF eq, of currentUsage] show ?thesis by simp
qed simp

theorem failed_finish_keeps_bytes_witness:
  "let s = foldl spool_step (new_spool ''/s'' 10 [] ctx_init)
       [Start (example_env 1 7) [] ''a'' ''f'' ''/t/f'' (-1) 8, Chunk (example_env 2 7) (Some 0) ''abcdef''];
       s' = snd (FinishUpload ((example_env 3 7)\<lparr>fault := (\<lambda>c p. if c = SysSync then Some ''I/O error'' else None)\<rparr>) (Some 0) s)
   in currentUsage s' = 6"
proof -
  let ?s = "foldl spool_step (new_spool ''/s'' 10 [] ctx_init)
       [Start (example_env 1 7) [] ''a'' ''f'' ''/t/f'' (-1) 8, Chunk (example_env 2 7) (Some 0) ''abcdef'']"
  let ?env = "(example_env 3 7)\<lparr>fault := (\<lambda>c p. if c = SysSync then Some ''I/O error'' else None)\<rparr>"
  have f: "\<not> is_ok (fst (FinishUpload ?env (Some 0) ?s))" by code_simp
  obtain x s' where x: "FinishUpload ?env (Some 0) ?s = (x, s')" by (cases "FinishUpload ?env (Some 0) ?s")
  with f obtain e where "x = Inl e" by (cases x) auto
  with x have "currentUsage s' = currentUsage ?s" using failed_finish_keeps_bytes by blast
  moreover have "currentUsage ?s = 6" by code_simp
  ultimately show ?thesis unfolding Let_def x snd_conv by simp
qed

end
