(* ===== verification/Utf8.thy ===== *)
theory Utf8
  imports Prelude
begin

text \<open>
  Runes of a Go string: the decoding of \<open>utf8.DecodeRuneInString\<close>, which a \<open>for range\<close> loop
  uses (an invalid byte is the rune U+FFFD of size one), \<open>utf8.ValidString\<close>,
  \<open>utf8.RuneCountInString\<close>, and the encoding of \<open>strings.Builder.WriteRune\<close>.
\<close>

section \<open>Decoding\<close>

definition cont :: "nat \<Rightarrow> bool" where
  "cont b \<longleftrightarrow> 128 \<le> b \<and> b \<le> 191"

definition RuneError :: nat where
  "RuneError = 65533"

text \<open>The rune at the front, its size in bytes, and whether the encoding is valid.\<close>

definition rune2 :: "nat \<Rightarrow> nat list \<Rightarrow> nat \<times> nat \<times> bool" where
  "rune2 b0 bs =
     (case bs of
        b1 # _ \<Rightarrow> if cont b1 then ((b0 - 192) * 64 + (b1 - 128), 2, True) else (RuneError, 1, False)
      | _ \<Rightarrow> (RuneError, 1, False))"

definition rune3 :: "nat \<Rightarrow> nat list \<Rightarrow> nat \<times> nat \<times> bool" where
  "rune3 b0 bs =
     (case bs of
        b1 # b2 # _ \<Rightarrow>
          if cont b1 \<and> (b0 = 224 \<longrightarrow> 160 \<le> b1) \<and> (b0 = 237 \<longrightarrow> b1 \<le> 159) \<and> cont b2
          then ((b0 - 224) * 4096 + (b1 - 128) * 64 + (b2 - 128), 3, True) else (RuneError, 1, False)
      | _ \<Rightarrow> (RuneError, 1, False))"

definition rune4 :: "nat \<Rightarrow> nat list \<Rightarrow> nat \<times> nat \<times> bool" where
  "rune4 b0 bs =
     (case bs of
        b1 # b2 # b3 # _ \<Rightarrow>
          if cont b1 \<and> (b0 = 240 \<longrightarrow> 144 \<le> b1) \<and> (b0 = 244 \<longrightarrow> b1 \<le> 143) \<and> cont b2 \<and> cont b3
          then ((b0 - 240) * 262144 + (b1 - 128) * 4096 + (b2 - 128) * 64 + (b3 - 128), 4, True)
          else (RuneError, 1, False)
      | _ \<Rightarrow> (RuneError, 1, False))"

definition rune1 :: "nat \<Rightarrow> nat list \<Rightarrow> nat \<times> nat \<times> bool" where
  "rune1 b0 bs =
     (if b0 < 128 then (b0, 1, True)
      else if 194 \<le> b0 \<and> b0 \<le> 223 then rune2 b0 bs
      else if 224 \<le> b0 \<and> b0 \<le> 239 then rune3 b0 bs
      else if 240 \<le> b0 \<and> b0 \<le> 244 then rune4 b0 bs
      else (RuneError, 1, False))"

lemmas rune_defs = rune1_def rune2_def rune3_def rune4_def cont_def

function runes :: "nat list \<Rightarrow> (nat \<times> bool) list" where
  "runes [] = []"
| "runes (b # bs) = (case rune1 b bs of (r, n, ok) \<Rightarrow> (r, ok) # runes (drop (n - 1) bs))"
  by pat_completeness auto
termination
  by (relation "measure length") auto

definition str_bytes :: "string \<Rightarrow> nat list" where
  "str_bytes s = map of_char s"

definition bytes_str :: "nat list \<Rightarrow> string" where
  "bytes_str bs = map char_of bs"

definition ValidString :: "string \<Rightarrow> bool" where
  "ValidString s = list_all snd (runes (str_bytes s))"

definition RuneCount :: "string \<Rightarrow> nat" where
  "RuneCount s = length (runes (str_bytes s))"

definition range_runes :: "string \<Rightarrow> nat list" where
  "range_runes s = map fst (runes (str_bytes s))"

section \<open>Encoding\<close>

definition encode :: "nat \<Rightarrow> nat list" where
  "encode r =
     (if r < 128 then [r]
      else if r < 2048 then [192 + r div 64, 128 + r mod 64]
      else if r > 1114111 \<or> (55296 \<le> r \<and> r \<le> 57343) then [239, 191, 189]
      else if r < 65536 then [224 + r div 4096, 128 + r div 64 mod 64, 128 + r mod 64]
      else [240 + r div 262144, 128 + r div 4096 mod 64, 128 + r div 64 mod 64, 128 + r mod 64])"

definition WriteRunes :: "nat list \<Rightarrow> string" where
  "WriteRunes rs = bytes_str (concat (map encode rs))"

lemma bytes_str_bytes [simp]: "bytes_str (str_bytes s) = s"
  by (simp add: bytes_str_def str_bytes_def comp_def)

lemma str_bytes_less: "b \<in> set (str_bytes s) \<Longrightarrow> b < 256"
  by (auto simp: str_bytes_def)

text \<open>Encoding a validly decoded rune gives back the bytes it was decoded from.\<close>

lemma mod64: "d < 64 \<Longrightarrow> (64 * k + d) mod 64 = d" for d k :: nat
  by simp

lemma encode_rune2:
  assumes "194 \<le> b0" "b0 \<le> 223" "cont b1"
  shows "encode ((b0 - 192) * 64 + (b1 - 128)) = [b0, b1]"
proof -
  define a c where "a = b0 - 192" and "c = b1 - 128"
  then have "b0 = 192 + a" "b1 = 128 + c" "2 \<le> a" "a \<le> 31" "c < 64" using assms by (auto simp: cont_def)
  then show ?thesis by (simp add: encode_def)
qed

lemma encode_rune3:
  assumes "224 \<le> b0" "b0 \<le> 239" "cont b1" "cont b2" "b0 = 224 \<longrightarrow> 160 \<le> b1" "b0 = 237 \<longrightarrow> b1 \<le> 159"
  shows "encode ((b0 - 224) * 4096 + (b1 - 128) * 64 + (b2 - 128)) = [b0, b1, b2]"
proof -
  define a c d where "a = b0 - 224" and "c = b1 - 128" and "d = b2 - 128"
  then have b: "b0 = 224 + a" "b1 = 128 + c" "b2 = 128 + d" "a \<le> 15" "c < 64" "d < 64"
    "a = 0 \<longrightarrow> 32 \<le> c" "a = 13 \<longrightarrow> c \<le> 31" using assms by (auto simp: cont_def)
  let ?r = "a * 4096 + c * 64 + d"
  have 1: "?r div 64 = 64 * a + c" using b by simp
  have "?r mod 64 = (64 * (a * 64 + c) + d) mod 64" by (simp add: algebra_simps)
  then have m: "?r mod 64 = d" using mod64 b by metis
  have q: "?r div 4096 = a" "?r div 64 mod 64 = c" unfolding 1 using b by (simp_all add: mod64)
  have "2048 \<le> ?r" "?r < 65536" using b by (cases "a = 0"; simp)+
  moreover have "\<not> (55296 \<le> ?r \<and> ?r \<le> 57343)" using b by (cases "a \<le> 12"; cases "a = 13"; simp)
  ultimately show ?thesis using q m b by (simp add: encode_def)
qed

lemma encode_rune4:
  assumes "240 \<le> b0" "b0 \<le> 244" "cont b1" "cont b2" "cont b3" "b0 = 240 \<longrightarrow> 144 \<le> b1" "b0 = 244 \<longrightarrow> b1 \<le> 143"
  shows "encode ((b0 - 240) * 262144 + (b1 - 128) * 4096 + (b2 - 128) * 64 + (b3 - 128)) = [b0, b1, b2, b3]"
proof -
  define a c d e where "a = b0 - 240" and "c = b1 - 128" and "d = b2 - 128" and "e = b3 - 128"
  then have b: "b0 = 240 + a" "b1 = 128 + c" "b2 = 128 + d" "b3 = 128 + e" "a \<le> 4" "c < 64" "d < 64" "e < 64"
    "a = 0 \<longrightarrow> 16 \<le> c" "a = 4 \<longrightarrow> c \<le> 15" using assms by (auto simp: cont_def)
  let ?r = "a * 262144 + c * 4096 + d * 64 + e"
  have 1: "?r div 64 = 64 * (a * 64 + c) + d" using b by simp
  have 2: "?r div 4096 = 64 * a + c" using b by simp
  have "?r mod 64 = (64 * (a * 4096 + c * 64 + d) + e) mod 64" by (simp add: algebra_simps)
  then have m: "?r mod 64 = e" using mod64 b by metis
  have 3: "?r div 262144 = a" using b by simp
  have q: "?r div 4096 mod 64 = c" "?r div 64 mod 64 = d"
    unfolding 1 2 using b mod64 by metis+
  have "65536 \<le> ?r" using b by (cases "a = 0"; simp)
  moreover have "?r \<le> 1114111" using b by (cases "a = 4"; simp)
  ultimately show ?thesis using q m 3 b by (simp add: encode_def)
qed

lemma encode_rune1:
  assumes "rune1 b bs = (r, n, True)"
  shows "encode r = take n (b # bs) \<and> n \<le> length (b # bs) \<and> 1 \<le> n"
proof -
  consider "b < 128" "r = b" "n = 1"
    | "194 \<le> b" "b \<le> 223" "rune2 b bs = (r, n, True)"
    | "224 \<le> b" "b \<le> 239" "rune3 b bs = (r, n, True)"
    | "240 \<le> b" "b \<le> 244" "rune4 b bs = (r, n, True)"
    using assms by (auto simp: rune1_def split: if_splits)
  then show ?thesis
  proof cases
    case 1
    then show ?thesis by (simp add: encode_def)
  next
    case 2
    then show ?thesis using encode_rune2 by (auto simp: rune2_def split: list.splits if_splits)
  next
    case 3
    then show ?thesis using encode_rune3 by (auto simp: rune3_def split: list.splits if_splits)
  next
    case 4
    then show ?thesis using encode_rune4 by (auto simp: rune4_def split: list.splits if_splits)
  qed
qed

lemma encode_runes:
  "list_all snd (runes bs) \<Longrightarrow> concat (map encode (map fst (runes bs))) = bs"
proof (induction bs rule: runes.induct)
  case (2 b bs)
  obtain r n ok where r: "rune1 b bs = (r, n, ok)" by (cases "rune1 b bs")
  with 2(2) have ok by simp
  with r have r': "rune1 b bs = (r, n, True)" by simp
  have IH: "concat (map encode (map fst (runes (drop (n - 1) bs)))) = drop (n - 1) bs"
    using 2(1) [OF r [symmetric] refl] 2(2) r by simp
  have "b # bs = take n (b # bs) @ drop n (b # bs)" by simp
  moreover have "drop n (b # bs) = drop (n - 1) bs" using encode_rune1 [OF r'] by (cases n) auto
  ultimately show ?case using encode_rune1 [OF r'] IH r by simp
qed simp

text \<open>Writing the runes of a valid string gives the string back.\<close>

lemma WriteRunes_range: "ValidString s \<Longrightarrow> WriteRunes (range_runes s) = s"
  using encode_runes [of "str_bytes s"] by (simp add: ValidString_def WriteRunes_def range_runes_def)

section \<open>ASCII bytes come from ASCII runes\<close>

lemma encode_ascii: "b \<in> set (encode r) \<Longrightarrow> b < 128 \<Longrightarrow> b = r"
  by (auto simp: encode_def split: if_splits)

lemma encode_byte: "b \<in> set (encode r) \<Longrightarrow> b < 256"
proof -
  assume b: "b \<in> set (encode r)"
  have "r < 2048 \<Longrightarrow> r div 64 < 32" "r < 65536 \<Longrightarrow> r div 4096 < 16" "r \<le> 1114111 \<Longrightarrow> r div 262144 \<le> 4"
    by simp_all
  with b show ?thesis by (auto simp: encode_def not_less split: if_splits)
qed

lemma rune1_ascii: "rune1 b bs = (r, n, ok) \<Longrightarrow> r < 128 \<Longrightarrow> r = b"
  by (auto simp: rune_defs RuneError_def split: if_splits list.splits)

lemma runes_ascii: "(r, ok) \<in> set (runes bs) \<Longrightarrow> r < 128 \<Longrightarrow> r \<in> set bs"
proof (induction bs rule: runes.induct)
  case (2 b bs)
  obtain r' n ok' where r: "rune1 b bs = (r', n, ok')" by (cases "rune1 b bs")
  then show ?case
    using 2(1) [OF r [symmetric] refl] 2(2,3) rune1_ascii [OF r] set_drop_subset [of "n - 1" bs] by auto
qed simp

lemma range_runes_ascii: "r \<in> set (range_runes s) \<Longrightarrow> r < 128 \<Longrightarrow> char_of r \<in> set s"
proof -
  assume "r \<in> set (range_runes s)" and r: "r < 128"
  then obtain ok where "(r, ok) \<in> set (runes (str_bytes s))" by (auto simp: range_runes_def)
  from runes_ascii [OF this r] show "char_of r \<in> set s" by (auto simp: str_bytes_def)
qed

lemma WriteRunes_ascii:
  assumes "c \<in> set (WriteRunes rs)" and "of_char c < (128 :: nat)"
  shows "of_char c \<in> set rs"
proof -
  obtain b r where br: "c = char_of b" "b \<in> set (encode r)" "r \<in> set rs"
    using assms(1) by (auto simp: WriteRunes_def bytes_str_def)
  have "b < 256" using encode_byte [OF br(2)] .
  then have "of_char c = b" using br(1) by (simp add: of_char_of)
  with assms(2) encode_ascii [OF br(2)] br(3) show ?thesis by simp
qed

text \<open>A string of printable ASCII characters is valid, and its runes are its bytes.\<close>

lemma runes_of_ascii: "(\<And>b. b \<in> set bs \<Longrightarrow> b < 128) \<Longrightarrow> runes bs = map (\<lambda>b. (b, True)) bs"
  by (induction bs) (auto simp: rune1_def)

lemma ValidString_ascii: "(\<And>c. c \<in> set s \<Longrightarrow> of_char c < (128 :: nat)) \<Longrightarrow> ValidString s"
proof -
  assume "\<And>c. c \<in> set s \<Longrightarrow> of_char c < (128 :: nat)"
  then have "runes (str_bytes s) = map (\<lambda>b. (b, True)) (str_bytes s)"
    by (intro runes_of_ascii) (auto simp: str_bytes_def)
  then show ?thesis by (simp add: ValidString_def list_all_iff)
qed

text \<open>The converse: runes that are all ASCII are the bytes themselves, in both directions.\<close>

lemma runes_all_ascii: "(\<And>r. r \<in> set (map fst (runes bs)) \<Longrightarrow> r < 128) \<Longrightarrow> map fst (runes bs) = bs"
proof (induction bs rule: runes.induct)
  case (2 b bs)
  obtain r n ok where r: "rune1 b bs = (r, n, ok)" by (cases "rune1 b bs")
  with 2(2) [of r] have "r < 128" by simp
  with rune1_ascii [OF r] have rb: "r = b" "b < 128" by auto
  with r have "n = 1" by (simp add: rune1_def)
  with 2(1) [OF r [symmetric] refl] 2(2) r rb show ?case by simp
qed simp

lemma encode_high: "128 \<le> r \<Longrightarrow> \<exists>b \<in> set (encode r). 128 \<le> b \<and> b < 256"
proof -
  assume r: "128 \<le> r"
  then have "hd (encode r) \<in> set (encode r)" "128 \<le> hd (encode r)"
    by (auto simp: encode_def)
  with encode_byte show ?thesis by blast
qed

lemma WriteRunes_eq_ascii:
  assumes "\<And>c. c \<in> set (WriteRunes rs) \<Longrightarrow> of_char c < (128 :: nat)"
  shows "rs = str_bytes (WriteRunes rs)"
proof -
  have low: "r < 128" if r: "r \<in> set rs" for r
  proof (rule ccontr)
    assume "\<not> r < 128"
    then obtain b where b: "b \<in> set (encode r)" "128 \<le> b" "b < 256" using encode_high [of r] by auto
    have "char_of b \<in> set (WriteRunes rs)" using r b(1) by (auto simp: WriteRunes_def bytes_str_def)
    from assms [OF this] b show False by (simp add: of_char_of)
  qed
  then have "concat (map encode rs) = rs" by (induction rs) (auto simp: encode_def)
  moreover have "str_bytes (bytes_str rs) = rs"
    using low by (induction rs) (force simp: str_bytes_def bytes_str_def of_char_of)+
  ultimately show ?thesis by (simp add: WriteRunes_def)
qed

lemma range_runes_all_ascii:
  "(\<And>r. r \<in> set (range_runes s) \<Longrightarrow> r < 128) \<Longrightarrow> range_runes s = str_bytes s"
  unfolding range_runes_def by (rule runes_all_ascii) auto

section \<open>White space\<close>

text \<open>The runes of a byte sequence, each with the bytes it was decoded from.\<close>

function segs :: "nat list \<Rightarrow> (nat \<times> nat list) list" where
  "segs [] = []"
| "segs (b # bs) =
     (case rune1 b bs of (r, n, ok) \<Rightarrow> (r, b # take (n - 1) bs) # segs (drop (n - 1) bs))"
  by pat_completeness auto
termination
  by (relation "measure length") auto

definition unsegs :: "(nat \<times> nat list) list \<Rightarrow> string" where
  "unsegs xs = bytes_str (concat (map snd xs))"

text \<open>\<open>unicode.IsSpace\<close>.\<close>

definition IsSpace :: "nat \<Rightarrow> bool" where
  "IsSpace r \<longleftrightarrow> (9 \<le> r \<and> r \<le> 13) \<or> r = 32 \<or> r = 133 \<or> r = 160 \<or> r = 5760 \<or> (8192 \<le> r \<and> r \<le> 8202)
     \<or> r = 8232 \<or> r = 8233 \<or> r = 8239 \<or> r = 8287 \<or> r = 12288"

text \<open>\<open>strings.TrimSpace\<close>.\<close>

definition TrimSpace :: "string \<Rightarrow> string" where
  "TrimSpace s =
     (let sp = (\<lambda>(r, bs). IsSpace r); xs = segs (str_bytes s)
      in unsegs (rev (dropWhile sp (rev (dropWhile sp xs)))))"

lemma segs_ascii: "(\<And>b. b \<in> set bs \<Longrightarrow> b < 128) \<Longrightarrow> segs bs = map (\<lambda>b. (b, [b])) bs"
  by (induction bs) (auto simp: rune1_def)

text \<open>A nonempty ASCII string that neither begins nor ends with white space.\<close>

definition tight :: "string \<Rightarrow> bool" where
  "tight s \<longleftrightarrow> (\<forall>c \<in> set s. of_char c < (128 :: nat)) \<and> (s \<noteq> '''' \<longrightarrow> \<not> IsSpace (of_char (hd s)) \<and> \<not> IsSpace (of_char (last s)))"

lemma TrimSpace_tight: "tight s \<Longrightarrow> TrimSpace s = s"
proof -
  assume t: "tight s"
  let ?f = "\<lambda>b. (b, [b]) :: nat \<times> nat list" and ?sp = "\<lambda>(r, bs). IsSpace r"
  have x: "segs (str_bytes s) = map ?f (str_bytes s)"
    using t by (intro segs_ascii) (auto simp: tight_def str_bytes_def)
  have u: "unsegs (map ?f (str_bytes s)) = s"
    by (simp add: unsegs_def comp_def)
  have l: "dropWhile ?sp (map ?f (str_bytes s)) = map ?f (str_bytes s)"
    using t by (cases s) (auto simp: tight_def str_bytes_def)
  have "dropWhile ?sp (map ?f (str_bytes (rev s))) = map ?f (str_bytes (rev s))"
  proof (cases "rev s")
    case (Cons c cs)
    then have "last s = c" "s \<noteq> ''''" using hd_rev [of s] by auto
    with t Cons show ?thesis by (simp add: tight_def str_bytes_def)
  qed (simp add: str_bytes_def)
  then have r: "dropWhile ?sp (rev (map ?f (str_bytes s))) = rev (map ?f (str_bytes s))"
    by (simp add: str_bytes_def rev_map)
  show ?thesis unfolding TrimSpace_def Let_def x l r rev_rev_ident by (rule u)
qed

lemma TrimSpace_Nil [simp]: "TrimSpace '''' = ''''"
  by (simp add: TrimSpace_def unsegs_def str_bytes_def bytes_str_def)

end
