(* ===== verification/Webdav.thy ===== *)
theory Webdav
  imports Interfaces AppErrors Utf8
begin

text \<open>
  The WebDAV client (\<open>pkg/webdav/client.go\<close>, \<open>pkg/webdav/webdav.go\<close>). Go's HTTP transport, the
  server behind it and the clock are the parameter \<open>net\<close>, on a state \<open>'w\<close> of the outside
  world: \<open>do_request\<close> sends a request and tells how many bytes of the body it read,
  \<open>pause ms\<close> waits between two attempts and tells whether the context ended first, \<open>parse_url\<close>
  is \<open>url.Parse\<close> followed by \<open>String\<close>. Deadlines of requests are the transport's business.
\<close>

section \<open>Errors\<close>

abbreviation WebDAVError :: "string \<Rightarrow> goerror" where
  "WebDAVError m \<equiv> Sentinel ''webdav error: '' m"

definition ErrInvalidPath :: goerror where "ErrInvalidPath = WebDAVError ''invalid path''"
definition ErrEmptyData :: goerror where "ErrEmptyData = WebDAVError ''empty data''"
definition ErrPathNotFound :: goerror where "ErrPathNotFound = WebDAVError ''path not found''"
definition ErrUnauthorized :: goerror where "ErrUnauthorized = WebDAVError ''unauthorized''"
definition ErrForbidden :: goerror where "ErrForbidden = WebDAVError ''forbidden''"
definition ErrPathTraversal :: goerror where "ErrPathTraversal = WebDAVError ''path traversal''"
definition ErrUploadConflict :: goerror where
  "ErrUploadConflict = WebDAVError ''upload conflict - file already exists''"
definition ErrFileTooLarge :: goerror where "ErrFileTooLarge = WebDAVError ''file too large''"
definition ErrRateLimited :: goerror where "ErrRateLimited = WebDAVError ''rate limited''"
definition ErrTemporaryFailure :: goerror where
  "ErrTemporaryFailure = WebDAVError ''temporary server failure''"

lemmas webdav_errors = ErrInvalidPath_def ErrEmptyData_def ErrPathNotFound_def ErrUnauthorized_def
  ErrForbidden_def ErrPathTraversal_def ErrUploadConflict_def ErrFileTooLarge_def ErrRateLimited_def
  ErrTemporaryFailure_def

section \<open>Paths\<close>

text \<open>\<open>url.PathEscape\<close>: letters, digits, the marks \<open>- _ . ~\<close> and the reserved characters that
  have no meaning inside one segment of a path, \<open>$ & + = : @\<close>, stand for themselves; every
  other byte is a percent sign and two hexadecimal digits.\<close>

definition upper_hex :: "nat \<Rightarrow> char" where
  "upper_hex n = char_of (if n < 10 then 48 + n else 55 + n)"

definition path_safe :: "char \<Rightarrow> bool" where
  "path_safe c \<longleftrightarrow> (let n = of_char c :: nat in
     (48 \<le> n \<and> n \<le> 57) \<or> (65 \<le> n \<and> n \<le> 90) \<or> (97 \<le> n \<and> n \<le> 122)) \<or> c \<in> set ''-_.~$&+=:@''"

definition escape_char :: "char \<Rightarrow> string" where
  "escape_char c =
     (if path_safe c then [c]
      else [CHR ''%'', upper_hex (of_char c div 16), upper_hex (of_char c mod 16)])"

definition PathEscape :: "string \<Rightarrow> string" where
  "PathEscape s = concat (map escape_char s)"

definition MaxPathLength :: nat where
  "MaxPathLength = 4096"

definition control_rune :: "nat \<Rightarrow> bool" where
  "control_rune r \<longleftrightarrow> r = 0 \<or> (r < 32 \<and> r \<noteq> 47 \<and> r \<noteq> 46 \<and> r \<noteq> 95 \<and> r \<noteq> 45)"

definition normalizePath :: "string \<Rightarrow> goerror + string" where
  "normalizePath p =
     (if p = '''' then Inl ErrInvalidPath
      else if length p > MaxPathLength then
        Inl (Wrapf '''' ErrInvalidPath ('': path length '' @ itoa (length p) @ '' exceeds maximum of '' @ itoa MaxPathLength))
      else if \<not> ValidString p then Inl (Wrapf '''' ErrInvalidPath '': path contains invalid UTF-8 sequences'')
      else if Contains p ''..'' then Inl ErrPathTraversal
      else if Contains p (CHR 0x5C # ''..'' @ [CHR 0x5C]) \<or> Contains p (CHR 0x5C # ''..'')
             \<or> Contains p (''..'' @ [CHR 0x5C]) then Inl ErrPathTraversal
      else if 2 \<le> length p \<and> p ! 1 = CHR '':'' then
        Inl (Wrapf '''' ErrInvalidPath '': absolute Windows paths not allowed'')
      else if list_ex control_rune (range_runes p) then
        Inl (Wrapf '''' ErrInvalidPath '': path contains invalid control characters'')
      else
        let cleanPath = Clean p in
        if HasPrefix cleanPath ''..'' then Inl ErrPathTraversal
        else
          let cleanPath = (if HasPrefix cleanPath ''/'' then cleanPath else CHR ''/'' # cleanPath) in
          if length cleanPath > MaxPathLength then
            Inl (Wrapf '''' ErrInvalidPath ('': normalized path length '' @ itoa (length cleanPath)
              @ '' exceeds maximum of '' @ itoa MaxPathLength))
          else Inr (Join ''/'' (map (\<lambda>part. if part \<noteq> '''' then PathEscape part else part)
                     (Split (CHR ''/'') cleanPath))))"

section \<open>Requests\<close>

text \<open>\<open>rq_body\<close> is what is left to read of the body, \<open>None\<close> when reading it fails because it
  has been closed; \<open>rq_length\<close> is \<open>req.ContentLength\<close>.\<close>

record request =
  rq_method :: string
  rq_url :: string
  rq_headers :: "(string \<times> string) list"
  rq_auth :: "string \<times> string"
  rq_length :: int
  rq_body :: "string option"

record response =
  rs_status :: int
  rs_body :: string

record 'w net =
  do_request :: "request \<Rightarrow> 'w \<Rightarrow> ((goerror + response) \<times> nat) \<times> 'w"
  pause :: "nat \<Rightarrow> 'w \<Rightarrow> bool \<times> 'w"
  parse_url :: "string \<Rightarrow> string option"

record webdavClient =
  baseURL :: string
  username :: string
  token :: string

definition NewWebDAVClient :: "string \<Rightarrow> string \<Rightarrow> string \<Rightarrow> webdavClient" where
  "NewWebDAVClient base user tok = \<lparr>baseURL = TrimRight base ''/'', username = user, token = tok\<rparr>"

definition full_url :: "'w net \<Rightarrow> webdavClient \<Rightarrow> string \<Rightarrow> string option" where
  "full_url net c normalizedPath = parse_url net (baseURL c @ ''/'' @ TrimLeft normalizedPath ''/'')"

text \<open>
  The same network for requests under a context that is done, as \<open>net/http\<close> documents it: no
  request is sent, and a wait between two attempts ends at once.
\<close>

definition with_ctx :: "bool \<Rightarrow> 'w net \<Rightarrow> 'w net" where
  "with_ctx ended net =
     (if ended
      then net\<lparr>do_request := (\<lambda>rq w. ((Inl (Opaque ''context canceled''), 0), w)), pause := (\<lambda>ms w. (True, w))\<rparr>
      else net)"

definition url_error :: goerror where
  "url_error = Opaque ''invalid URL''"

text \<open>A request without a body.\<close>

definition plain_request ::
  "webdavClient \<Rightarrow> string \<Rightarrow> string \<Rightarrow> (string \<times> string) list \<Rightarrow> request" where
  "plain_request c m url hs =
     \<lparr>rq_method = m, rq_url = url, rq_headers = hs, rq_auth = (username c, token c), rq_length = 0,
      rq_body = Some ''''\<rparr>"

text \<open>The common part of the control operations: normalize, build the URL, send. The texts are
  those of their error messages.\<close>

definition control_op ::
  "'w net \<Rightarrow> webdavClient \<Rightarrow> string \<Rightarrow> (string \<Rightarrow> string) \<Rightarrow> (string \<times> string) list \<Rightarrow> string \<Rightarrow> 'w \<Rightarrow>
     (goerror + string \<times> response) \<times> 'w"
where
  "control_op net c m adjust hs path w =
     (if path = '''' then (Inl ErrInvalidPath, w)
      else case normalizePath path of
        Inl e \<Rightarrow> (Inl e, w)
      | Inr np \<Rightarrow>
          let np = adjust np in
          (case full_url net c np of
             None \<Rightarrow>
               (Inl (Wrapf (''failed to construct WebDAV URL for ''
                  @ (if m = ''MKCOL'' then ''directory '' else ''path '') @ quoted path @ '': '') url_error ''''), w)
           | Some url \<Rightarrow>
               (case parse_url net url of
                  None \<Rightarrow> (Inl (Wrapf (''failed to create WebDAV '' @ m @ '' request: '') url_error ''''), w)
                | Some url' \<Rightarrow>
                    (case do_request net (plain_request c m url' hs) w of
                       ((Inl e, n), w') \<Rightarrow> (Inl (Wrapf (''WebDAV '' @ m @ '' failed: '') e ''''), w')
                     | ((Inr resp, n), w') \<Rightarrow> (Inr (np, resp), w')))))"

definition ok_status :: "int \<Rightarrow> bool" where
  "ok_status st \<longleftrightarrow> 200 \<le> st \<and> st < 300"

definition status_error :: "string \<Rightarrow> response \<Rightarrow> goerror" where
  "status_error what resp = Opaque (what @ '' failed with status '' @ itoa_int (rs_status resp) @ '': '' @ rs_body resp)"

definition CreateDirectory :: "'w net \<Rightarrow> webdavClient \<Rightarrow> string \<Rightarrow> 'w \<Rightarrow> goerror option \<times> 'w" where
  "CreateDirectory net c path w =
     (case control_op net c ''MKCOL'' (\<lambda>np. if HasSuffix np ''/'' then np else np @ ''/'') [] path w of
        (Inl e, w') \<Rightarrow> (Some e, w')
      | (Inr (np, resp), w') \<Rightarrow>
          (let st = rs_status resp in
           (if ok_status st then None
            else if st = 409 \<or> st = 405 then None
            else if st = 401 then Some ErrUnauthorized
            else if st = 403 then Some ErrForbidden
            else if st = 404 then Some ErrPathNotFound
            else Some (status_error ''MKCOL'' resp), w')))"

definition CheckPathExistence :: "'w net \<Rightarrow> webdavClient \<Rightarrow> string \<Rightarrow> 'w \<Rightarrow> (bool \<times> goerror option) \<times> 'w" where
  "CheckPathExistence net c path w =
     (case control_op net c ''HEAD'' (\<lambda>np. np) [] path w of
        (Inl e, w') \<Rightarrow> ((False, Some e), w')
      | (Inr (np, resp), w') \<Rightarrow>
          (let st = rs_status resp in
           (if st = 200 \<or> st = 204 then (True, None)
            else if st = 404 then (False, None)
            else if st = 401 then (False, Some ErrUnauthorized)
            else if st = 403 then (False, Some ErrForbidden)
            else (False, Some (status_error ''path existence check'' resp)), w')))"

definition DeleteFile :: "'w net \<Rightarrow> webdavClient \<Rightarrow> string \<Rightarrow> 'w \<Rightarrow> goerror option \<times> 'w" where
  "DeleteFile net c path w =
     (case control_op net c ''DELETE'' (\<lambda>np. np) [] path w of
        (Inl e, w') \<Rightarrow> (Some e, w')
      | (Inr (np, resp), w') \<Rightarrow>
          (let st = rs_status resp in
           (if ok_status st then None
            else if st = 404 then Some ErrPathNotFound
            else if st = 401 then Some ErrUnauthorized
            else if st = 403 then Some ErrForbidden
            else Some (status_error ''DELETE'' resp), w')))"

text \<open>\<open>FileInfo\<close> without the time stamp, which is the time of the call.\<close>

record FileInfo =
  fi_path :: string
  fi_size :: int
  fi_isDirectory :: bool

definition GetFileInfo :: "'w net \<Rightarrow> webdavClient \<Rightarrow> string \<Rightarrow> 'w \<Rightarrow> (goerror + FileInfo) \<times> 'w" where
  "GetFileInfo net c path w =
     (case control_op net c ''PROPFIND'' (\<lambda>np. np) [(''Depth'', ''0'')] path w of
        (Inl e, w') \<Rightarrow> (Inl e, w')
      | (Inr (np, resp), w') \<Rightarrow>
          (let st = rs_status resp in
           (if st = 200 \<or> st = 207 then
              Inr \<lparr>fi_path = path, fi_size = 0, fi_isDirectory = HasSuffix np ''/''\<rparr>
            else if st = 404 then Inl ErrPathNotFound
            else if st = 401 then Inl ErrUnauthorized
            else if st = 403 then Inl ErrForbidden
            else Inl (status_error ''PROPFIND'' resp), w')))"

definition ValidateConfiguration :: "'w net \<Rightarrow> webdavClient \<Rightarrow> 'w \<Rightarrow> goerror option \<times> 'w" where
  "ValidateConfiguration net c w =
     (case CheckPathExistence net c ''/'' w of
        ((b, Some e), w') \<Rightarrow> (Some (Wrapf ''WebDAV configuration validation failed: '' e ''''), w')
      | ((b, None), w') \<Rightarrow> (None, w'))"

section \<open>Uploads\<close>

text \<open>
  The body of an upload: its content and the position of the next read; whether it implements
  \<open>io.Seeker\<close> and \<open>io.Closer\<close>. The transport closes a body that can be closed once it has
  sent the request, and a closed body can be read and rewound no more.
\<close>

record body =
  bd_content :: string
  bd_pos :: nat
  bd_seeker :: bool
  bd_closer :: bool
  bd_closed :: bool

definition handleUploadResponse :: "response \<Rightarrow> string \<Rightarrow> goerror option" where
  "handleUploadResponse resp path =
     (let st = rs_status resp in
      if ok_status st then None
      else if st = 401 then Some ErrUnauthorized
      else if st = 403 then Some ErrForbidden
      else if st = 404 then Some ErrPathNotFound
      else if st = 409 then Some ErrUploadConflict
      else if st = 412 then Some ErrUploadConflict
      else if st = 413 then Some ErrFileTooLarge
      else if st = 429 then Some ErrRateLimited
      else if st = 500 \<or> st = 502 \<or> st = 503 \<or> st = 504 then Some ErrTemporaryFailure
      else Some (Opaque (''upload failed with status '' @ itoa_int st @ '' for path '' @ quoted path @ '': '' @ rs_body resp)))"

definition upload_request :: "webdavClient \<Rightarrow> string \<Rightarrow> body \<Rightarrow> int \<Rightarrow> bool \<Rightarrow> request" where
  "upload_request c url b sz overwrite =
     \<lparr>rq_method = ''PUT'', rq_url = url,
      rq_headers = (''Content-Type'', ''application/octet-stream'')
        # (if overwrite then [] else [(''If-None-Match'', ''*'')]),
      rq_auth = (username c, token c),
      rq_length = (if sz = 0 then 0 else sz),
      rq_body = (if sz = 0 then Some ''''
                 else if bd_closed b then None else Some (drop (bd_pos b) (bd_content b)))\<rparr>"

text \<open>The body after a request: read on by the transport and closed, unless it was not sent.\<close>

definition body_after :: "body \<Rightarrow> int \<Rightarrow> nat \<Rightarrow> body" where
  "body_after b sz n =
     (if sz = 0 \<or> bd_closed b then b
      else b\<lparr>bd_pos := min (bd_pos b + n) (length (bd_content b)), bd_closed := bd_closer b\<rparr>)"

definition doUpload ::
  "'w net \<Rightarrow> webdavClient \<Rightarrow> string \<Rightarrow> body \<Rightarrow> int \<Rightarrow> bool \<Rightarrow> string \<Rightarrow> 'w \<Rightarrow> (goerror option \<times> body) \<times> 'w"
where
  "doUpload net c url b sz overwrite np w =
     (case parse_url net url of
        None \<Rightarrow> ((Some (Wrapf ''failed to create WebDAV upload request: '' url_error ''''), b), w)
      | Some url' \<Rightarrow>
          (case do_request net (upload_request c url' b sz overwrite) w of
             ((Inl e, n), w') \<Rightarrow> ((Some (Wrapf ''WebDAV upload failed: '' e ''''), body_after b sz n), w')
           | ((Inr resp, n), w') \<Rightarrow> ((handleUploadResponse resp np, body_after b sz n), w')))"

definition uploadMaxAttempts :: nat where
  "uploadMaxAttempts = 3"

definition uploadRetryBaseDelay :: nat where
  "uploadRetryBaseDelay = 250"

text \<open>\<open>seeker.Seek(0, io.SeekStart)\<close>.\<close>

definition rewind :: "body \<Rightarrow> body option" where
  "rewind b = (if bd_closed b then None else Some (b\<lparr>bd_pos := 0\<rparr>))"

text \<open>The preparation of attempt \<open>k\<close>: nothing before the first; a rewind and a pause before a
  retry, either of which may end the upload.\<close>

definition prepare ::
  "'w net \<Rightarrow> nat \<Rightarrow> goerror option \<Rightarrow> body \<Rightarrow> 'w \<Rightarrow> (goerror option + body) \<times> 'w" where
  "prepare net k lastErr b w =
     (if k \<le> 1 then (Inr b, w)
      else if \<not> bd_seeker b then (Inl lastErr, w)
      else case rewind b of
        None \<Rightarrow> (Inl (Some (Wrapf ''failed to rewind upload body for retry: '' (Opaque ''file already closed'') '''')), w)
      | Some b' \<Rightarrow>
          (case pause net (uploadRetryBaseDelay * 2 ^ (k - 2)) w of
             (True, w') \<Rightarrow>
               (Inl (Some (Wrapf ''upload aborted while waiting to retry: '' (Opaque ''context canceled'') '''')), w')
           | (False, w') \<Rightarrow> (Inr b', w')))"

text \<open>The attempts from number \<open>k\<close> on; \<open>left\<close> of them may still be made.\<close>

fun attempts ::
  "'w net \<Rightarrow> webdavClient \<Rightarrow> string \<Rightarrow> int \<Rightarrow> bool \<Rightarrow> string \<Rightarrow> nat \<Rightarrow> nat \<Rightarrow> goerror option \<Rightarrow> body \<Rightarrow> 'w \<Rightarrow>
     (goerror option \<times> body) \<times> 'w"
where
  "attempts net c url sz overwrite np k 0 lastErr b w =
     ((Some (Wrapf (''upload failed after '' @ itoa uploadMaxAttempts @ '' attempts: '')
        (case lastErr of None \<Rightarrow> Opaque ''%!w(<nil>)'' | Some e \<Rightarrow> e) ''''), b), w)"
| "attempts net c url sz overwrite np k (Suc left) lastErr b w =
     (case prepare net k lastErr b w of
        (Inl e, w1) \<Rightarrow> ((e, b), w1)
      | (Inr b1, w1) \<Rightarrow>
          (case doUpload net c url b1 sz overwrite np w1 of
             ((None, b2), w2) \<Rightarrow> ((None, b2), w2)
           | ((Some e, b2), w2) \<Rightarrow>
               if errors_is e ErrTemporaryFailure
               then attempts net c url sz overwrite np (Suc k) left (Some e) b2 w2
               else ((Some e, b2), w2)))"

definition UploadStream ::
  "'w net \<Rightarrow> webdavClient \<Rightarrow> string \<Rightarrow> body option \<Rightarrow> int \<Rightarrow> bool \<Rightarrow> 'w \<Rightarrow> (goerror option \<times> body option) \<times> 'w"
where
  "UploadStream net c path reader sz overwrite w =
     (if path = '''' then ((Some ErrInvalidPath, reader), w)
      else case reader of
        None \<Rightarrow> ((Some ErrEmptyData, reader), w)
      | Some b \<Rightarrow>
          (case normalizePath path of
             Inl e \<Rightarrow> ((Some e, reader), w)
           | Inr np \<Rightarrow>
               (case full_url net c np of
                  None \<Rightarrow> ((Some (Wrapf (''failed to construct WebDAV URL for path '' @ quoted path @ '': '') url_error ''''), reader), w)
                | Some url \<Rightarrow>
                    (case attempts net c url sz overwrite np 1 uploadMaxAttempts None b w of
                       ((e, b'), w') \<Rightarrow> ((e, Some b'), w')))))"

text \<open>A \<open>bytes.Reader\<close> over the data can be rewound, and is not closed by the transport.\<close>

definition Upload_bytes :: "'w net \<Rightarrow> webdavClient \<Rightarrow> string \<Rightarrow> string \<Rightarrow> bool \<Rightarrow> 'w \<Rightarrow> goerror option \<times> 'w" where
  "Upload_bytes net c path data overwrite w =
     (if path = '''' then (Some ErrInvalidPath, w)
      else if data = '''' then (Some ErrEmptyData, w)
      else case UploadStream net c path
             (Some \<lparr>bd_content = data, bd_pos = 0, bd_seeker = True, bd_closer = False, bd_closed = False\<rparr>)
             (int (length data)) overwrite w of
             ((e, b), w') \<Rightarrow> (e, w'))"

end
