(* ===== verification/WebdavProps.thy ===== *)
theory WebdavProps
  imports Webdav
begin

text \<open>
  What the WebDAV client sends: normalized paths cannot escape their root or smuggle URL
  syntax, and an upload is a bounded number of complete, conditional PUT requests.
\<close>

section \<open>Normalized paths\<close>

lemma escape_char_safe: "c \<in> set (escape_char d) \<Longrightarrow> path_safe c \<or> c = CHR ''%''"
proof -
  have "\<forall>n < 16. path_safe (upper_hex n)"
    by (auto simp: upper_hex_def path_safe_def Let_def)
  moreover have "of_char d div 16 < (16 :: nat)" by (simp add: less_mult_imp_div_less)
  moreover assume "c \<in> set (escape_char d)"
  ultimately show ?thesis by (auto simp: escape_char_def split: if_splits)
qed

lemma slash_not_safe: "\<not> path_safe (CHR ''/'')"
  by code_simp

lemma PathEscape_safe: "c \<in> set (PathEscape s) \<Longrightarrow> path_safe c \<or> c = CHR ''%''"
  using escape_char_safe by (auto simp: PathEscape_def)

lemma PathEscape_no_slash: "CHR ''/'' \<notin> set (PathEscape s)"
  using PathEscape_safe slash_not_safe by fastforce

lemma dot_safe: "path_safe (CHR ''.'')"
  by code_simp

lemma PathEscape_dots: "PathEscape s = ''..'' \<longleftrightarrow> s = ''..''"
proof
  assume e: "PathEscape s = ''..''"
  have one: "escape_char c = [c] \<or> (\<exists>x y. escape_char c = [CHR ''%'', x, y])" for c
    by (simp add: escape_char_def)
  obtain c s1 where s: "s = c # s1" using e by (cases s) (auto simp: PathEscape_def)
  have c: "escape_char c = [c]" "c = CHR ''.''" "PathEscape s1 = ''.''"
    using e one [of c] by (auto simp: s PathEscape_def)
  obtain d s2 where s1: "s1 = d # s2" using c(3) by (cases s1) (auto simp: PathEscape_def)
  have d: "d = CHR ''.''" "PathEscape s2 = ''''"
    using c(3) one [of d] by (auto simp: s1 PathEscape_def)
  have "s2 = ''''"
  proof (cases s2)
    case (Cons x xs)
    with d(2) one [of x] show ?thesis by (auto simp: PathEscape_def)
  qed
  then show "s = ''..''" using s s1 c(2) d(1) by simp
next
  assume "s = ''..''"
  then show "PathEscape s = ''..''" using dot_safe by (simp add: PathEscape_def escape_char_def)
qed

text \<open>The components of a normalized path are the escaped components of the cleaned one.\<close>

lemma normalizePath_Inr:
  assumes "normalizePath p = Inr q"
  obtains cp where "cp = (if HasPrefix (Clean p) ''/'' then Clean p else CHR ''/'' # Clean p)"
    and "q = Join ''/'' (map PathEscape (Split (CHR ''/'') cp))" and "\<not> Contains p ''..''" and "p \<noteq> ''''"
    and "length cp \<le> MaxPathLength" and "ValidString p" and "\<not> list_ex control_rune (range_runes p)"
proof -
  have esc: "(\<lambda>part. if part \<noteq> '''' then PathEscape part else part) = PathEscape"
    by (auto simp: PathEscape_def)
  show thesis
    using assms that unfolding normalizePath_def Let_def esc
    by (auto split: if_splits)
qed

lemma normalizePath_Split:
  assumes "normalizePath p = Inr q"
    and "cp = (if HasPrefix (Clean p) ''/'' then Clean p else CHR ''/'' # Clean p)"
  shows "Split (CHR ''/'') q = map PathEscape (Split (CHR ''/'') cp)"
  using assms(1)
proof (rule normalizePath_Inr)
  fix cp'
  assume c: "cp' = (if HasPrefix (Clean p) ''/'' then Clean p else CHR ''/'' # Clean p)"
    and q: "q = Join ''/'' (map PathEscape (Split (CHR ''/'') cp'))"
  have "cp' = cp" using c assms(2) by simp
  then show ?thesis unfolding q using PathEscape_no_slash by (subst Split_Join) auto
qed

lemma cleaned_no_parent:
  assumes "\<not> Contains p ''..''"
  shows "''..'' \<notin> set (Split (CHR ''/'') (if HasPrefix (Clean p) ''/'' then Clean p else CHR ''/'' # Clean p))"
  using Clean_parts_no_dots [OF assms, of "''..''"] by auto

interpretation webdav_path: path_guard normalizePath
proof unfold_locales
  fix p q
  assume n: "normalizePath p = Inr q"
  then have "\<not> Contains p ''..''" by (rule normalizePath_Inr)
  let ?cp = "if HasPrefix (Clean p) ''/'' then Clean p else CHR ''/'' # Clean p"
  have np: "''..'' \<notin> set (Split (CHR ''/'') ?cp)"
    by (rule cleaned_no_parent) fact
  have "''..'' \<notin> PathEscape ` set (Split (CHR ''/'') ?cp)"
  proof
    assume "''..'' \<in> PathEscape ` set (Split (CHR ''/'') ?cp)"
    then obtain x where x: "x \<in> set (Split (CHR ''/'') ?cp)" "PathEscape x = ''..''" unfolding image_iff by metis
    have "x = ''..''" using x(2) unfolding PathEscape_dots .
    with x(1) np show False by blast
  qed
  then show "''..'' \<notin> set (Split (CHR ''/'') q)"
    unfolding normalizePath_Split [OF n refl] set_map .
qed

text \<open>What a server makes of a path: \<open>%\<close> and two hexadecimal digits stand for a byte
  (\<open>url.PathUnescape\<close>). It is defined on its own, not from the table of \<open>PathEscape\<close>.\<close>

definition hex_value :: "char \<Rightarrow> nat option" where
  "hex_value c = (let n = of_char c :: nat in
     if 48 \<le> n \<and> n \<le> 57 then Some (n - 48)
     else if 65 \<le> n \<and> n \<le> 70 then Some (n - 55)
     else if 97 \<le> n \<and> n \<le> 102 then Some (n - 87) else None)"

fun PathUnescape :: "string \<Rightarrow> string option" where
  "PathUnescape [] = Some []"
| "PathUnescape (c # s) =
     (if c \<noteq> CHR ''%'' then map_option ((#) c) (PathUnescape s)
      else case s of
        a # b # t \<Rightarrow>
          (case (hex_value a, hex_value b) of
             (Some x, Some y) \<Rightarrow> map_option ((#) (char_of (16 * x + y))) (PathUnescape t)
           | _ \<Rightarrow> None)
      | _ \<Rightarrow> None)"

lemma unescape_escape_char: "PathUnescape (escape_char c @ s) = map_option ((#) c) (PathUnescape s)"
proof (cases "path_safe c")
  case True
  moreover have "\<not> path_safe (CHR ''%'')" by code_simp
  ultimately show ?thesis by (auto simp: escape_char_def)
next
  case False
  have "\<forall>n < 16. hex_value (upper_hex n) = Some n" by (auto simp: hex_value_def upper_hex_def Let_def)
  moreover have "of_char c div 16 < (16 :: nat)" "of_char c mod 16 < (16 :: nat)"
    by (simp_all add: less_mult_imp_div_less)
  ultimately have "hex_value (upper_hex (of_char c div 16)) = Some (of_char c div 16)"
    and "hex_value (upper_hex (of_char c mod 16)) = Some (of_char c mod 16)" by blast+
  with False show ?thesis by (simp add: escape_char_def)
qed

lemma unescape_PathEscape: "PathUnescape (PathEscape s @ t) = map_option ((@) s) (PathUnescape t)"
proof (induction s)
  case (Cons c s)
  then show ?case by (simp add: PathEscape_def unescape_escape_char option.map_comp comp_def)
qed (simp add: PathEscape_def option.map_ident)

lemma unescape_Join: "PathUnescape (Join ''/'' (map PathEscape ps)) = Some (Join ''/'' ps)"
proof (induction ps rule: induct_list012)
  case (2 p)
  show ?case using unescape_PathEscape [of p "[]"] by simp
next
  case (3 p p' ps)
  then show ?case by (simp add: unescape_PathEscape)
qed simp


definition sent_chars :: string where
  "sent_chars = ''ABCDEFGHIJKLMNOPQRSTUVWXYZabcdefghijklmnopqrstuvwxyz0123456789-_.~$&+=:@''"

lemma path_safe_sent:
  assumes "path_safe c"
  shows "c \<in> set sent_chars"
proof -
  have r: "list_all (\<lambda>n. (char_of (48 + n) :: char) \<in> set sent_chars) [0..<10]"
    "list_all (\<lambda>n. (char_of (65 + n) :: char) \<in> set sent_chars) [0..<26]"
    "list_all (\<lambda>n. (char_of (97 + n) :: char) \<in> set sent_chars) [0..<26]" by code_simp+
  define n where "n = (of_char c :: nat)"
  have c: "c = char_of n" by (simp add: n_def)
  consider "48 \<le> n" "n - 48 < 10" | "65 \<le> n" "n - 65 < 26" | "97 \<le> n" "n - 97 < 26" | "c \<in> set ''-_.~$&+=:@''"
    using assms unfolding path_safe_def Let_def n_def [symmetric] by linarith
  then show ?thesis
  proof cases
    case 1
    with r(1) show ?thesis by (metis c atLeastLessThan_iff le_add_diff_inverse list_all_iff set_upt zero_le)
  next
    case 2
    with r(2) show ?thesis by (metis c atLeastLessThan_iff le_add_diff_inverse list_all_iff set_upt zero_le)
  next
    case 3
    with r(3) show ?thesis by (metis c atLeastLessThan_iff le_add_diff_inverse list_all_iff set_upt zero_le)
  qed (auto simp: sent_chars_def)
qed

text \<open>C19. A path the WebDAV client accepts is sent as a rooted path made only of slashes, percent
  escapes, letters, digits and the marks \<open>- _ . ~ $ & + = : @\<close>: no space, control character,
  quote, query or fragment mark reaches the URL. It has no parent reference; a server that decodes
  it reads the cleaned path, which has none either; and joined to any root it stays below that
  root.\<close>

theorem normalized_path_is_safe:
  assumes "normalizePath p = Inr q"
  shows "HasPrefix q ''/'' \<and> set q \<subseteq> set sent_chars \<union> set ''%/''
     \<and> ''..'' \<notin> set (Split (CHR ''/'') q)
     \<and> (let cleaned = (if HasPrefix (Clean p) ''/'' then Clean p else CHR ''/'' # Clean p)
        in PathUnescape q = Some cleaned \<and> ''..'' \<notin> set (Split (CHR ''/'') cleaned))
     \<and> (IsAbs root \<longrightarrow> below root (JoinPath [root, q]))"
  using assms
proof (rule normalizePath_Inr)
  fix cp
  assume c: "cp = (if HasPrefix (Clean p) ''/'' then Clean p else CHR ''/'' # Clean p)"
    and q: "q = Join ''/'' (map PathEscape (Split (CHR ''/'') cp))" and nd: "\<not> Contains p ''..''"
  have "\<exists>t. cp = CHR ''/'' # t" using c by (auto simp: prefix_def)
  then obtain t where t: "cp = CHR ''/'' # t" by blast
  have "q = Join ''/'' ('''' # map PathEscape (Split (CHR ''/'') t))"
    by (simp add: q t PathEscape_def)
  then have "HasPrefix q ''/''" by (cases "Split (CHR ''/'') t") auto
  moreover have "set q \<subseteq> {CHR ''/''} \<union> (\<Union>s. set (PathEscape s))"
    unfolding q using set_Join [of "''/''" "map PathEscape (Split (CHR ''/'') cp)"] by auto
  then have "set q \<subseteq> set sent_chars \<union> set ''%/''"
    using PathEscape_safe path_safe_sent by fastforce
  moreover have "PathUnescape q = Some cp" unfolding q by (simp add: unescape_Join Join_Split)
  moreover have "''..'' \<notin> set (Split (CHR ''/'') cp)" unfolding c by (rule cleaned_no_parent [OF nd])
  moreover have "''..'' \<notin> set (Split (CHR ''/'') q)" by (rule webdav_path.guard_no_parent [OF assms])
  moreover have "IsAbs root \<longrightarrow> below root (JoinPath [root, q])"
    using webdav_path.guard_below [OF assms] by blast
  ultimately show ?thesis unfolding Let_def c [symmetric] by blast
qed

theorem normalized_path_is_safe_witness:
  "normalizePath ''scans//2024 Q1/./a&b?c#d.pdf'' = Inr ''/scans/2024%20Q1/a&b%3Fc%23d.pdf''
     \<and> HasPrefix ''/scans/2024%20Q1/a&b%3Fc%23d.pdf'' ''/''
     \<and> PathUnescape ''/scans/2024%20Q1/a&b%3Fc%23d.pdf'' = Some ''/scans/2024 Q1/a&b?c#d.pdf''"
proof -
  have n: "normalizePath ''scans//2024 Q1/./a&b?c#d.pdf'' = Inr ''/scans/2024%20Q1/a&b%3Fc%23d.pdf''" by code_simp
  have "(let cleaned = (if HasPrefix (Clean ''scans//2024 Q1/./a&b?c#d.pdf'') ''/'' then Clean ''scans//2024 Q1/./a&b?c#d.pdf''
      else CHR ''/'' # Clean ''scans//2024 Q1/./a&b?c#d.pdf'') in cleaned) = ''/scans/2024 Q1/a&b?c#d.pdf''" by code_simp
  with normalized_path_is_safe [OF n, of "''/''"] n show ?thesis unfolding Let_def by simp
qed

section \<open>A network that is silent\<close>

text \<open>Under a context that is done, no operation of the client reaches the outside world, and no
  upload succeeds.\<close>

lemma with_ctx_False [simp]: "with_ctx False net = net"
  by (simp add: with_ctx_def)

lemma silent_control: "snd (control_op (with_ctx True net) c m adjust hs path w) = w"
  by (simp add: control_op_def with_ctx_def Let_def split: sum.split option.split)

lemma mkcol_state: "snd (CreateDirectory net c path st) =
    snd (control_op net c ''MKCOL'' (\<lambda>np. if HasSuffix np ''/'' then np else np @ ''/'') [] path st)"
  unfolding CreateDirectory_def Let_def by (simp split: sum.split prod.split)

lemma existence_state: "snd (CheckPathExistence net c path st) = snd (control_op net c ''HEAD'' (\<lambda>np. np) [] path st)"
  unfolding CheckPathExistence_def Let_def by (simp split: sum.split prod.split)

lemma silent_existence: "snd (CheckPathExistence (with_ctx True net) c path w) = w"
  by (simp add: existence_state silent_control)

lemma silent_mkcol: "snd (CreateDirectory (with_ctx True net) c path w) = w"
  by (simp add: mkcol_state silent_control)

lemma silent_doUpload:
  "\<exists>e b'. doUpload (with_ctx True net) c url b sz ow np w = ((Some e, b'), w)"
  by (simp add: doUpload_def with_ctx_def split: option.split)

lemma silent_attempts:
  "attempts (with_ctx True net) c url sz ow np k left le b w = ((e, b'), w') \<Longrightarrow>
     (1 < k \<longrightarrow> le \<noteq> None) \<Longrightarrow> e \<noteq> None \<and> w' = w"
proof (induction left arbitrary: k le b w)
  case (Suc left)
  have p: "snd (prepare (with_ctx True net) k le b w) = w"
    by (simp add: prepare_def with_ctx_def split: option.split)
  obtain x where x: "prepare (with_ctx True net) k le b w = (x, w)" using p by (metis prod.collapse)
  show ?case
  proof (cases x)
    case (Inl e1)
    with Suc.prems x show ?thesis
      by (auto simp: prepare_def split: if_splits option.splits prod.splits bool.splits)
  next
    case (Inr b1)
    obtain e2 b2 where d: "doUpload (with_ctx True net) c url b1 sz ow np w = ((Some e2, b2), w)"
      using silent_doUpload [of net c url b1 sz ow np w] by blast
    show ?thesis
    proof (cases "errors_is e2 ErrTemporaryFailure")
      case True
      then have "attempts (with_ctx True net) c url sz ow np (Suc k) left (Some e2) b2 w = ((e, b'), w')"
        using Suc.prems(1) x Inr d by simp
      then show ?thesis by (rule Suc.IH) simp
    next
      case False
      then show ?thesis using Suc.prems(1) x Inr d by auto
    qed
  qed
qed auto

lemma silent_UploadStream:
  assumes "UploadStream (with_ctx True net) c path rd sz ow w = ((e, b'), w')"
  shows "e \<noteq> None \<and> w' = w"
  using assms
  by (auto simp: UploadStream_def split: if_splits option.splits sum.splits prod.splits dest: silent_attempts)

section \<open>The requests of an upload\<close>

text \<open>The same network with a log of every request sent and what came back.\<close>

type_synonym exchange = "request \<times> (goerror + response)"

definition logged :: "'w net \<Rightarrow> ('w \<times> exchange list) net" where
  "logged net =
     \<lparr>do_request = (\<lambda>rq (w, log). case do_request net rq w of ((r, n), w') \<Rightarrow> ((r, n), (w', log @ [(rq, r)]))),
      pause = (\<lambda>ms (w, log). case pause net ms w of (d, w') \<Rightarrow> (d, (w', log))),
      parse_url = parse_url net\<rparr>"

text \<open>A control operation sends at most one request, and the log does not change what it returns.\<close>

lemma control_logged:
  assumes "control_op (logged net) c m adjust hs path (w, log) = (r, (w', log'))"
  shows "length log' \<le> Suc (length log)" and "control_op net c m adjust hs path w = (r, w')"
  using assms
  by (auto simp: control_op_def full_url_def logged_def Let_def split: if_splits sum.splits option.splits prod.splits)

definition accepted_by_server :: "goerror + response \<Rightarrow> bool" where
  "accepted_by_server r = (case r of Inl e \<Rightarrow> False | Inr resp \<Rightarrow> ok_status (rs_status resp))"

text \<open>A complete upload request: a PUT of the whole content, conditional unless overwriting.\<close>

definition whole_put :: "webdavClient \<Rightarrow> string \<Rightarrow> int \<Rightarrow> bool \<Rightarrow> request \<Rightarrow> bool" where
  "whole_put c content sz overwrite rq \<longleftrightarrow>
     rq_method rq = ''PUT'' \<and> rq_auth rq = (username c, token c) \<and> rq_length rq = sz
     \<and> rq_body rq = Some (if sz = 0 then '''' else content)
     \<and> (map_of (rq_headers rq) ''If-None-Match'' = (if overwrite then None else Some ''*''))"

definition fresh_body :: "body \<Rightarrow> bool" where
  "fresh_body b \<longleftrightarrow> bd_pos b = 0 \<and> \<not> bd_closed b"

lemma handleUploadResponse_None: "handleUploadResponse resp np = None \<longleftrightarrow> ok_status (rs_status resp)"
  by (simp add: handleUploadResponse_def Let_def)

lemma doUpload_logged:
  assumes "doUpload (logged net) c url b sz ow np (w, log) = ((e, b'), (w', log'))" and "fresh_body b"
  shows "(log' = log \<and> e \<noteq> None \<and> b' = b)
    \<or> (\<exists>rq r n. log' = log @ [(rq, r)] \<and> whole_put c (bd_content b) sz ow rq \<and> b' = body_after b sz n
          \<and> (e = None \<longleftrightarrow> accepted_by_server r))"
proof (cases "parse_url net url")
  case None
  then show ?thesis using assms(1) by (auto simp: doUpload_def logged_def)
next
  case (Some url')
  obtain r n v where d: "do_request net (upload_request c url' b sz ow) w = ((r, n), v)"
    by (metis prod.collapse)
  have wp: "whole_put c (bd_content b) sz ow (upload_request c url' b sz ow)"
    using assms(2) by (simp add: whole_put_def upload_request_def fresh_body_def)
  show ?thesis
    using assms(1) Some d wp
    by (cases r) (auto simp: doUpload_def logged_def accepted_by_server_def handleUploadResponse_None)
qed

lemma prepare_logged:
  assumes "prepare (logged net) k le b (w, log) = (x, (w1, log1))" and "1 < k \<longrightarrow> le \<noteq> None"
    and "k \<le> 1 \<longrightarrow> fresh_body b"
  shows "log1 = log \<and> (\<forall>e. x = Inl e \<longrightarrow> e \<noteq> None)
    \<and> (\<forall>b1. x = Inr b1 \<longrightarrow> fresh_body b1 \<and> bd_content b1 = bd_content b \<and> bd_closer b1 = bd_closer b
          \<and> (1 < k \<longrightarrow> \<not> bd_closed b \<and> bd_seeker b))"
  using assms
  by (auto simp: prepare_def logged_def rewind_def fresh_body_def split: option.splits prod.splits if_splits bool.splits)

lemma body_after_content [simp]:
  "bd_content (body_after b sz n) = bd_content b" "bd_closer (body_after b sz n) = bd_closer b"
  by (simp_all add: body_after_def)

lemma body_after_closed: "bd_closer b \<Longrightarrow> sz \<noteq> 0 \<Longrightarrow> bd_closed (body_after b sz n)"
  by (simp add: body_after_def)

lemma attempts_logged:
  "attempts (logged net) c url sz ow np k left le b (w, log) = ((e, b'), (w', log')) \<Longrightarrow>
     1 \<le> k \<Longrightarrow> (1 < k \<longrightarrow> le \<noteq> None) \<Longrightarrow> (k \<le> 1 \<longrightarrow> fresh_body b) \<Longrightarrow>
     \<exists>new. log' = log @ new \<and> length new \<le> left \<and> (\<forall>x \<in> set new. whole_put c (bd_content b) sz ow (fst x))
       \<and> (e = None \<longleftrightarrow> new \<noteq> [] \<and> accepted_by_server (snd (last new)))
       \<and> (\<forall>x \<in> set (butlast new). \<not> accepted_by_server (snd x))"
proof (induction left arbitrary: k le b w log)
  case 0
  then show ?case by auto
next
  case (Suc left)
  obtain x w1 log1 where p: "prepare (logged net) k le b (w, log) = (x, (w1, log1))"
    by (metis prod.collapse)
  note P = prepare_logged [OF p Suc.prems(3,4)]
  show ?case
  proof (cases x)
    case (Inl e1)
    with Suc.prems(1) p P show ?thesis by auto
  next
    case (Inr b1)
    obtain e2 b2 w2 log2 where d: "doUpload (logged net) c url b1 sz ow np (w1, log1) = ((e2, b2), (w2, log2))"
      by (metis prod.collapse)
    from P Inr have fb: "fresh_body b1" "bd_content b1 = bd_content b" "log1 = log" by auto
    have D: "(log2 = log \<and> e2 \<noteq> None \<and> b2 = b1)
      \<or> (\<exists>rq r n. log2 = log @ [(rq, r)] \<and> whole_put c (bd_content b) sz ow rq \<and> b2 = body_after b1 sz n
          \<and> (e2 = None \<longleftrightarrow> accepted_by_server r))"
      using doUpload_logged [OF d fb(1)] fb(2,3) by simp
    show ?thesis
    proof (cases "\<exists>e3. e2 = Some e3 \<and> errors_is e3 ErrTemporaryFailure")
      case False
      then have "e = e2 \<and> log' = log2"
        using Suc.prems(1) p Inr d by (cases e2) auto
      then show ?thesis using D by auto
    next
      case True
      then obtain e3 where e3: "e2 = Some e3" "errors_is e3 ErrTemporaryFailure" by blast
      have rec: "attempts (logged net) c url sz ow np (Suc k) left (Some e3) b2 (w2, log2) = ((e, b'), (w', log'))"
        using Suc.prems(1) p Inr d e3 by simp
      obtain new where new: "log' = log2 @ new" "length new \<le> left"
        "\<forall>x \<in> set new. whole_put c (bd_content b2) sz ow (fst x)"
        "e = None \<longleftrightarrow> new \<noteq> [] \<and> accepted_by_server (snd (last new))"
        "\<forall>x \<in> set (butlast new). \<not> accepted_by_server (snd x)"
        using Suc.IH [OF rec] Suc.prems(2) by auto
      from D show ?thesis
      proof (elim disjE exE conjE)
        assume "log2 = log" "b2 = b1"
        then show ?thesis using new fb by (intro exI [of _ new]) auto
      next
        fix rq r n
        assume l: "log2 = log @ [(rq, r)]" "whole_put c (bd_content b) sz ow rq" "b2 = body_after b1 sz n"
          "(e2 = None) = accepted_by_server r"
        then show ?thesis using new fb e3 by (intro exI [of _ "(rq, r) # new"]) auto
      qed
    qed
  qed
qed

lemma UploadStream_logged:
  assumes "UploadStream (logged net) c path (Some b) sz ow (w, log0) = ((e, b'), (w', log'))" and "fresh_body b"
  shows "\<exists>log. log' = log0 @ log \<and> length log \<le> 3 \<and> (\<forall>x \<in> set log. whole_put c (bd_content b) sz ow (fst x))
     \<and> (e = None \<longleftrightarrow> log \<noteq> [] \<and> accepted_by_server (snd (last log)))
     \<and> (\<forall>x \<in> set (butlast log). \<not> accepted_by_server (snd x))"
proof (cases "path = '''' \<or> (\<exists>e. normalizePath path = Inl e)
    \<or> (\<exists>np. normalizePath path = Inr np \<and> full_url (logged net) c np = None)")
  case True
  then have "log' = log0 \<and> e \<noteq> None"
    using assms(1) by (auto simp: UploadStream_def split: if_splits)
  then show ?thesis by auto
next
  case False
  then obtain np url where np: "path \<noteq> ''''" "normalizePath path = Inr np" "full_url (logged net) c np = Some url"
    by (cases "normalizePath path") auto
  obtain e2 b2 w2 where a: "attempts (logged net) c url sz ow np 1 3 None b (w, log0) = ((e2, b2), w2)"
    by (metis prod.collapse)
  then have "e2 = e" "w2 = (w', log')" using assms(1) np by (auto simp: UploadStream_def uploadMaxAttempts_def)
  with a have "attempts (logged net) c url sz ow np 1 3 None b (w, log0) = ((e, b2), (w', log'))" by simp
  from attempts_logged [OF this] assms(2) show ?thesis by auto
qed

text \<open>C18. An upload sends at most three requests. Each is a PUT with the client's credentials, the
  declared length and the whole content, and \<open>If-None-Match: *\<close> unless overwriting was asked
  for. It reports success exactly when the last of them was accepted with a 2xx status, and no
  request follows an accepted one.\<close>

theorem upload_requests_whole_and_bounded:
  assumes "UploadStream (logged net) c path (Some b) sz ow (w, []) = ((e, b'), (w', log))"
    and "bd_pos b = 0" and "\<not> bd_closed b"
  shows "length log \<le> 3 \<and> (\<forall>x \<in> set log. whole_put c (bd_content b) sz ow (fst x))
     \<and> (e = None \<longleftrightarrow> log \<noteq> [] \<and> accepted_by_server (snd (last log)))
     \<and> (\<forall>x \<in> set (butlast log). \<not> accepted_by_server (snd x))"
  using UploadStream_logged [OF assms(1)] assms(2,3) by (simp add: fresh_body_def)

text \<open>A server for the examples: it answers with the statuses in its list, one per request.\<close>

definition scripted :: "int list net" where
  "scripted = \<lparr>do_request = (\<lambda>rq w. case w of
       [] \<Rightarrow> ((Inl (Opaque ''connection refused''), 0), [])
     | st # sts \<Rightarrow> ((Inr \<lparr>rs_status = st, rs_body = ''''\<rparr>, case rq_body rq of None \<Rightarrow> 0 | Some x \<Rightarrow> length x), sts)),
     pause = (\<lambda>ms w. (False, w)), parse_url = Some\<rparr>"

definition memory_body :: "string \<Rightarrow> body" where
  "memory_body x = \<lparr>bd_content = x, bd_pos = 0, bd_seeker = True, bd_closer = False, bd_closed = False\<rparr>"

definition file_body :: "string \<Rightarrow> body" where
  "file_body x = \<lparr>bd_content = x, bd_pos = 0, bd_seeker = True, bd_closer = True, bd_closed = False\<rparr>"

definition a_client :: webdavClient where
  "a_client = NewWebDAVClient ''https://ocis/dav/'' ''bridge'' ''secret''"

theorem upload_requests_whole_and_bounded_witness:
  "case UploadStream (logged scripted) a_client ''/a b.pdf'' (Some (memory_body ''hello'')) 5 False ([503, 201], []) of
     ((e, b'), (w', log)) \<Rightarrow> e = None \<and> length log = 2 \<and> (\<forall>x \<in> set log. rq_body (fst x) = Some ''hello'')"
proof -
  let ?u = "UploadStream (logged scripted) a_client ''/a b.pdf'' (Some (memory_body ''hello'')) 5 False ([503, 201], [])"
  obtain e b' w' log where u: "?u = ((e, b'), (w', log))" by (metis prod.collapse)
  have "length (snd (snd ?u)) = 2" by code_simp
  moreover have "fst (fst ?u) = None" by code_simp
  moreover have "\<forall>x \<in> set log. whole_put a_client ''hello'' 5 False (fst x)"
    using upload_requests_whole_and_bounded [OF u] by (simp add: memory_body_def)
  ultimately show ?thesis by (auto simp: u whole_put_def)
qed

text \<open>A body that the transport closes, such as the open spool file the driver passes, gets a
  single attempt: after a temporary failure the rewind fails, and no retry is ever sent.\<close>

theorem closed_body_is_not_retried:
  assumes u: "UploadStream (logged net) c path (Some b) sz ow (w, []) = ((e, b'), (w', log))"
    and "bd_closer b" and "sz \<noteq> 0"
  shows "length log \<le> 1"
proof -
  have once: "length log' \<le> Suc (length log0)"
    if "attempts (logged net) c url sz ow np 1 (Suc (Suc left)) None b (w, log0) = ((e, b'), (w', log'))" for url np left log0 e b' w' log'
  proof -
    obtain e2 b2 w2 log2 where d: "doUpload (logged net) c url b sz ow np (w, log0) = ((e2, b2), (w2, log2))"
      by (metis prod.collapse)
    have l2: "length log2 \<le> Suc (length log0)" and cl: "log2 = log0 \<or> bd_closed b2"
      using d body_after_closed [of b sz] assms(2,3)
      by (auto simp: doUpload_def logged_def split: option.splits prod.splits sum.splits)
    show ?thesis
    proof (cases "\<exists>e3. e2 = Some e3 \<and> errors_is e3 ErrTemporaryFailure")
      case False
      then have "log' = log2" using that d by (cases e2) (auto simp: prepare_def)
      then show ?thesis using l2 by simp
    next
      case True
      then obtain e3 where e3: "e2 = Some e3" "errors_is e3 ErrTemporaryFailure" by blast
      have "log2 \<noteq> log0"
        using d e3 by (auto simp: doUpload_def logged_def url_error_def ErrTemporaryFailure_def split: option.splits prod.splits sum.splits)
      with cl have "bd_closed b2" by blast
      then have "log' = log2"
        using that d e3 by (auto simp: prepare_def rewind_def split: if_splits)
      then show ?thesis using l2 by simp
    qed
  qed
  show ?thesis
  proof (cases "path = '''' \<or> (\<exists>e. normalizePath path = Inl e)
      \<or> (\<exists>np. normalizePath path = Inr np \<and> full_url (logged net) c np = None)")
    case True
    then have "log = []" using u by (auto simp: UploadStream_def split: if_splits)
    then show ?thesis by simp
  next
    case False
    then obtain np url where np: "path \<noteq> ''''" "normalizePath path = Inr np" "full_url (logged net) c np = Some url"
      by (cases "normalizePath path") auto
    obtain e2 b2 w2 where a: "attempts (logged net) c url sz ow np 1 (Suc (Suc 1)) None b (w, []) = ((e2, b2), w2)"
      by (metis prod.collapse)
    have "w2 = (w', log)" using u np a by (auto simp: UploadStream_def uploadMaxAttempts_def eval_nat_numeral)
    with a once show ?thesis by fastforce
  qed
qed

theorem closed_body_is_not_retried_witness:
  "case UploadStream (logged scripted) a_client ''/f.pdf'' (Some (file_body ''hello'')) 5 False ([503, 201], []) of
     ((e, b'), (w', log)) \<Rightarrow> e \<noteq> None \<and> length log \<le> 1"
proof -
  let ?u = "UploadStream (logged scripted) a_client ''/f.pdf'' (Some (file_body ''hello'')) 5 False ([503, 201], [])"
  obtain e b' w' log where u: "?u = ((e, b'), (w', log))" by (metis prod.collapse)
  have "fst (fst ?u) \<noteq> None" by code_simp
  moreover have "length log \<le> 1" using closed_body_is_not_retried [OF u] by (simp add: file_body_def)
  ultimately show ?thesis by (simp add: u)
qed

end
