(* ===== verification/Transfers.thy ===== *)
theory Transfers
  imports WebdavProps OsFiles
begin

text \<open>
  Path mapping, collision handling and directory creation (\<open>pkg/transfer/transfer.go\<close>). The
  manager's maps are association lists, its WebDAV client is optional, and requests go through
  the \<open>net\<close> parameter of theory Webdav, on a state \<open>'w\<close> of the outside world: it is the network
  under the manager's context, so the callers pass \<open>with_ctx\<close> of whether \<open>tm_context\<close> is done.
  \<open>time.Now()\<close>, which only the rename policy reads, is the argument \<open>clock\<close>.
\<close>

section \<open>Data\<close>

type_synonym CollisionPolicy = string

definition CollisionPolicyRename :: CollisionPolicy where "CollisionPolicyRename = ''rename''"
definition CollisionPolicyReject :: CollisionPolicy where "CollisionPolicyReject = ''reject''"
definition CollisionPolicyOverwrite :: CollisionPolicy where "CollisionPolicyOverwrite = ''overwrite''"

lemmas policy_defs = CollisionPolicyRename_def CollisionPolicyReject_def CollisionPolicyOverwrite_def

record TargetConfig =
  tc_driveID :: string
  tc_drive :: string
  tc_root :: string
  tc_policy :: CollisionPolicy
  tc_maxSize :: uint64

record TransferRequest =
  tr_userID :: string
  tr_filename :: string
  tr_path :: string
  tr_size :: int
  tr_data :: string
  tr_reader :: "body option"

record TransferResult =
  ts_targetPath :: string
  ts_filename :: string
  ts_size :: int
  ts_success :: bool
  ts_error :: "goerror option"

record TransferManager =
  targetConfigs :: "(string \<times> TargetConfig) list"
  uploadCounters :: "(string \<times> uint64) list"
  tm_client :: "webdavClient option"
  tm_context :: ctx

text \<open>The background context is the empty one.\<close>

definition NewTransferManager :: TransferManager where
  "NewTransferManager = \<lparr>targetConfigs = [], uploadCounters = [], tm_client = None, tm_context = []\<rparr>"

definition NewTransferManagerWithWebDAV :: "ctx \<Rightarrow> webdavClient option \<Rightarrow> TransferManager" where
  "NewTransferManagerWithWebDAV ctx c =
     \<lparr>targetConfigs = [], uploadCounters = [], tm_client = c, tm_context = ctx\<rparr>"

definition SetWebDAVClient :: "webdavClient option \<Rightarrow> TransferManager \<Rightarrow> TransferManager" where
  "SetWebDAVClient c tm = tm\<lparr>tm_client := c\<rparr>"

definition AddTarget :: "string \<Rightarrow> TargetConfig \<Rightarrow> TransferManager \<Rightarrow> TransferManager" where
  "AddTarget u cfg tm = tm\<lparr>targetConfigs := aput u cfg (targetConfigs tm)\<rparr>"

definition GetTarget :: "string \<Rightarrow> TransferManager \<Rightarrow> TargetConfig option" where
  "GetTarget u tm = map_of (targetConfigs tm) u"

section \<open>Path mapping\<close>

text \<open>The backslash.\<close>

abbreviation bsl :: char where
  "bsl \<equiv> CHR 0x5C"

definition traversal_patterns :: "string list" where
  "traversal_patterns = [''..'', ''/..'', ''../'', [bsl] @ ''..'' @ [bsl], ''..'' @ [bsl]]"

definition rooted_or_drive :: "string \<Rightarrow> bool" where
  "rooted_or_drive p \<longleftrightarrow> HasPrefix p ''/'' \<or> HasPrefix p [bsl] \<or> (2 \<le> length p \<and> p ! 1 = CHR '':'')"

definition normalizeFTPPath :: "string \<Rightarrow> goerror + string" where
  "normalizeFTPPath path =
     (if path = '''' \<or> path = ''.'' \<or> path = ''/'' then Inr ''''
      else if list_ex (Contains path) traversal_patterns then Inl (PathTraversal path)
      else if rooted_or_drive path then Inl (PathTraversal path)
      else
        let path = TrimLeft path (''/'' @ [bsl]) in
        if path = '''' then Inr ''''
        else
          let cleanPath = Clean path in
          if Contains cleanPath ''..'' then Inl (PathTraversal path)
          else if IsAbs cleanPath then Inl (PathTraversal path)
          else if length cleanPath > 4096 then
            Inl (Opaque (''path too long: '' @ itoa (length cleanPath) @ '' characters (max 4096)''))
          else Inr cleanPath)"

definition safe_rune :: "nat \<Rightarrow> nat" where
  "safe_rune r = (if 32 \<le> r \<and> r \<noteq> 127 then r else 95)"

definition filename_traversal :: "string \<Rightarrow> bool" where
  "filename_traversal f \<longleftrightarrow>
     f = ''..'' \<or> HasPrefix f ''../'' \<or> Contains f ''/../'' \<or> Contains f ''/..'' \<or> HasSuffix f ''/..''"

definition sanitizeFilename :: "string \<Rightarrow> goerror + string" where
  "sanitizeFilename filename =
     (if filename = '''' then Inl (InvalidInput ''filename cannot be empty'' None)
      else if filename_traversal filename then Inl (PathTraversal filename)
      else if rooted_or_drive filename then Inl (PathTraversal filename)
      else
        let base = Base filename in
        if base = ''..'' then Inl (Opaque (''filename contains path traversal: '' @ filename))
        else
          let result = WriteRunes (map safe_rune (range_runes base)) in
          if result = '''' then Inr ''unnamed''
          else if RuneCount result > 255 then
            Inl (Opaque (''filename too long: '' @ itoa (RuneCount result) @ '' characters (max 255)''))
          else Inr result)"

definition absolutized :: "string \<Rightarrow> string" where
  "absolutized p = (if IsAbs (Clean p) then Clean p else CHR ''/'' # Clean p)"

definition validateTargetPath :: "string \<Rightarrow> string \<Rightarrow> goerror option" where
  "validateTargetPath targetPath targetRoot =
     (let cleanRoot = absolutized targetRoot; cleanPath = absolutized targetPath in
      if cleanPath = cleanRoot then None
      else
        let cleanRoot = (if HasSuffix cleanRoot ''/'' then cleanRoot else cleanRoot @ ''/'') in
        if HasPrefix cleanPath cleanRoot then None
        else Some (PathTraversal (targetPath @ '' is outside '' @ targetRoot)))"

definition CalculateTargetPath :: "string \<Rightarrow> string \<Rightarrow> string \<Rightarrow> TransferManager \<Rightarrow> goerror + string" where
  "CalculateTargetPath userID ftpPath filename tm =
     (case GetTarget userID tm of
        None \<Rightarrow> Inl (NotFound ''target configuration'' userID)
      | Some config \<Rightarrow>
          (case (if ftpPath \<noteq> '''' \<and> ftpPath \<noteq> ''.'' \<and> ftpPath \<noteq> ''/''
                 then (case normalizeFTPPath ftpPath of
                         Inl e \<Rightarrow> Inl e
                       | Inr np \<Rightarrow> Inr (JoinPath [tc_root config, np]))
                 else Inr (tc_root config)) of
             Inl e \<Rightarrow> Inl e
           | Inr p1 \<Rightarrow>
               (case (if filename \<noteq> ''''
                      then (case sanitizeFilename filename of
                              Inl e \<Rightarrow> Inl e
                            | Inr safe \<Rightarrow> Inr (JoinPath [p1, safe]))
                      else Inr p1) of
                  Inl e \<Rightarrow> Inl e
                | Inr p2 \<Rightarrow>
                    (case validateTargetPath p2 (tc_root config) of
                       Some e \<Rightarrow> Inl e
                     | None \<Rightarrow> Inr p2))))"

section \<open>Collisions\<close>

definition CheckCollision ::
  "'w net \<Rightarrow> TransferManager \<Rightarrow> string \<Rightarrow> 'w \<Rightarrow> (goerror + bool) \<times> 'w" where
  "CheckCollision net tm targetPath w =
     (case tm_client tm of
        None \<Rightarrow> (Inl (Opaque (''no WebDAV client configured for collision check of '' @ quoted targetPath)), w)
      | Some c \<Rightarrow>
          (case CheckPathExistence net c targetPath w of
             ((exists, Some e), w') \<Rightarrow> (Inr False, w')
           | ((exists, None), w') \<Rightarrow> (Inr exists, w')))"

definition maxUniqueFilenameAttempts :: nat where
  "maxUniqueFilenameAttempts = 100"

text \<open>The counter of a base path, incremented under the lock; the zero value when absent.\<close>

definition next_counter :: "string \<Rightarrow> TransferManager \<Rightarrow> uint64 \<times> TransferManager" where
  "next_counter basePath tm =
     (let n = (case map_of (uploadCounters tm) basePath of None \<Rightarrow> 0 | Some k \<Rightarrow> k) + 1
      in (n, tm\<lparr>uploadCounters := aput basePath n (uploadCounters tm)\<rparr>))"

definition candidate_name ::
  "string \<Rightarrow> string \<Rightarrow> string \<Rightarrow> string \<Rightarrow> nat \<Rightarrow> TransferManager \<Rightarrow> string \<times> TransferManager" where
  "candidate_name basePath base timestamp ext attempt tm =
     (if 0 < attempt then
        (case next_counter basePath tm of
           (n, tm') \<Rightarrow> (base @ ''-'' @ timestamp @ ''-'' @ itoa (unat n) @ ext, tm'))
      else (base @ ''-'' @ timestamp @ ext, tm))"

text \<open>The loop from number \<open>attempt\<close> on, with \<open>left\<close> rounds to go.\<close>

fun unique_loop ::
  "'w net \<Rightarrow> string \<Rightarrow> string \<Rightarrow> string \<Rightarrow> string \<Rightarrow> string \<Rightarrow> nat \<Rightarrow> nat \<Rightarrow> TransferManager \<Rightarrow> 'w \<Rightarrow>
     (goerror + string) \<times> TransferManager \<times> 'w"
where
  "unique_loop net basePath filename base timestamp ext attempt 0 tm w =
     (Inl (Opaque (''unable to find a free filename for '' @ quoted filename @ '' in '' @ quoted basePath
        @ '' after '' @ itoa maxUniqueFilenameAttempts @ '' attempts'')), tm, w)"
| "unique_loop net basePath filename base timestamp ext attempt (Suc left) tm w =
     (case candidate_name basePath base timestamp ext attempt tm of
        (candidate, tm') \<Rightarrow>
          (case CheckCollision net tm' (JoinPath [basePath, candidate]) w of
             (Inl e, w') \<Rightarrow> (Inl e, tm', w')
           | (Inr True, w') \<Rightarrow> unique_loop net basePath filename base timestamp ext (Suc attempt) left tm' w'
           | (Inr False, w') \<Rightarrow> (Inr candidate, tm', w')))"

definition GenerateUniqueFilename ::
  "'w net \<Rightarrow> int \<Rightarrow> string \<Rightarrow> string \<Rightarrow> TransferManager \<Rightarrow> 'w \<Rightarrow>
     (goerror + string) \<times> TransferManager \<times> 'w" where
  "GenerateUniqueFilename net clock basePath filename tm w =
     (case tm_client tm of
        None \<Rightarrow> (Inl (Opaque ''no WebDAV client configured for unique filename generation''), tm, w)
      | Some c \<Rightarrow>
          let ext = Ext filename; base = TrimSuffix filename ext in
          (case CheckCollision net tm (JoinPath [basePath, filename]) w of
             (Inl e, w') \<Rightarrow> (Inl e, tm, w')
           | (Inr False, w') \<Rightarrow> (Inr filename, tm, w')
           | (Inr True, w') \<Rightarrow>
               unique_loop net basePath filename base (format_compact clock) ext 0 maxUniqueFilenameAttempts tm w'))"

definition ResolveCollision ::
  "'w net \<Rightarrow> int \<Rightarrow> string \<Rightarrow> string \<Rightarrow> CollisionPolicy \<Rightarrow> TransferManager \<Rightarrow> 'w \<Rightarrow>
     (goerror + string) \<times> TransferManager \<times> 'w" where
  "ResolveCollision net clock basePath filename policy tm w =
     (if policy = CollisionPolicyOverwrite then (Inr filename, tm, w)
      else if policy = CollisionPolicyReject then
        (case CheckCollision net tm (JoinPath [basePath, filename]) w of
           (Inl e, w') \<Rightarrow> (Inl e, tm, w')
         | (Inr True, w') \<Rightarrow> (Inl (AlreadyExists ''file'' filename), tm, w')
         | (Inr False, w') \<Rightarrow> (Inr filename, tm, w'))
      else if policy = CollisionPolicyRename then GenerateUniqueFilename net clock basePath filename tm w
      else (Inl (InvalidInput ''unknown collision policy'' (Some [(''policy'', policy)])), tm, w))"

section \<open>Directories\<close>

definition no_client_for_directories :: goerror where
  "no_client_for_directories = Opaque ''no WebDAV client configured for directory creation''"

function createParentDirectoriesRecursive ::
  "'w net \<Rightarrow> webdavClient option \<Rightarrow> string \<Rightarrow> 'w \<Rightarrow> goerror option \<times> 'w" where
  "createParentDirectoriesRecursive net client path w =
     (case client of
        None \<Rightarrow> (Some no_client_for_directories, w)
      | Some c \<Rightarrow>
          let parentDir = Dir path in
          if parentDir = ''.'' \<or> parentDir = ''/'' then CreateDirectory net c path w
          else (case createParentDirectoriesRecursive net client parentDir w of
                  (Some e, w') \<Rightarrow> (Some e, w')
                | (None, w') \<Rightarrow> CreateDirectory net c path w'))"
  by pat_completeness auto
termination
  by (relation "measure (\<lambda>(net, client, path, w). length path)") (auto simp: Dir_shorter)

declare createParentDirectoriesRecursive.simps [simp del]

definition EnsureParentDirectories ::
  "'w net \<Rightarrow> TransferManager \<Rightarrow> string \<Rightarrow> 'w \<Rightarrow> goerror option \<times> 'w" where
  "EnsureParentDirectories net tm targetPath w =
     (case tm_client tm of
        None \<Rightarrow> (Some no_client_for_directories, w)
      | Some c \<Rightarrow>
          let parentDir = Dir targetPath in
          if parentDir = ''.'' \<or> parentDir = ''/'' then (None, w)
          else (case CheckPathExistence net c parentDir w of
                  ((True, None), w') \<Rightarrow> (None, w')
                | (_, w') \<Rightarrow> createParentDirectoriesRecursive net (tm_client tm) parentDir w'))"

section \<open>The pipeline\<close>

definition failed_result :: "goerror \<Rightarrow> TransferResult" where
  "failed_result e = \<lparr>ts_targetPath = '''', ts_filename = '''', ts_size = 0, ts_success = False, ts_error = Some e\<rparr>"

definition ProcessUpload ::
  "'w net \<Rightarrow> int \<Rightarrow> TransferRequest \<Rightarrow> TransferManager \<Rightarrow> 'w \<Rightarrow> TransferResult \<times> TransferManager \<times> 'w" where
  "ProcessUpload net clock request tm w =
     (case GetTarget (tr_userID request) tm of
        None \<Rightarrow> (failed_result (Opaque (''no target configuration for user '' @ tr_userID request)), tm, w)
      | Some config \<Rightarrow>
          (case CalculateTargetPath (tr_userID request) (tr_path request) '''' tm of
             Inl e \<Rightarrow> (failed_result (Wrapf ''failed to calculate target path: '' e ''''), tm, w)
           | Inr basePath \<Rightarrow>
               (case (if tr_filename request \<noteq> ''''
                      then ResolveCollision net clock basePath (tr_filename request) (tc_policy config) tm w
                      else (Inr (tr_filename request), tm, w)) of
                  (Inl e, tm1, w1) \<Rightarrow> (failed_result (Wrapf ''collision resolution failed: '' e ''''), tm1, w1)
                | (Inr finalFilename, tm1, w1) \<Rightarrow>
                    (case CalculateTargetPath (tr_userID request) (tr_path request) finalFilename tm1 of
                       Inl e \<Rightarrow> (failed_result (Wrapf ''failed to calculate final target path: '' e ''''), tm1, w1)
                     | Inr finalPath \<Rightarrow>
                         (case EnsureParentDirectories net tm1 finalPath w1 of
                            (Some e, w2) \<Rightarrow>
                              (failed_result (Wrapf ''failed to ensure parent directories: '' e ''''), tm1, w2)
                          | (None, w2) \<Rightarrow>
                              (\<lparr>ts_targetPath = finalPath, ts_filename = finalFilename, ts_size = tr_size request,
                                ts_success = True, ts_error = None\<rparr>, tm1, w2))))))"

end
