(* ===== verification/TransfersProps.thy ===== *)
theory TransfersProps
  imports Transfers
begin

text \<open>
  What the transfer manager guarantees: the target of an upload stays below the root of its
  account, names are sanitised without losing valid ones, renames are free names found in a
  bounded search, and missing directories are created from the root down.
\<close>

section \<open>The guards\<close>

lemma normalizeFTPPath_Inr:
  assumes "normalizeFTPPath p = Inr q"
  shows "q = '''' \<or> (q = Clean (TrimLeft p (''/'' @ [bsl])) \<and> \<not> Contains q ''..'' \<and> \<not> IsAbs q \<and> length q \<le> 4096)"
  using assms by (auto simp: normalizeFTPPath_def Let_def split: if_splits)

interpretation ftp_path: path_guard normalizeFTPPath
proof unfold_locales
  fix p q
  assume "normalizeFTPPath p = Inr q"
  from normalizeFTPPath_Inr [OF this] show "''..'' \<notin> set (Split (CHR ''/'') q)"
    using no_dotdot_comp [of q] by auto
qed

lemma Base_relative: "f \<noteq> '''' \<Longrightarrow> \<not> HasPrefix f ''/'' \<Longrightarrow> CHR ''/'' \<notin> set (Base f)"
proof -
  assume f: "f \<noteq> ''''" "\<not> HasPrefix f ''/''"
  have "CHR ''/'' \<notin> set (last (Split (CHR ''/'') q))" for q
    by (rule Split_parts_no_sep [OF last_in_set [OF Split_nonempty]])
  moreover have "TrimRight f ''/'' \<noteq> ''''"
  proof
    assume "TrimRight f ''/'' = ''''"
    then have "\<forall>c \<in> set f. c = CHR ''/''" by (auto simp: TrimRight_def dropWhile_eq_Nil_conv)
    with f(1) have "HasPrefix f ''/''" by (cases f) auto
    with f(2) show False ..
  qed
  ultimately show ?thesis using f(1) by (simp add: Base_def Let_def)
qed

lemma safe_rune_small: "safe_rune r < 128 \<Longrightarrow> safe_rune r = r \<or> safe_rune r = 95"
  by (auto simp: safe_rune_def split: if_splits)

text \<open>A byte of the sanitised name below 128 is the underscore, or printable and a byte of the name.\<close>

lemma sanitised_char:
  assumes "c \<in> set (WriteRunes (map safe_rune (range_runes b)))" and "of_char c < (128 :: nat)"
  shows "(32 \<le> (of_char c :: nat) \<and> of_char c \<noteq> (127 :: nat)) \<and> (c = CHR ''_'' \<or> c \<in> set b)"
proof -
  from WriteRunes_ascii [OF assms] obtain r where r: "r \<in> set (range_runes b)" "of_char c = safe_rune r" by auto
  have p: "32 \<le> safe_rune r \<and> safe_rune r \<noteq> 127" by (simp add: safe_rune_def)
  have "c = CHR ''_'' \<or> c \<in> set b"
  proof (cases "safe_rune r = r")
    case True
    then have "char_of r \<in> set b" using r assms(2) range_runes_ascii [of r b] by simp
    moreover have "char_of r = c" using r(2) True by (metis char_of_char)
    ultimately show ?thesis by simp
  next
    case False
    then have "of_char c = (95 :: nat)" using r(2) assms(2) safe_rune_small [of r] by simp
    then have "char_of (of_char c :: nat) = char_of (95 :: nat)" by simp
    moreover have "char_of (95 :: nat) = CHR ''_''" by code_simp
    ultimately show ?thesis by simp
  qed
  with p r(2) show ?thesis by simp
qed

lemma sanitizeFilename_Inr:
  assumes "sanitizeFilename f = Inr s"
  shows "s \<noteq> '''' \<and> CHR ''/'' \<notin> set s \<and> s \<noteq> ''..'' \<and> RuneCount s \<le> 255
     \<and> (\<forall>c \<in> set s. 32 \<le> (of_char c :: nat) \<and> of_char c \<noteq> (127 :: nat))"
proof -
  let ?r = "WriteRunes (map safe_rune (range_runes (Base f)))"
  from assms have f: "f \<noteq> ''''" "\<not> HasPrefix f ''/''" "Base f \<noteq> ''..''" "s = (if ?r = '''' then ''unnamed'' else ?r)"
    "s = ''unnamed'' \<or> RuneCount s \<le> 255"
    by (auto simp: sanitizeFilename_def rooted_or_drive_def Let_def split: if_splits)
  have un: "RuneCount ''unnamed'' \<le> 255" by code_simp
  have slash: "CHR ''/'' \<notin> set ?r"
    using sanitised_char [of "CHR ''/''" "Base f"] Base_relative [OF f(1,2)] by auto
  have range: "32 \<le> (of_char c :: nat) \<and> of_char c \<noteq> (127 :: nat)" if "c \<in> set ?r" for c
    using sanitised_char [OF that] by (cases "of_char c < (128 :: nat)") auto
  have dots: "?r \<noteq> ''..''"
  proof
    assume e: "?r = ''..''"
    then have "map safe_rune (range_runes (Base f)) = str_bytes ?r"
      by (intro WriteRunes_eq_ascii) auto
    then have m: "map safe_rune (range_runes (Base f)) = [46, 46]" by (simp add: e str_bytes_def)
    have s46: "safe_rune r = 46 \<Longrightarrow> r = 46" for r by (simp add: safe_rune_def split: if_splits)
    from m have "range_runes (Base f) = [46, 46]" by (auto simp: map_eq_Cons_conv dest: s46)
    then have "str_bytes (Base f) = [46, 46]" using range_runes_all_ascii [of "Base f"] by auto
    then have "bytes_str (str_bytes (Base f)) = bytes_str [46, 46]" by simp
    moreover have "bytes_str [46, 46] = ''..''" by code_simp
    ultimately have "Base f = ''..''" unfolding bytes_str_bytes by simp
    with f(3) show False ..
  qed
  show ?thesis
  proof (cases "?r = ''''")
    case True
    then show ?thesis using f(4) un by simp
  next
    case False
    then have s: "s = ?r" using f(4) by simp
    have "RuneCount s \<le> 255" using f(5) un by auto
    with s slash range dots False show ?thesis by simp
  qed
qed

interpretation upload_name: path_guard sanitizeFilename
  by unfold_locales (use sanitizeFilename_Inr in \<open>auto simp: Split_no_sep\<close>)

text \<open>A name the sanitiser has nothing to change in: one component of valid UTF-8.\<close>

definition plain_name :: "string \<Rightarrow> bool" where
  "plain_name f \<longleftrightarrow> f \<noteq> '''' \<and> f \<noteq> ''..'' \<and> CHR ''/'' \<notin> set f \<and> \<not> rooted_or_drive f \<and> ValidString f
     \<and> (\<forall>c \<in> set f. 32 \<le> (of_char c :: nat) \<and> of_char c \<noteq> (127 :: nat)) \<and> RuneCount f \<le> 255"

lemma safe_rune_id: "(\<And>r. r \<in> set rs \<Longrightarrow> 32 \<le> r \<and> r \<noteq> 127) \<Longrightarrow> map safe_rune rs = rs"
  by (induction rs) (auto simp: safe_rune_def)

lemma sanitizeFilename_plain:
  assumes "plain_name f"
  shows "sanitizeFilename f = Inr f"
proof -
  have f: "f \<noteq> ''''" "f \<noteq> ''..''" "CHR ''/'' \<notin> set f" "\<not> rooted_or_drive f" "ValidString f" "RuneCount f \<le> 255"
    using assms by (auto simp: plain_name_def)
  obtain x xs where x: "rev f = x # xs" using f(1) by (cases "rev f") auto
  then have "x \<in> set f" by (metis list.set_intros(1) set_rev)
  with f(3) have "x \<noteq> CHR ''/''" by auto
  with x have "TrimRight f ''/'' = f" by (simp add: TrimRight_def)
  then have b: "Base f = f" using f(1,3) by (simp add: Base_def Split_no_sep)
  have no: "\<not> Contains f p" if "CHR ''/'' \<in> set p" for p
    using that f(3) sublist_subset [of p f] by blast
  have t: "\<not> filename_traversal f"
  proof -
    have "\<not> Contains f ''../''" "\<not> Contains f ''/../''" "\<not> Contains f ''/..''"
      by (rule no, simp)+
    then show ?thesis
      using f(2) prefix_imp_sublist [of "''../''" f] suffix_imp_sublist [of "''/..''" f]
      unfolding filename_traversal_def by blast
  qed
  have "32 \<le> r \<and> r \<noteq> 127" if r: "r \<in> set (range_runes f)" for r
  proof (cases "r < 128")
    case True
    have c: "char_of r \<in> set f" by (rule range_runes_ascii [OF r True])
    have "of_char (char_of r :: char) = r" using True by (simp add: of_char_of)
    moreover have "32 \<le> (of_char (char_of r :: char) :: nat) \<and> of_char (char_of r :: char) \<noteq> (127 :: nat)"
      using assms c unfolding plain_name_def by blast
    ultimately show ?thesis by simp
  qed simp
  then have "map safe_rune (range_runes f) = range_runes f" by (rule safe_rune_id)
  then show ?thesis using f b t WriteRunes_range [OF f(5)] by (simp add: sanitizeFilename_def Let_def)
qed

text \<open>C35. A sanitised file name is a single nonempty path component other than dot-dot, of at
  most 255 characters and without control characters; a valid UTF-8 name that is already such a
  component, with no leading backslash or drive letter, is kept unchanged.\<close>

theorem sanitized_names:
  "(case sanitizeFilename f of
      Inl e \<Rightarrow> True
    | Inr s \<Rightarrow> s \<noteq> '''' \<and> CHR ''/'' \<notin> set s \<and> s \<noteq> ''..'' \<and> RuneCount s \<le> 255
        \<and> (\<forall>c \<in> set s. 32 \<le> (of_char c :: nat) \<and> of_char c \<noteq> (127 :: nat)))
   \<and> (plain_name f \<longrightarrow> sanitizeFilename f = Inr f)"
  using sanitizeFilename_Inr [of f] sanitizeFilename_plain [of f] by (simp split: sum.split)

theorem sanitized_names_witness:
  "sanitizeFilename (''scan'' @ [CHR 0x0A] @ ''1.pdf'') = Inr ''scan_1.pdf''
     \<and> sanitizeFilename [CHR 0xC3, CHR 0xA9] = Inr [CHR 0xC3, CHR 0xA9]"
proof -
  have "sanitizeFilename (''scan'' @ [CHR 0x0A] @ ''1.pdf'') = Inr ''scan_1.pdf''" by code_simp
  moreover have "plain_name [CHR 0xC3, CHR 0xA9]" by code_simp
  ultimately show ?thesis using sanitized_names [of "[CHR 0xC3, CHR 0xA9]"] by simp
qed

section \<open>Target paths\<close>

lemma absolutized_abs: "IsAbs p \<Longrightarrow> absolutized p = Clean p"
  by (simp add: absolutized_def IsAbs_CleanI)

lemma validateTargetPath_below:
  "IsAbs root \<Longrightarrow> IsAbs p \<Longrightarrow> validateTargetPath p root = None \<longleftrightarrow> below root p"
  using prefix_check_below [of root p]
  by (auto simp: validateTargetPath_def Let_def absolutized_abs prefix_check_def)

lemma normalizeFTPPath_trivial: "p = '''' \<or> p = ''.'' \<or> p = ''/'' \<Longrightarrow> normalizeFTPPath p = Inr ''''"
  by (simp add: normalizeFTPPath_def)

text \<open>The components a target gets: those of the root, of the FTP path, and the file name.\<close>

definition target_comps :: "string \<Rightarrow> string \<Rightarrow> string \<Rightarrow> string list" where
  "target_comps root np safe = clean_comps root @ filter nonempty_comp (Split (CHR ''/'') np)
     @ filter nonempty_comp [safe]"

lemma join_comps:
  assumes "IsAbs root" and "''..'' \<notin> set (Split (CHR ''/'') np)"
  shows "IsAbs (JoinPath [root, np])
    \<and> clean_comps (JoinPath [root, np]) = clean_comps root @ filter nonempty_comp (Split (CHR ''/'') np)"
  using assms by (simp add: JoinPath_abs clean_comps_JoinPath)

lemma CalculateTargetPath_cases:
  assumes g: "GetTarget u tm = Some cfg" and root: "IsAbs (tc_root cfg)"
  shows "case CalculateTargetPath u path f tm of
      Inl e \<Rightarrow> normalizeFTPPath path = Inl e \<or> (f \<noteq> '''' \<and> sanitizeFilename f = Inl e)
    | Inr t \<Rightarrow> \<exists>np safe. normalizeFTPPath path = Inr np \<and> (f = '''' \<longrightarrow> safe = '''')
        \<and> (f \<noteq> '''' \<longrightarrow> sanitizeFilename f = Inr safe)
        \<and> IsAbs t \<and> clean_comps t = target_comps (tc_root cfg) np safe"
proof -
  let ?r = "tc_root cfg"
  show ?thesis
  proof (cases "normalizeFTPPath path")
    case (Inl e)
    have "\<not> (path = '''' \<or> path = ''.'' \<or> path = ''/'')"
    proof
      assume "path = '''' \<or> path = ''.'' \<or> path = ''/''"
      from normalizeFTPPath_trivial [OF this] Inl show False by simp
    qed
    with Inl show ?thesis by (simp add: CalculateTargetPath_def g)
  next
    case (Inr np)
    define p1 where "p1 = (if path \<noteq> '''' \<and> path \<noteq> ''.'' \<and> path \<noteq> ''/'' then JoinPath [?r, np] else ?r)"
    have first: "(if path \<noteq> '''' \<and> path \<noteq> ''.'' \<and> path \<noteq> ''/''
           then (case normalizeFTPPath path of Inl e \<Rightarrow> Inl e | Inr np \<Rightarrow> Inr (JoinPath [?r, np]))
           else Inr ?r) = Inr p1" by (simp add: Inr p1_def)
    have no: "''..'' \<notin> set (Split (CHR ''/'') np)" by (rule ftp_path.guard_no_parent [OF Inr])
    have p1: "IsAbs p1 \<and> clean_comps p1 = clean_comps ?r @ filter nonempty_comp (Split (CHR ''/'') np)"
    proof (cases "path = '''' \<or> path = ''.'' \<or> path = ''/''")
      case True
      from normalizeFTPPath_trivial [OF True] Inr have "np = ''''" by simp
      moreover have "p1 = ?r" using True by (auto simp: p1_def)
      ultimately show ?thesis using root by (simp add: nonempty_comp_def)
    next
      case False
      then show ?thesis using join_comps [OF root no] by (simp add: p1_def)
    qed
    then have b1: "below ?r p1" by (simp add: below_def)
    note p1 = p1 [THEN conjunct1] p1 [THEN conjunct2]
    show ?thesis
    proof (cases "f = ''''")
      case True
      then have "CalculateTargetPath u path f tm = Inr p1"
        using validateTargetPath_below [OF root p1(1)] b1 by (simp add: CalculateTargetPath_def g first)
      then show ?thesis using Inr True p1 by (auto simp: target_comps_def nonempty_comp_def)
    next
      case ne: False
      show ?thesis
      proof (cases "sanitizeFilename f")
        case (Inl e)
        then show ?thesis using ne by (simp add: CalculateTargetPath_def g first)
      next
        case s: (Inr safe)
        have ns: "''..'' \<notin> set (Split (CHR ''/'') safe)" by (rule upload_name.guard_no_parent [OF s])
        have one: "Split (CHR ''/'') safe = [safe]" using sanitizeFilename_Inr [OF s] by (simp add: Split_no_sep)
        let ?t = "JoinPath [p1, safe]"
        have t: "IsAbs ?t" "clean_comps ?t = target_comps ?r np safe"
          using join_comps [OF p1(1) ns] p1(2) by (simp_all add: target_comps_def one)
        then have "below ?r ?t" by (simp add: below_def target_comps_def)
        then have "CalculateTargetPath u path f tm = Inr ?t"
          using validateTargetPath_below [OF root t(1)] s ne by (simp add: CalculateTargetPath_def g first)
        then show ?thesis using Inr s ne t by auto
      qed
    qed
  qed
qed

text \<open>C14. For an account whose root is absolute, the target of an upload is refused exactly when
  the FTP path or the file name is refused on its own (the final containment check never adds a
  refusal); otherwise its components are those of the root, then those of the path, then the
  sanitised name, so it stays below the root.\<close>

theorem target_path_spec:
  assumes "GetTarget u tm = Some cfg" and "IsAbs (tc_root cfg)"
  shows "case CalculateTargetPath u path f tm of
      Inl e \<Rightarrow> normalizeFTPPath path = Inl e \<or> (f \<noteq> '''' \<and> sanitizeFilename f = Inl e)
    | Inr t \<Rightarrow> below (tc_root cfg) t \<and> (\<exists>np safe. normalizeFTPPath path = Inr np \<and> (f = '''' \<longrightarrow> safe = '''')
        \<and> (f \<noteq> '''' \<longrightarrow> sanitizeFilename f = Inr safe) \<and> clean_comps t = target_comps (tc_root cfg) np safe)"
  using CalculateTargetPath_cases [OF assms, of path f]
  by (auto simp: below_def target_comps_def split: sum.splits)

definition a_target :: TargetConfig where
  "a_target = \<lparr>tc_driveID = ''d1'', tc_drive = '''', tc_root = ''/scans'', tc_policy = ''rename'', tc_maxSize = 1000\<rparr>"

definition a_manager :: TransferManager where
  "a_manager = AddTarget ''scanner'' a_target (NewTransferManagerWithWebDAV [] (Some a_client))"

theorem target_path_spec_witness:
  "CalculateTargetPath ''scanner'' ''2024'' ''a b.pdf'' a_manager = Inr ''/scans/2024/a b.pdf''
     \<and> below ''/scans'' ''/scans/2024/a b.pdf''"
proof -
  have c: "CalculateTargetPath ''scanner'' ''2024'' ''a b.pdf'' a_manager = Inr ''/scans/2024/a b.pdf''" by code_simp
  have "GetTarget ''scanner'' a_manager = Some a_target" by code_simp
  moreover have "IsAbs (tc_root a_target)" by code_simp
  ultimately have "below (tc_root a_target) ''/scans/2024/a b.pdf''"
    using target_path_spec [of "''scanner''" a_manager a_target "''2024''" "''a b.pdf''"] c by simp
  with c show ?thesis by (simp add: a_target_def)
qed

section \<open>Rename candidates\<close>

lemma CheckCollision_control:
  "CheckCollision net tm p st = (case tm_client tm of
     None \<Rightarrow> (Inl (Opaque (''no WebDAV client configured for collision check of '' @ quoted p)), st)
   | Some c \<Rightarrow> (case control_op net c ''HEAD'' (\<lambda>np. np) [] p st of (r, st') \<Rightarrow>
       (Inr (case r of Inl e \<Rightarrow> False | Inr (np, resp) \<Rightarrow> rs_status resp = 200 \<or> rs_status resp = 204), st')))"
  by (simp add: CheckCollision_def CheckPathExistence_def Let_def split: option.split sum.split prod.split)

lemma CheckCollision_logged:
  "CheckCollision (logged net) tm p (w, log) = (r, (w', log')) \<Longrightarrow> length log' \<le> Suc (length log)"
  by (auto simp: CheckCollision_control dest: control_logged(1) split: option.splits prod.splits)

lemma candidate_name_shape:
  "candidate_name basePath base ts ext k tm = (n, tm') \<Longrightarrow>
     (\<exists>sfx. n = base @ ''-'' @ sfx @ ext) \<and> targetConfigs tm' = targetConfigs tm \<and> tm_client tm' = tm_client tm \<and> tm_context tm' = tm_context tm"
  by (auto simp: candidate_name_def next_counter_def Let_def split: if_splits)

lemma unique_loop_spec:
  "unique_loop (logged net) basePath filename base ts ext k left tm (w, log) = (r, tm', (w', log')) \<Longrightarrow>
     length log' \<le> length log + left \<and> targetConfigs tm' = targetConfigs tm \<and> tm_client tm' = tm_client tm \<and> tm_context tm' = tm_context tm
     \<and> (\<forall>n. r = Inr n \<longrightarrow> (\<exists>sfx. n = base @ ''-'' @ sfx @ ext)
          \<and> (\<exists>w1. CheckCollision (logged net) tm' (JoinPath [basePath, n]) w1 = (Inr False, (w', log'))))"
proof (induction left arbitrary: k tm w log)
  case (Suc left)
  obtain n1 tm1 where c: "candidate_name basePath base ts ext k tm = (n1, tm1)"
    by (cases "candidate_name basePath base ts ext k tm")
  obtain x w1 log1 where ch: "CheckCollision (logged net) tm1 (JoinPath [basePath, n1]) (w, log) = (x, (w1, log1))"
    by (metis prod.collapse)
  note l1 = CheckCollision_logged [OF ch] and s1 = candidate_name_shape [OF c]
  consider e where "x = Inl e" | "x = Inr False" | "x = Inr True" by (cases x) auto
  then show ?case
  proof cases
    case 3
    then have "unique_loop (logged net) basePath filename base ts ext (Suc k) left tm1 (w1, log1) = (r, tm', (w', log'))"
      using Suc.prems c ch by simp
    from Suc.IH [OF this] l1 s1 show ?thesis by auto
  qed (use Suc.prems c ch l1 s1 in \<open>auto intro!: exI [of _ "(w, log)"]\<close>)
qed auto

lemma unlog:
  "CheckCollision (logged net) tm p (w, log) = (r, (w', log')) \<Longrightarrow> CheckCollision net tm p w = (r, w')"
  by (auto simp: CheckCollision_control dest: control_logged(2) split: option.splits prod.splits)

text \<open>C34. The rename policy asks the server at most 101 times; the name it settles on is one the
  server was last asked about and did not report to exist, and it is the given name or the
  given name with a suffix before its extension.\<close>

theorem renamed_file_is_free:
  assumes "GenerateUniqueFilename (logged net) clock basePath filename tm (w, []) = (r, tm', (w', log))"
  shows "length log \<le> 101 \<and> (\<forall>n. r = Inr n \<longrightarrow>
     (\<exists>w1. CheckCollision net tm' (JoinPath [basePath, n]) w1 = (Inr False, w'))
     \<and> (n = filename \<or> (\<exists>sfx. n = TrimSuffix filename (Ext filename) @ ''-'' @ sfx @ Ext filename)))"
proof (cases "tm_client tm")
  case None
  then show ?thesis using assms by (auto simp: GenerateUniqueFilename_def)
next
  case (Some c)
  obtain x w1 log1 where ch: "CheckCollision (logged net) tm (JoinPath [basePath, filename]) (w, []) = (x, (w1, log1))"
    by (metis prod.collapse)
  note l1 = CheckCollision_logged [OF ch]
  consider e where "x = Inl e" | "x = Inr False" | "x = Inr True" by (cases x) auto
  then show ?thesis
  proof cases
    case 3
    then have u: "unique_loop (logged net) basePath filename (TrimSuffix filename (Ext filename))
        (format_compact clock) (Ext filename) 0 100 tm (w1, log1) = (r, tm', (w', log))"
      using assms Some ch by (simp add: GenerateUniqueFilename_def Let_def maxUniqueFilenameAttempts_def)
    from unique_loop_spec [OF u] l1 unlog show ?thesis by fastforce
  qed (use assms Some ch l1 unlog [OF ch] in \<open>auto simp: GenerateUniqueFilename_def Let_def\<close>)
qed

theorem renamed_file_is_free_witness:
  "case GenerateUniqueFilename (logged scripted) 1709210096000000000 ''/scans'' ''a.pdf'' a_manager ([200, 200, 404], []) of
     (r, tm', (w', log)) \<Rightarrow> r = Inr ''a-20240229-123456-1.pdf'' \<and> length log = 3 \<and> length log \<le> 101"
proof -
  let ?g = "GenerateUniqueFilename (logged scripted) 1709210096000000000 ''/scans'' ''a.pdf'' a_manager ([200, 200, 404], [])"
  obtain r tm' w' log where g: "?g = (r, tm', (w', log))" by (metis prod.collapse)
  have "(case ?g of (r, tm', w', log) \<Rightarrow> (r, length log)) = (Inr ''a-20240229-123456-1.pdf'', 3)" by code_simp
  with renamed_file_is_free [OF g] show ?thesis by (simp add: g)
qed

text \<open>The first candidate of a rename carries the time stamp alone: when the name is taken and
  that candidate is free, the counter that should keep concurrent uploads apart is not used, so
  a second rename in the same second, made before the first upload is sent, gets the same name.\<close>

theorem first_rename_ignores_counter:
  assumes "tm_client tm = Some c"
    and "CheckCollision net tm (JoinPath [basePath, filename]) w = (Inr True, w1)"
    and "CheckCollision net tm (JoinPath [basePath,
           TrimSuffix filename (Ext filename) @ ''-'' @ format_compact clock @ Ext filename]) w1 = (Inr False, w2)"
  shows "GenerateUniqueFilename net clock basePath filename tm w
     = (Inr (TrimSuffix filename (Ext filename) @ ''-'' @ format_compact clock @ Ext filename), tm, w2)"
proof -
  let ?base = "TrimSuffix filename (Ext filename)" and ?ts = "format_compact clock"
  have "unique_loop net basePath filename ?base ?ts (Ext filename) 0 (Suc n) tm w1
      = (Inr (?base @ ''-'' @ ?ts @ Ext filename), tm, w2)" for n
    using assms(3) by (simp add: candidate_name_def)
  from this [of 99]
  have "unique_loop net basePath filename ?base ?ts (Ext filename) 0 (Suc 99) tm w1
      = (Inr (?base @ ''-'' @ ?ts @ Ext filename), tm, w2)" .
  moreover have "maxUniqueFilenameAttempts = Suc 99" by (simp add: maxUniqueFilenameAttempts_def)
  ultimately show ?thesis
    using assms(1,2) by (simp only: GenerateUniqueFilename_def Let_def option.case prod.case sum.case bool.case)
qed

theorem first_rename_ignores_counter_witness:
  "GenerateUniqueFilename scripted 1709210096000000000 ''/scans'' ''a.pdf'' a_manager [200, 404]
     = (Inr ''a-20240229-123456.pdf'', a_manager, [])"
proof -
  have x: "Ext ''a.pdf'' = ''.pdf''" "TrimSuffix ''a.pdf'' ''.pdf'' = ''a''"
    "format_compact 1709210096000000000 = ''20240229-123456''" by code_simp+
  have "tm_client a_manager = Some a_client" by code_simp
  moreover have "CheckCollision scripted a_manager (JoinPath [''/scans'', ''a.pdf'']) [200, 404] = (Inr True, [404])"
    by code_simp
  moreover have "CheckCollision scripted a_manager (JoinPath [''/scans'', ''a-20240229-123456.pdf'']) [404] = (Inr False, [])"
    by code_simp
  ultimately show ?thesis
    using first_rename_ignores_counter [of a_manager a_client scripted "''/scans''" "''a.pdf''" "[200, 404]" "[404]"
        1709210096000000000 "[]"] by (simp add: x)
qed

section \<open>Missing directories\<close>

text \<open>The reference: create the directories of a list one after the other, up to the first failure.\<close>

fun mkcol_all :: "'w net \<Rightarrow> webdavClient \<Rightarrow> string list \<Rightarrow> 'w \<Rightarrow> goerror option \<times> 'w" where
  "mkcol_all net c [] w = (None, w)"
| "mkcol_all net c (p # ps) w =
     (case CreateDirectory net c p w of
        (Some e, w') \<Rightarrow> (Some e, w')
      | (None, w') \<Rightarrow> mkcol_all net c ps w')"

lemma mkcol_all_snoc:
  "mkcol_all net c (ps @ [p]) w =
     (case mkcol_all net c ps w of
        (Some e, w') \<Rightarrow> (Some e, w')
      | (None, w') \<Rightarrow> CreateDirectory net c p w')"
  by (induction ps arbitrary: w) (auto split: option.split prod.split)

text \<open>The directories from just below the root down to the one with the given components.\<close>

definition chain :: "string list \<Rightarrow> string list" where
  "chain cs = map (\<lambda>n. render True (take n cs)) [1..<Suc (length cs)]"

lemma chain_snoc: "chain (cs @ [c]) = chain cs @ [render True (cs @ [c])]"
proof -
  have "[1..<Suc (length (cs @ [c]))] = [1..<Suc (length cs)] @ [Suc (length cs)]" by simp
  moreover have "map (\<lambda>n. render True (take n (cs @ [c]))) [1..<Suc (length cs)] = chain cs"
    unfolding chain_def by (rule map_cong) auto
  ultimately show ?thesis unfolding chain_def by simp
qed

lemma render_not_dot: "render True cs \<noteq> ''.''"
  by (simp add: render_def)

lemma render_root_iff: "(\<And>c. c \<in> set cs \<Longrightarrow> proper c) \<Longrightarrow> render True cs = ''/'' \<longleftrightarrow> cs = []"
  using Join_proper_suffix [of cs] by (auto simp: render_def)

lemma create_parents_chain:
  "cs \<noteq> [] \<Longrightarrow> (\<And>c. c \<in> set cs \<Longrightarrow> proper c) \<Longrightarrow>
     createParentDirectoriesRecursive net (Some cl) (render True cs) w = mkcol_all net cl (chain cs) w"
proof (induction cs arbitrary: w rule: rev_induct)
  case (snoc c cs)
  have d: "Dir (render True (cs @ [c])) = render True cs" by (rule Dir_render) (use snoc.prems in auto)
  have top: "render True cs = ''/'' \<longleftrightarrow> cs = []" by (rule render_root_iff) (use snoc.prems in auto)
  show ?case
  proof (cases "cs = []")
    case True
    have "chain [c] = [render True [c]]" using chain_snoc [of "[]" c] by (simp add: chain_def)
    then show ?thesis
      using True d top by (subst createParentDirectoriesRecursive.simps) (auto split: option.split prod.split)
  next
    case False
    then have IH: "createParentDirectoriesRecursive net (Some cl) (render True cs) w = mkcol_all net cl (chain cs) w"
      using snoc by auto
    show ?thesis
      using False d top IH
      by (subst createParentDirectoriesRecursive.simps) (simp add: chain_snoc mkcol_all_snoc render_not_dot)
  qed
qed simp

text \<open>C33. The recursive creation of directories ends for every path, and for a clean absolute one
  it is the loop that creates each ancestor from the root down, and stops at the first failure.\<close>

theorem create_parents_root_first:
  assumes "cs \<noteq> []" and "\<And>c. c \<in> set cs \<Longrightarrow> proper c"
  shows "createParentDirectoriesRecursive net (Some cl) (render True cs) w
    = mkcol_all net cl (map (\<lambda>n. render True (take n cs)) [1..<Suc (length cs)]) w"
  unfolding chain_def [symmetric] by (rule create_parents_chain [OF assms])

theorem create_parents_root_first_witness:
  "createParentDirectoriesRecursive (logged scripted) (Some a_client) ''/a/b'' ([405, 201], [])
     = mkcol_all (logged scripted) a_client [''/a'', ''/a/b''] ([405, 201], [])"
proof -
  have "proper c" if "c \<in> set [''a'', ''b'']" for c using that by (auto simp: proper_def)
  from create_parents_root_first [of "[''a'', ''b'']", OF _ this, of "logged scripted" a_client "([405, 201], [])"]
  show ?thesis by (simp add: render_def upt_rec)
qed

section \<open>The whole upload\<close>

lemma ResolveCollision_keeps:
  "ResolveCollision net clock b f pol tm w = (r, tm', w') \<Longrightarrow>
     targetConfigs tm' = targetConfigs tm \<and> tm_client tm' = tm_client tm \<and> tm_context tm' = tm_context tm
     \<and> (\<forall>n. r = Inr n \<longrightarrow> pol \<noteq> ''rename'' \<longrightarrow> n = f)"
proof -
  have ul: "unique_loop net b f bs ts ext k left tm w = (r, tm', w') \<Longrightarrow>
      targetConfigs tm' = targetConfigs tm \<and> tm_client tm' = tm_client tm \<and> tm_context tm' = tm_context tm" for bs ts ext k left tm w r tm' w'
  proof (induction left arbitrary: k tm w)
    case (Suc left)
    obtain n1 tm1 where c: "candidate_name b bs ts ext k tm = (n1, tm1)"
      by (cases "candidate_name b bs ts ext k tm")
    with candidate_name_shape [OF c] Suc show ?case by (auto split: prod.splits sum.splits bool.splits)
  qed simp
  assume "ResolveCollision net clock b f pol tm w = (r, tm', w')"
  then show ?thesis
    by (auto simp: ResolveCollision_def GenerateUniqueFilename_def Let_def policy_defs dest: ul
        split: if_splits option.splits prod.splits sum.splits bool.splits)
qed

text \<open>The pipeline changes nothing of the manager but its counters.\<close>

lemma ProcessUpload_keeps:
  "ProcessUpload net clock req tm w = (res, tm', w') \<Longrightarrow> targetConfigs tm' = targetConfigs tm \<and> tm_client tm' = tm_client tm \<and> tm_context tm' = tm_context tm"
  by (auto simp: ProcessUpload_def dest!: ResolveCollision_keeps
      split: option.splits sum.splits prod.splits if_splits)

text \<open>Under a context that is done, the pipeline sends nothing.\<close>

lemma silent_collision: "snd (CheckCollision (with_ctx True net) tm p w) = w"
proof -
  have "control_op (with_ctx True net) c m g hs p w = (x, w1) \<Longrightarrow> w1 = w" for c m g hs x w1
    using silent_control [of net c m g hs p w] by simp
  then show ?thesis by (auto simp: CheckCollision_control split: option.split prod.split)
qed

lemma silent_resolve:
  "ResolveCollision (with_ctx True net) clock b f pol tm w = (r, tm', w') \<Longrightarrow> w' = w"
proof -
  have cc: "CheckCollision (with_ctx True net) tm p w = (x, w1) \<Longrightarrow> w1 = w" for tm p w x w1
    using silent_collision [of net tm p w] by simp
  have ul: "unique_loop (with_ctx True net) b f bs ts ext k left tm w = (r, tm', w') \<Longrightarrow> w' = w" for bs ts ext k left tm w r tm' w'
  proof (induction left arbitrary: k tm w)
    case (Suc left)
    then show ?case by (auto dest: cc split: prod.splits sum.splits bool.splits)
  qed simp
  assume "ResolveCollision (with_ctx True net) clock b f pol tm w = (r, tm', w')"
  then show ?thesis
    by (auto simp: ResolveCollision_def GenerateUniqueFilename_def Let_def dest: ul cc
        split: if_splits option.splits prod.splits sum.splits bool.splits)
qed

lemma silent_create: "snd (createParentDirectoriesRecursive (with_ctx True net) client p w) = w"
proof (induction "with_ctx True net" client p w rule: createParentDirectoriesRecursive.induct)
  case (1 client p w)
  show ?case
  proof (cases client)
    case None
    then show ?thesis by (simp add: createParentDirectoriesRecursive.simps)
  next
    case (Some c)
    let ?r = "createParentDirectoriesRecursive (with_ctx True net) client (Dir p) w"
    show ?thesis
    proof (cases "Dir p = ''.'' \<or> Dir p = ''/''")
      case True
      then show ?thesis using Some
        by (auto simp: createParentDirectoriesRecursive.simps [of _ _ p] silent_mkcol Let_def)
    next
      case False
      then have "snd ?r = w" using 1 Some by simp
      then obtain e where "?r = (e, w)" by (metis prod.collapse)
      then show ?thesis using Some False
        by (auto simp: createParentDirectoriesRecursive.simps [of _ _ p] silent_mkcol Let_def split: option.split)
    qed
  qed
qed

lemma silent_ensure: "snd (EnsureParentDirectories (with_ctx True net) tm p w) = w"
proof -
  have x: "CheckPathExistence (with_ctx True net) c (Dir p) w = (x, w1) \<Longrightarrow> w1 = w" for c x w1
    using silent_existence [of net c "Dir p" w] by simp
  show ?thesis
    by (auto simp: EnsureParentDirectories_def Let_def silent_create dest!: x split: option.split prod.split bool.split)
qed

lemma silent_ProcessUpload:
  "ProcessUpload (with_ctx True net) clock req tm w = (res, tm', w') \<Longrightarrow> w' = w"
proof -
  have en: "EnsureParentDirectories (with_ctx True net) tm p w = (e, w1) \<Longrightarrow> w1 = w" for tm p w e w1
    using silent_ensure [of net tm p w] by simp
  assume "ProcessUpload (with_ctx True net) clock req tm w = (res, tm', w')"
  then show ?thesis unfolding ProcessUpload_def
    by (auto dest: en silent_resolve split: option.splits sum.splits prod.splits if_splits)
qed

lemma ProcessUpload_spec:
  assumes g: "GetTarget (tr_userID req) tm = Some cfg" and root: "IsAbs (tc_root cfg)"
    and p: "ProcessUpload net clock req tm w = (res, tm', w')"
  shows "(ts_success res \<longleftrightarrow> ts_error res = None) \<and> (ts_success res \<longrightarrow>
      below (tc_root cfg) (ts_targetPath res) \<and> ts_size res = tr_size req
      \<and> (tc_policy cfg \<noteq> ''rename'' \<longrightarrow> ts_filename res = tr_filename req)
      \<and> (\<exists>np safe. normalizeFTPPath (tr_path req) = Inr np
           \<and> (ts_filename res \<noteq> '''' \<longrightarrow> sanitizeFilename (ts_filename res) = Inr safe)
           \<and> clean_comps (ts_targetPath res) = target_comps (tc_root cfg) np (if ts_filename res = '''' then '''' else safe)))"
proof (cases "ts_success res")
  case False
  then show ?thesis
    using p by (auto simp: ProcessUpload_def failed_result_def g split: sum.splits prod.splits option.splits if_splits)
next
  case True
  obtain basePath where b: "CalculateTargetPath (tr_userID req) (tr_path req) '''' tm = Inr basePath"
    using p True by (cases "CalculateTargetPath (tr_userID req) (tr_path req) '''' tm")
      (auto simp: ProcessUpload_def failed_result_def g)
  let ?rc = "if tr_filename req \<noteq> ''''
      then ResolveCollision net clock basePath (tr_filename req) (tc_policy cfg) tm w
      else (Inr (tr_filename req), tm, w)"
  obtain r tm1 w1 where rc: "?rc = (r, tm1, w1)" by (metis prod.collapse)
  have keep: "targetConfigs tm1 = targetConfigs tm \<and> (\<forall>n. r = Inr n \<longrightarrow> tc_policy cfg \<noteq> ''rename'' \<longrightarrow> n = tr_filename req)"
    using rc ResolveCollision_keeps [of net clock basePath "tr_filename req" "tc_policy cfg" tm w r tm1 w1]
    by (auto split: if_splits)
  obtain fin where fin: "r = Inr fin" using p True by (cases r) (auto simp: ProcessUpload_def failed_result_def g b rc)
  obtain fp where fp: "CalculateTargetPath (tr_userID req) (tr_path req) fin tm1 = Inr fp"
    using p True by (cases "CalculateTargetPath (tr_userID req) (tr_path req) fin tm1")
      (auto simp: ProcessUpload_def failed_result_def g b rc fin)
  have res: "res = \<lparr>ts_targetPath = fp, ts_filename = fin, ts_size = tr_size req, ts_success = True, ts_error = None\<rparr>"
    using p True by (auto simp: ProcessUpload_def failed_result_def g b rc fin fp split: prod.splits option.splits)
  have "GetTarget (tr_userID req) tm1 = Some cfg" using g keep by (simp add: GetTarget_def)
  from CalculateTargetPath_cases [OF this root, of "tr_path req" fin] fp obtain np safe
    where s: "normalizeFTPPath (tr_path req) = Inr np" "fin = '''' \<longrightarrow> safe = ''''"
      "fin \<noteq> '''' \<longrightarrow> sanitizeFilename fin = Inr safe"
      "IsAbs fp" "clean_comps fp = target_comps (tc_root cfg) np safe" by auto
  then have "below (tc_root cfg) fp" by (simp add: below_def target_comps_def)
  with s keep fin show ?thesis by (auto simp: res intro!: exI [of _ np] exI [of _ safe])
qed

text \<open>C15. An upload the pipeline accepts goes to a path below the root of its account, made of the
  root, the normalised FTP path and the sanitised final name; only the rename policy changes the
  name. It reports an error exactly when it does not succeed.\<close>

theorem accepted_upload_below_root:
  assumes g: "GetTarget (tr_userID req) tm = Some cfg" and root: "IsAbs (tc_root cfg)"
    and p: "ProcessUpload net clock req tm w = (res, tm', w')"
  shows "(ts_success res \<longleftrightarrow> ts_error res = None) \<and> (ts_success res \<longrightarrow>
      below (tc_root cfg) (ts_targetPath res) \<and> ts_size res = tr_size req
      \<and> (tc_policy cfg \<noteq> ''rename'' \<longrightarrow> ts_filename res = tr_filename req)
      \<and> (\<exists>np safe. normalizeFTPPath (tr_path req) = Inr np
           \<and> (ts_filename res \<noteq> '''' \<longrightarrow> sanitizeFilename (ts_filename res) = Inr safe)
           \<and> clean_comps (ts_targetPath res) = target_comps (tc_root cfg) np (if ts_filename res = '''' then '''' else safe)))"
  by (rule ProcessUpload_spec [OF assms])

definition a_request :: TransferRequest where
  "a_request = \<lparr>tr_userID = ''scanner'', tr_filename = ''a.pdf'', tr_path = ''2024'', tr_size = 5,
     tr_data = ''hello'', tr_reader = None\<rparr>"

theorem accepted_upload_below_root_witness:
  "case ProcessUpload scripted 1709210096000000000 a_request a_manager [200, 404, 404, 201, 201] of
     (res, tm', w') \<Rightarrow> ts_targetPath res = ''/scans/2024/a-20240229-123456.pdf'' \<and> below ''/scans'' (ts_targetPath res)"
proof -
  let ?p = "ProcessUpload scripted 1709210096000000000 a_request a_manager [200, 404, 404, 201, 201]"
  obtain res tm' w' where p: "?p = (res, tm', w')" by (metis prod.collapse)
  have "(case ?p of (res, tm', w') \<Rightarrow> (ts_success res, ts_targetPath res)) = (True, ''/scans/2024/a-20240229-123456.pdf'')"
    by code_simp
  then have r: "ts_success res" "ts_targetPath res = ''/scans/2024/a-20240229-123456.pdf''" by (simp_all add: p)
  moreover have "GetTarget (tr_userID a_request) a_manager = Some a_target" by code_simp
  moreover have "IsAbs (tc_root a_target)" by code_simp
  ultimately have "below (tc_root a_target) (ts_targetPath res)"
    using accepted_upload_below_root [OF _ _ p, of a_target] by simp
  then show ?thesis using r(2) by (simp add: p a_target_def)
qed

end
