(* ===== verification/Passwords.thy ===== *)
theory Passwords
  imports AppErrors Utf8
begin

text \<open>
  Password hashes: the PHC strings of \<open>pkg/config/config.go\<close> (\<open>parseArgon2ID\<close>,
  \<open>VerifyPassword\<close>) and the tool that prints them, \<open>cmd/hash-password/main.go\<close>. Argon2id itself
  (\<open>golang.org/x/crypto/argon2\<close>) is the parameter \<open>IDKey\<close>; the model has what the code uses of
  \<open>fmt.Sscanf\<close>, \<open>base64.RawStdEncoding\<close> and \<open>subtle.ConstantTimeCompare\<close>. Byte slices are
  strings; the texts of base64 errors leave out the position.
\<close>

type_synonym id_key = "string \<Rightarrow> string \<Rightarrow> 32 word \<Rightarrow> 32 word \<Rightarrow> 8 word \<Rightarrow> 32 word \<Rightarrow> string"

section \<open>Unpadded base64\<close>

definition b64_char :: "nat \<Rightarrow> char" where
  "b64_char n = (if n < 26 then char_of (65 + n) else if n < 52 then char_of (71 + n)
     else if n < 62 then char_of (n - 4) else if n = 62 then CHR ''+'' else CHR ''/'')"

definition b64_val :: "char \<Rightarrow> nat option" where
  "b64_val c = (let n = of_char c in
     if 65 \<le> n \<and> n \<le> 90 then Some (n - 65) else if 97 \<le> n \<and> n \<le> 122 then Some (n - 71)
     else if 48 \<le> n \<and> n \<le> 57 then Some (n + 4) else if n = 43 then Some 62
     else if n = 47 then Some 63 else None)"

fun sextets :: "nat list \<Rightarrow> nat list" where
  "sextets [] = []"
| "sextets [a] = [a div 4, a mod 4 * 16]"
| "sextets [a, b] = [a div 4, a mod 4 * 16 + b div 16, b mod 16 * 4]"
| "sextets (a # b # c # bs) =
     a div 4 # (a mod 4 * 16 + b div 16) # (b mod 16 * 4 + c div 64) # c mod 64 # sextets bs"

fun unsextets :: "nat list \<Rightarrow> nat list option" where
  "unsextets [] = Some []"
| "unsextets [x] = None"
| "unsextets [x, y] = Some [x * 4 + y div 16]"
| "unsextets [x, y, z] = Some [x * 4 + y div 16, y mod 16 * 16 + z div 4]"
| "unsextets (x # y # z # w # xs) =
     map_option (\<lambda>bs. (x * 4 + y div 16) # (y mod 16 * 16 + z div 4) # (z mod 4 * 64 + w) # bs) (unsextets xs)"

definition EncodeToString :: "string \<Rightarrow> string" where
  "EncodeToString s = map b64_char (sextets (str_bytes s))"

text \<open>The decoder skips line ends, and fails on any other character outside the alphabet.\<close>

definition DecodeString :: "string \<Rightarrow> string option" where
  "DecodeString s =
     (let vs = map b64_val (filter (\<lambda>c. c \<noteq> CHR 0x0A \<and> c \<noteq> CHR 0x0D) s) in
      if None \<in> set vs then None else map_option bytes_str (unsextets (map the vs)))"

section \<open>Scanning the parameters\<close>

text \<open>\<open>SkipSpace\<close> of \<open>fmt\<close>: a line end is an error.\<close>

fun skip_space :: "(nat \<times> nat list) list \<Rightarrow> (nat \<times> nat list) list option" where
  "skip_space [] = Some []"
| "skip_space ((r, bs) # xs) =
     (if r = 13 \<and> xs \<noteq> [] \<and> fst (hd xs) = 10 then skip_space xs
      else if r = 10 then None
      else if IsSpace r then skip_space xs
      else Some ((r, bs) # xs))"

definition scan_space :: "string \<Rightarrow> string option" where
  "scan_space s = map_option unsegs (skip_space (segs (str_bytes s)))"

text \<open>The d verb into an unsigned variable of \<open>size\<close> bits: at least one digit, no sign.\<close>

definition scan_uint :: "nat \<Rightarrow> string \<Rightarrow> (nat \<times> string) option" where
  "scan_uint sz s =
     (case scan_space s of
        None \<Rightarrow> None
      | Some t \<Rightarrow>
          let tok = takeWhile is_digit t in
          case ParseUint tok of
            None \<Rightarrow> None
          | Some w \<Rightarrow> if unat w < 2 ^ sz then Some (unat w, dropWhile is_digit t) else None)"

definition scan_lit :: "string \<Rightarrow> string \<Rightarrow> string option" where
  "scan_lit l s = (if HasPrefix s l then Some (drop (length l) s) else None)"

text \<open>\<open>fmt.Sscanf(s, "m=%d,t=%d,p=%d", ...)\<close> into two 32-bit variables and a 64-bit one; it does
  not look at what follows the last number.\<close>

definition scan_params :: "string \<Rightarrow> (nat \<times> nat \<times> nat) option" where
  "scan_params s =
     Option.bind (scan_lit ''m='' s) (\<lambda>s. Option.bind (scan_uint 32 s) (\<lambda>(m, s).
     Option.bind (scan_lit '',t='' s) (\<lambda>s. Option.bind (scan_uint 32 s) (\<lambda>(t, s).
     Option.bind (scan_lit '',p='' s) (\<lambda>s. Option.bind (scan_uint 64 s) (\<lambda>(p, s). Some (m, t, p)))))))"

section \<open>PHC strings\<close>

record argon2Params =
  ar_memory :: "32 word"
  ar_time :: "32 word"
  ar_threads :: "8 word"
  ar_salt :: string
  ar_hash :: string

definition maxArgon2DigestLength :: nat where
  "maxArgon2DigestLength = 4096"

abbreviation base64_error :: goerror where
  "base64_error \<equiv> Opaque ''illegal base64 data''"

definition parseArgon2ID :: "string \<Rightarrow> goerror + argon2Params" where
  "parseArgon2ID encoded =
     (case Split (CHR ''$'') encoded of
        [p0, p1, p2, p3, p4, p5] \<Rightarrow>
          if p0 \<noteq> '''' \<or> p1 \<noteq> ''argon2id'' \<or> p2 \<noteq> ''v=19'' then
            Inl (Opaque ''must be a valid Argon2id PHC string using version 19'')
          else
            (case scan_params p3 of
               None \<Rightarrow> Inl (Opaque ''invalid Argon2id parameters'')
             | Some (m, t, threads) \<Rightarrow>
                 if m = 0 \<or> t = 0 \<or> threads = 0 \<or> threads > 255 then Inl (Opaque ''invalid Argon2id parameters'')
                 else
                   (case DecodeString p4 of
                      None \<Rightarrow> Inl (Wrapf ''invalid Argon2id salt: '' base64_error '''')
                    | Some salt \<Rightarrow>
                        if length salt < 8 then Inl (Opaque ''invalid Argon2id salt'')
                        else
                          (case DecodeString p5 of
                             None \<Rightarrow> Inl (Wrapf ''invalid Argon2id digest: '' base64_error '''')
                           | Some hash \<Rightarrow>
                               if length hash < 16 then Inl (Opaque ''invalid Argon2id digest'')
                               else if length hash > maxArgon2DigestLength then
                                 Inl (Opaque (''invalid Argon2id digest: length '' @ itoa (length hash)
                                   @ '' exceeds maximum of '' @ itoa maxArgon2DigestLength @ '' bytes''))
                               else Inr \<lparr>ar_memory = of_nat m, ar_time = of_nat t, ar_threads = of_nat threads,
                                         ar_salt = salt, ar_hash = hash\<rparr>)))
      | _ \<Rightarrow> Inl (Opaque ''must be a valid Argon2id PHC string using version 19''))"

definition VerifyPassword :: "id_key \<Rightarrow> string \<Rightarrow> string \<Rightarrow> goerror + bool" where
  "VerifyPassword IDKey encodedHash password =
     (case parseArgon2ID encodedHash of
        Inl e \<Rightarrow> Inl e
      | Inr p \<Rightarrow>
          let actual = IDKey password (ar_salt p) (ar_time p) (ar_memory p) (ar_threads p)
                (of_nat (length (ar_hash p)))
          in Inr (actual = ar_hash p))"

section \<open>The hash-password tool\<close>

text \<open>The password: the argument if there is one, else a line of standard input, which is what was
  read up to the line end and whether reading failed. \<open>Inl\<close> is the message the tool exits with.\<close>

definition read_password :: "string list \<Rightarrow> string \<times> bool \<Rightarrow> string + string" where
  "read_password args stdin =
     (if length args > 1 then Inl ''Usage''
      else
        let arg = (case args of [] \<Rightarrow> '''' | a # _ \<Rightarrow> a) in
        case (if arg = '''' \<and> args = [] then
                (case stdin of (line, err) \<Rightarrow>
                   if err \<and> line = '''' then Inl ''Error: failed to read password from stdin''
                   else Inr (TrimRight line [CHR 0x0D, CHR 0x0A]))
              else Inr arg) of
          Inl e \<Rightarrow> Inl e
        | Inr password \<Rightarrow> if password = '''' then Inl ''Error: password must not be empty'' else Inr password)"

abbreviation MaxUint32 :: nat where
  "MaxUint32 \<equiv> 4294967295"

text \<open>The flags are 64-bit unsigned; \<open>salt\<close> is what \<open>rand.Read\<close> filled the salt with.\<close>

definition hash_password ::
  "id_key \<Rightarrow> string list \<Rightarrow> string \<times> bool \<Rightarrow> uint64 \<Rightarrow> uint64 \<Rightarrow> uint64 \<Rightarrow> uint64 \<Rightarrow> string \<Rightarrow> string + string"
where
  "hash_password IDKey args stdin m t p k salt =
     (case read_password args stdin of
        Inl e \<Rightarrow> Inl e
      | Inr password \<Rightarrow>
          if unat t = 0 \<or> unat t > MaxUint32 then Inl ''Error: invalid -t value''
          else if unat m = 0 \<or> unat m > MaxUint32 then Inl ''Error: invalid -m value''
          else if unat p = 0 \<or> unat p > 255 then Inl ''Error: invalid -p value''
          else if unat k = 0 \<or> unat k > MaxUint32 then Inl ''Error: invalid -k value''
          else
            let hash = IDKey password salt (ucast t) (ucast m) (ucast p) (ucast k) in
            Inr (''$argon2id$v=19$m='' @ itoa (unat m) @ '',t='' @ itoa (unat t) @ '',p='' @ itoa (unat p)
              @ ''$'' @ EncodeToString salt @ ''$'' @ EncodeToString hash))"

section \<open>Base64 round trip\<close>

lemma six_bits:
  fixes a b c :: nat
  assumes "a < 256" "b < 256" "c < 256"
  shows "a div 4 < 64" "a mod 4 * 16 + b div 16 < 64" "b mod 16 * 4 + c div 64 < 64" "c mod 64 < 64"
    "a mod 4 * 16 < 64" "b mod 16 * 4 < 64"
    "(a mod 4 * 16 + b div 16) div 16 = a mod 4" "(a mod 4 * 16 + b div 16) mod 16 = b div 16"
    "(b mod 16 * 4 + c div 64) div 4 = b mod 16" "(b mod 16 * 4 + c div 64) mod 4 = c div 64"
proof -
  have b: "b div 16 < 16" and c: "c div 64 < 4" using assms by auto
  have am: "a mod 4 < 4" and bm: "b mod 16 < 16" by auto
  show "a div 4 < 64" "c mod 64 < 64" using assms by auto
  show "a mod 4 * 16 + b div 16 < 64" "b mod 16 * 4 + c div 64 < 64" "a mod 4 * 16 < 64" "b mod 16 * 4 < 64"
    using am bm b c by linarith+
  show "(a mod 4 * 16 + b div 16) div 16 = a mod 4" "(a mod 4 * 16 + b div 16) mod 16 = b div 16"
    "(b mod 16 * 4 + c div 64) div 4 = b mod 16" "(b mod 16 * 4 + c div 64) mod 4 = c div 64"
    using b c by simp_all
qed

lemma unsextets_sextets: "(\<And>b. b \<in> set bs \<Longrightarrow> b < 256) \<Longrightarrow> unsextets (sextets bs) = Some bs"
proof (induction bs rule: sextets.induct)
  case (3 a b)
  then show ?case using six_bits [of a b 0] by simp
next
  case (4 a b c bs)
  then have "a < 256" "b < 256" "c < 256" "unsextets (sextets bs) = Some bs" by auto
  with six_bits [of a b c] show ?case by simp
qed simp_all

lemma sextets_small: "(\<And>b. b \<in> set bs \<Longrightarrow> b < 256) \<Longrightarrow> x \<in> set (sextets bs) \<Longrightarrow> x < 64"
proof (induction bs rule: sextets.induct)
  case (2 a)
  then show ?case using six_bits [of a 0 0] by auto
next
  case (3 a b)
  then show ?case using six_bits [of a b 0] by auto
next
  case (4 a b c bs)
  have abc: "a < 256" "b < 256" "c < 256" by (rule 4(2), simp)+
  have IH: "x < 64" if "x \<in> set (sextets bs)" using 4(1) [OF _ that] 4(2) by simp
  have "x \<in> set (a div 4 # (a mod 4 * 16 + b div 16) # (b mod 16 * 4 + c div 64) # c mod 64 # sextets bs)"
    using 4(3) by (simp only: sextets.simps)
  then consider "x = a div 4" | "x = a mod 4 * 16 + b div 16" | "x = b mod 16 * 4 + c div 64"
    | "x = c mod 64" | "x \<in> set (sextets bs)" unfolding set_simps by blast
  then show ?case by cases (simp_all only: six_bits(1-4) [OF abc] IH)
qed simp

lemma b64_val_char: "n < 64 \<Longrightarrow> b64_val (b64_char n) = Some n"
proof -
  assume "n < 64"
  then consider "n < 26" | "26 \<le> n" "n < 52" | "52 \<le> n" "n < 62" | "n = 62" | "n = 63" by linarith
  then show ?thesis by cases (auto simp: b64_val_def b64_char_def Let_def of_char_of)
qed

lemma b64_char_plain: "n < 64 \<Longrightarrow> b64_char n \<noteq> CHR 0x0A \<and> b64_char n \<noteq> CHR 0x0D \<and> b64_char n \<noteq> CHR ''$''"
proof -
  have "b64_val (CHR 0x0A) = None" "b64_val (CHR 0x0D) = None" "b64_val (CHR ''$'') = None" by code_simp+
  moreover assume "n < 64"
  ultimately show ?thesis using b64_val_char [of n] by force
qed

lemma DecodeString_EncodeToString: "DecodeString (EncodeToString s) = Some s"
proof -
  let ?xs = "sextets (str_bytes s)"
  have small: "x < 64" if "x \<in> set ?xs" for x
    using that str_bytes_less by (intro sextets_small) auto
  have f: "filter (\<lambda>c. c \<noteq> CHR 0x0A \<and> c \<noteq> CHR 0x0D) (map b64_char ?xs) = map b64_char ?xs"
    using small b64_char_plain by (auto simp: filter_id_conv)
  have v: "map b64_val (map b64_char ?xs) = map Some ?xs"
    using small b64_val_char by auto
  have "unsextets ?xs = Some (str_bytes s)" using str_bytes_less by (intro unsextets_sextets) auto
  then show ?thesis unfolding DecodeString_def EncodeToString_def f v by (simp add: comp_def)
qed

lemma EncodeToString_no_dollar: "CHR ''$'' \<notin> set (EncodeToString s)"
proof
  assume "CHR ''$'' \<in> set (EncodeToString s)"
  then obtain x where "x \<in> set (sextets (str_bytes s))" "b64_char x = CHR ''$''" by (auto simp: EncodeToString_def)
  moreover have "x < 64" using calculation(1) str_bytes_less by (intro sextets_small) auto
  ultimately show False using b64_char_plain by auto
qed

section \<open>Scanning what was printed\<close>

lemma concat_segs: "concat (map snd (segs bs)) = bs"
  by (induction bs rule: segs.induct) (auto split: prod.splits)

lemma unsegs_segs [simp]: "unsegs (segs (str_bytes s)) = s"
  by (simp add: unsegs_def concat_segs)

lemma digit_rune: "is_digit c \<Longrightarrow> rune1 (of_char c) bs = (of_char c, 1, True) \<and> \<not> IsSpace (of_char c)
    \<and> of_char c \<noteq> (13 :: nat) \<and> of_char c \<noteq> (10 :: nat)"
  by (auto simp: is_digit_def rune1_def IsSpace_def)

lemma scan_space_digit: "is_digit c \<Longrightarrow> scan_space (c # s) = Some (c # s)"
proof -
  assume c: "is_digit c"
  then have "segs (str_bytes (c # s)) = (of_char c, [of_char c]) # segs (str_bytes s)"
    using digit_rune [OF c, of "str_bytes s"] by (simp add: str_bytes_def)
  then have "skip_space (segs (str_bytes (c # s))) = Some (segs (str_bytes (c # s)))"
    using digit_rune [OF c] by simp
  then show ?thesis unfolding scan_space_def by (simp del: segs.simps)
qed

lemma itoa_all_digits: "c \<in> set (itoa n) \<Longrightarrow> is_digit c"
  using itoa_digits [of n] by (auto simp: list_all_iff)

lemma scan_uint_itoa:
  assumes "n < 2 ^ sz" and "n < 2 ^ 64" and rest: "rest = '''' \<or> \<not> is_digit (hd rest)"
  shows "scan_uint sz (itoa n @ rest) = Some (n, rest)"
proof -
  have t: "takeWhile is_digit (itoa n @ rest) = itoa n"
    using rest itoa_all_digits [of _ n] by (cases rest) (auto simp: takeWhile_append2)
  have d: "dropWhile is_digit (itoa n @ rest) = rest"
    using rest itoa_all_digits [of _ n] by (cases rest) (auto simp: dropWhile_append2)
  obtain c cs where c: "itoa n = c # cs" by (cases "itoa n") auto
  then have "scan_space (itoa n @ rest) = Some (itoa n @ rest)"
    using scan_space_digit [of c "cs @ rest"] itoa_all_digits [of c n] by simp
  moreover have "unat (of_nat n :: uint64) = n" using assms(2) by (simp add: unat_of_nat)
  ultimately show ?thesis
    using assms(1,2) by (simp add: scan_uint_def t d ParseUint_itoa)
qed

lemma scan_lit_append: "scan_lit l (l @ s) = Some s"
  by (simp add: scan_lit_def)

lemma scan_params_printed:
  assumes "m < 2 ^ 32" "t < 2 ^ 32" "p < 2 ^ 64"
  shows "scan_params (''m='' @ itoa m @ '',t='' @ itoa t @ '',p='' @ itoa p @ rest)
    = (if rest = '''' \<or> \<not> is_digit (hd rest) then Some (m, t, p)
       else scan_params (''m='' @ itoa m @ '',t='' @ itoa t @ '',p='' @ itoa p @ rest))"
proof -
  have c: "\<not> is_digit (CHR '','')" by code_simp
  have 1: "scan_uint 32 (itoa m @ '',t='' @ r) = Some (m, '',t='' @ r)" for r
    using assms c by (intro scan_uint_itoa) auto
  have 2: "scan_uint 32 (itoa t @ '',p='' @ r) = Some (t, '',p='' @ r)" for r
    using assms c by (intro scan_uint_itoa) auto
  have 3: "rest = '''' \<or> \<not> is_digit (hd rest) \<Longrightarrow> scan_uint 64 (itoa p @ rest) = Some (p, rest)"
    using assms by (intro scan_uint_itoa) auto
  show ?thesis
    unfolding scan_params_def scan_lit_append Option.bind.simps 1 2 prod.case using 3 by simp
qed

section \<open>The tool and the server agree\<close>

lemma Split_four: "CHR ''$'' \<notin> set a \<Longrightarrow> CHR ''$'' \<notin> set b \<Longrightarrow> CHR ''$'' \<notin> set c \<Longrightarrow>
    Split (CHR ''$'') (''$argon2id$v=19$'' @ a @ ''$'' @ b @ ''$'' @ c) = ['''', ''argon2id'', ''v=19'', a, b, c]"
proof -
  assume n: "CHR ''$'' \<notin> set a" "CHR ''$'' \<notin> set b" "CHR ''$'' \<notin> set c"
  have "Split (CHR ''$'') (b @ CHR ''$'' # c) = [b, c]"
    using n by (simp add: Split_append_sep Split_no_sep)
  then have "Split (CHR ''$'') (a @ CHR ''$'' # b @ CHR ''$'' # c) = [a, b, c]"
    using n by (simp add: Split_append_sep Split_no_sep)
  then show ?thesis by simp
qed

lemma printed_params_no_dollar: "CHR ''$'' \<notin> set (''m='' @ itoa m @ '',t='' @ itoa t @ '',p='' @ itoa p)"
proof -
  have "\<not> is_digit (CHR ''$'')" by code_simp
  then show ?thesis using itoa_all_digits by auto
qed

text \<open>What the parser makes of a printed hash.\<close>

lemma parse_printed:
  assumes "0 < m" "m < 2 ^ 32" "0 < t" "t < 2 ^ 32" "0 < p" "p \<le> 255"
  shows "parseArgon2ID (''$argon2id$v=19$m='' @ itoa m @ '',t='' @ itoa t @ '',p='' @ itoa p
      @ ''$'' @ EncodeToString salt @ ''$'' @ EncodeToString hash)
    = (if length salt < 8 then Inl (Opaque ''invalid Argon2id salt'')
       else if length hash < 16 then Inl (Opaque ''invalid Argon2id digest'')
       else if length hash > 4096 then
         Inl (Opaque (''invalid Argon2id digest: length '' @ itoa (length hash) @ '' exceeds maximum of '' @ itoa 4096 @ '' bytes''))
       else Inr \<lparr>ar_memory = of_nat m, ar_time = of_nat t, ar_threads = of_nat p, ar_salt = salt, ar_hash = hash\<rparr>)"
proof -
  let ?ps = "''m='' @ itoa m @ '',t='' @ itoa t @ '',p='' @ itoa p"
  have e: "''$argon2id$v=19$m='' @ itoa m @ '',t='' @ itoa t @ '',p='' @ itoa p
      @ ''$'' @ EncodeToString salt @ ''$'' @ EncodeToString hash
    = ''$argon2id$v=19$'' @ ?ps @ ''$'' @ EncodeToString salt @ ''$'' @ EncodeToString hash" by simp
  have s: "Split (CHR ''$'') (''$argon2id$v=19$'' @ ?ps @ ''$'' @ EncodeToString salt @ ''$'' @ EncodeToString hash)
    = ['''', ''argon2id'', ''v=19'', ?ps, EncodeToString salt, EncodeToString hash]"
    by (rule Split_four) (rule printed_params_no_dollar EncodeToString_no_dollar)+
  have sp: "scan_params ?ps = Some (m, t, p)"
    using scan_params_printed [of m t p "''''"] assms by simp
  show ?thesis unfolding parseArgon2ID_def e s list.case sp
    using assms by (simp add: DecodeString_EncodeToString maxArgon2DigestLength_def)
qed

lemma hash_password_Inr:
  assumes "hash_password IDKey args stdin m t p k salt = Inr enc"
  obtains pw where "read_password args stdin = Inr pw" "0 < unat m" "unat m < 2 ^ 32" "0 < unat t" "unat t < 2 ^ 32"
    "0 < unat p" "unat p \<le> 255" "unat k < 2 ^ 32"
    "enc = ''$argon2id$v=19$m='' @ itoa (unat m) @ '',t='' @ itoa (unat t) @ '',p='' @ itoa (unat p)
      @ ''$'' @ EncodeToString salt @ ''$'' @ EncodeToString (IDKey pw salt (ucast t) (ucast m) (ucast p) (ucast k))"
proof -
  obtain pw where pw: "read_password args stdin = Inr pw"
    using assms by (cases "read_password args stdin") (auto simp: hash_password_def)
  show thesis
    using assms by (intro that [OF pw]) (auto simp: hash_password_def pw Let_def not_less unat_eq_0 unat_gt_0 split: if_splits)
qed

text \<open>C17. A hash printed by the hash-password tool is accepted by the configuration exactly when
  its salt has at least 8 bytes and its digest between 16 and 4096; the tool checks neither. An
  accepted one verifies a password exactly when its Argon2id key is the one that was printed: in
  particular it verifies the password it was made from.\<close>

theorem hash_password_verifies:
  assumes hp: "hash_password IDKey args stdin m t p k salt = Inr enc"
    and key: "\<And>pw s t m p n. length (IDKey pw s t m p n) = unat n"
  shows "\<exists>pw. read_password args stdin = Inr pw
    \<and> (is_ok (parseArgon2ID enc) \<longleftrightarrow> 8 \<le> length salt \<and> 16 \<le> unat k \<and> unat k \<le> 4096)
    \<and> (is_ok (parseArgon2ID enc) \<longrightarrow> VerifyPassword IDKey enc pw = Inr True
         \<and> (\<forall>pw'. VerifyPassword IDKey enc pw' = Inr (IDKey pw' salt (ucast t) (ucast m) (ucast p) (ucast k)
              = IDKey pw salt (ucast t) (ucast m) (ucast p) (ucast k))))"
  using hp
proof (rule hash_password_Inr)
  fix pw
  assume pw: "read_password args stdin = Inr pw" and b: "0 < unat m" "unat m < 2 ^ 32" "0 < unat t" "unat t < 2 ^ 32"
    "0 < unat p" "unat p \<le> 255" "unat k < 2 ^ 32"
    and enc: "enc = ''$argon2id$v=19$m='' @ itoa (unat m) @ '',t='' @ itoa (unat t) @ '',p='' @ itoa (unat p)
      @ ''$'' @ EncodeToString salt @ ''$'' @ EncodeToString (IDKey pw salt (ucast t) (ucast m) (ucast p) (ucast k))"
  let ?h = "IDKey pw salt (ucast t) (ucast m) (ucast p) (ucast k)"
  have uk: "unat (ucast k :: 32 word) = unat k" using b(7) by (simp add: unsigned_ucast_eq take_bit_nat_eq_self)
  have lh: "length ?h = unat k" by (simp add: key uk)
  have w: "(of_nat (unat m) :: 32 word) = ucast m" "(of_nat (unat t) :: 32 word) = ucast t"
    "(of_nat (unat p) :: 8 word) = ucast p" "(of_nat (unat k) :: 32 word) = ucast k" by (simp_all add: unsigned_ucast_eq)
  note P = parse_printed [OF b(1-6), of salt ?h, folded enc]
  have v: "VerifyPassword IDKey enc pw' = Inr (IDKey pw' salt (ucast t) (ucast m) (ucast p) (ucast k) = ?h)"
    if "8 \<le> length salt" "16 \<le> unat k" "unat k \<le> 4096" for pw'
    using that by (simp add: VerifyPassword_def P lh w)
  have ok: "is_ok (parseArgon2ID enc) \<longleftrightarrow> 8 \<le> length salt \<and> 16 \<le> unat k \<and> unat k \<le> 4096"
    by (simp add: P lh not_less [symmetric])
  have "VerifyPassword IDKey enc pw = Inr True" if "is_ok (parseArgon2ID enc)" using that ok v [of pw] by simp
  with pw ok v show ?thesis by (intro exI [of _ pw]) simp
qed

text \<open>A toy key function of the right length, for the example.\<close>

definition toy_key :: id_key where
  "toy_key pw s t m p n = take (unat n) (pw @ s @ replicate (unat n) (CHR ''x''))"

lemma example_texts:
  "EncodeToString ''0123456789abcdef'' = ''MDEyMzQ1Njc4OWFiY2RlZg''"
  "EncodeToString ''hunter2012345678'' = ''aHVudGVyMjAxMjM0NTY3OA''"
  "itoa 64 = ''64''" "itoa 3 = ''3''" "itoa 4 = ''4''"
  by code_simp+

theorem hash_password_verifies_witness:
  "case hash_password toy_key [''hunter2''] ('''', False) 64 3 4 16 ''0123456789abcdef'' of
     Inl e \<Rightarrow> False
   | Inr enc \<Rightarrow> enc = ''$argon2id$v=19$m=64,t=3,p=4$MDEyMzQ1Njc4OWFiY2RlZg$aHVudGVyMjAxMjM0NTY3OA''
       \<and> VerifyPassword toy_key enc ''hunter2'' = Inr True \<and> VerifyPassword toy_key enc ''hunter3'' = Inr False"
proof -
  let ?h = "hash_password toy_key [''hunter2''] ('''', False) 64 3 4 16 ''0123456789abcdef''"
  have rp: "read_password [''hunter2''] ('''', False) = Inr ''hunter2''" by code_simp
  have k: "toy_key ''hunter2'' ''0123456789abcdef'' t m p 16 = ''hunter2012345678''"
    "toy_key ''hunter3'' ''0123456789abcdef'' t m p 16 = ''hunter3012345678''" for t m p
    by (simp_all add: toy_key_def)
  have w: "(ucast (16 :: uint64) :: 32 word) = 16" by simp
  have h: "?h = Inr ''$argon2id$v=19$m=64,t=3,p=4$MDEyMzQ1Njc4OWFiY2RlZg$aHVudGVyMjAxMjM0NTY3OA''"
    by (simp add: hash_password_def rp Let_def k w example_texts)
  have "length (toy_key pw s t m p n) = unat n" for pw s t m p n by (simp add: toy_key_def)
  note H = hash_password_verifies [OF h this, unfolded rp]
  then have "is_ok (parseArgon2ID ''$argon2id$v=19$m=64,t=3,p=4$MDEyMzQ1Njc4OWFiY2RlZg$aHVudGVyMjAxMjM0NTY3OA'')"
    by simp
  with H show ?thesis unfolding h by (auto simp: k w)
qed

text \<open>The parser of password hashes ignores whatever follows the last parameter, so a string
  with trailing garbage there is accepted as the same hash.\<close>

theorem hash_parameters_trailing_text:
  assumes "0 < m" "m < 2 ^ 32" "0 < t" "t < 2 ^ 32" "0 < p" "p \<le> 255"
    and "junk \<noteq> ''''" "\<not> is_digit (hd junk)" "CHR ''$'' \<notin> set junk"
  shows "parseArgon2ID (''$argon2id$v=19$'' @ (''m='' @ itoa m @ '',t='' @ itoa t @ '',p='' @ itoa p @ junk)
      @ ''$'' @ EncodeToString salt @ ''$'' @ EncodeToString hash)
    = parseArgon2ID (''$argon2id$v=19$'' @ (''m='' @ itoa m @ '',t='' @ itoa t @ '',p='' @ itoa p)
      @ ''$'' @ EncodeToString salt @ ''$'' @ EncodeToString hash)"
proof -
  let ?ps = "''m='' @ itoa m @ '',t='' @ itoa t @ '',p='' @ itoa p"
  have a: "CHR ''$'' \<notin> set (''m='' @ itoa m @ '',t='' @ itoa t @ '',p='' @ itoa p @ junk)"
    using printed_params_no_dollar [of m t p] assms(9) by simp
  have j: "scan_params (''m='' @ itoa m @ '',t='' @ itoa t @ '',p='' @ itoa p @ junk) = Some (m, t, p)"
    using scan_params_printed [of m t p junk] assms by simp
  have n: "scan_params ?ps = Some (m, t, p)" using scan_params_printed [of m t p "''''"] assms by simp
  show ?thesis
    unfolding parseArgon2ID_def Split_four [OF a EncodeToString_no_dollar EncodeToString_no_dollar]
      Split_four [OF printed_params_no_dollar EncodeToString_no_dollar EncodeToString_no_dollar] list.case j n ..
qed

theorem hash_parameters_trailing_text_witness:
  "is_ok (parseArgon2ID ''$argon2id$v=19$m=64,t=3,p=4,data=x$MDEyMzQ1Njc4OWFiY2RlZg$aHVudGVyMjAxMjM0NTY3OA'')"
proof -
  have "\<not> is_digit (CHR '','')" by code_simp
  then have "parseArgon2ID ''$argon2id$v=19$m=64,t=3,p=4,data=x$MDEyMzQ1Njc4OWFiY2RlZg$aHVudGVyMjAxMjM0NTY3OA''
    = parseArgon2ID ''$argon2id$v=19$m=64,t=3,p=4$MDEyMzQ1Njc4OWFiY2RlZg$aHVudGVyMjAxMjM0NTY3OA''"
    using hash_parameters_trailing_text [of 64 3 4 "'',data=x''" "''0123456789abcdef''" "''hunter2012345678''"]
    by (simp add: example_texts)
  moreover have "is_ok (parseArgon2ID ''$argon2id$v=19$m=64,t=3,p=4$MDEyMzQ1Njc4OWFiY2RlZg$aHVudGVyMjAxMjM0NTY3OA'')"
    using parse_printed [of 64 3 4 "''0123456789abcdef''" "''hunter2012345678''"] by (simp add: example_texts)
  ultimately show ?thesis by simp
qed

end
