(* ===== verification/Config.thy ===== *)
theory Config
  imports GoPath GoNet OsFiles Passwords
begin

text \<open>
  The configuration (\<open>pkg/config/config.go\<close>): its data, the defaults, the parsing of byte sizes,
  the scan for plaintext credentials, loading and validation. Decoding YAML, which is
  \<open>gopkg.in/yaml.v3\<close>, is the parameter \<open>decode\<close>; reading a file and the process environment are
  the parameters \<open>read_file\<close> and \<open>lookupEnv\<close>; loading a key pair is the parameter \<open>tls\<close>.
  Durations are nanoseconds. Validation fills in derived fields, so it returns the configuration it
  ends with; the callers drop the configuration when it fails.
\<close>

section \<open>Byte sizes\<close>

type_synonym ByteSize = uint64

text \<open>The error of \<open>strconv.ParseUint(s, 10, 64)\<close>.\<close>

definition ParseUint_error :: "string \<Rightarrow> goerror" where
  "ParseUint_error s = Opaque (''strconv.ParseUint: parsing '' @ quoted s @ '': ''
     @ (if s = '''' \<or> \<not> list_all is_digit s then ''invalid syntax'' else ''value out of range''))"

definition units :: "(string \<times> uint64) list" where
  "units = [(''GiB'', 1024 * 1024 * 1024), (''MiB'', 1024 * 1024), (''KiB'', 1024), (''B'', 1)]"

fun parse_units :: "string \<Rightarrow> (string \<times> uint64) list \<Rightarrow> goerror + ByteSize" where
  "parse_units v [] =
     (case ParseUint v of
        None \<Rightarrow> Inl (Opaque (''invalid byte size '' @ quoted v @ '': expected B, KiB, MiB or GiB''))
      | Some n \<Rightarrow> Inr n)"
| "parse_units v ((sfx, factor) # us) =
     (if HasSuffix v sfx then
        (let num = TrimSpace (TrimSuffix v sfx) in
         case ParseUint num of
           None \<Rightarrow> Inl (Wrapf (''invalid byte size '' @ quoted v @ '': '') (ParseUint_error num) '''')
         | Some n \<Rightarrow>
             if n > (- 1) div factor then Inl (Opaque (''byte size '' @ quoted v @ '' overflows uint64''))
             else Inr (n * factor))
      else parse_units v us)"

definition ParseByteSize :: "string \<Rightarrow> goerror + ByteSize" where
  "ParseByteSize value =
     (let value = TrimSpace value in
      if value = '''' then Inl (Opaque ''byte size is empty'') else parse_units value units)"

text \<open>The new value and the error; a value that does not parse leaves the old one.\<close>

definition UnmarshalYAML :: "string \<Rightarrow> ByteSize \<Rightarrow> goerror option \<times> ByteSize" where
  "UnmarshalYAML value b = (case ParseByteSize value of Inl e \<Rightarrow> (Some e, b) | Inr n \<Rightarrow> (None, n))"

section \<open>Data\<close>

record PassiveConfig =
  MinPort :: int
  MaxPort :: int
  PublicIP :: string

record TLSConfig =
  TLS_Enabled :: bool
  TLS_Cert :: string
  TLS_Key :: string

record RateLimitConfig =
  MaxConnectionsPerIP :: int
  MaxGlobalConnections :: int
  MaxAuthAttemptsPerIP :: int
  AuthAttemptWindow :: int
  AuthLockoutDuration :: int
  TrackFailedAttempts :: bool

record ServerConfig =
  Listen :: string
  Passive :: PassiveConfig
  TLS :: TLSConfig
  MaxConnections :: int
  AllowActiveMode :: bool
  RateLimiting :: RateLimitConfig

record OCISConfig =
  OCIS_URL :: string
  GraphURL :: string
  WebDAVURL :: string
  CAFile :: string
  InsecureSkipVerify :: bool

text \<open>A \<open>float64\<close> is a mantissa \<open>m\<close> and an exponent \<open>e\<close>, for \<open>m * 2 ^ e\<close>.\<close>

type_synonym float64 = "int \<times> int"

record MonitoringConfig =
  Mon_Enabled :: bool
  WarningThreshold :: float64
  CriticalThreshold :: float64
  CheckInterval :: int

record SpoolConfig =
  Directory :: string
  MaxTotalSize :: ByteSize
  MaxSize :: uint64
  Monitoring :: MonitoringConfig

record AccountOCISConfig =
  OCIS_Username :: string
  AppTokenEnv :: string

record AccountTarget =
  Target_DriveID :: string
  Target_Drive :: string
  Target_Root :: string

record UploadConfig =
  CollisionPolicy_of :: string
  Upload_MaxSize :: ByteSize
  MaxConcurrentUploads :: int

record AccountConfig =
  Username :: string
  PasswordHash :: string
  OCIS :: AccountOCISConfig
  Target :: AccountTarget
  Upload_of :: UploadConfig
  AppToken :: string

record LoggerConfig =
  Log_Level :: string
  Log_Format :: string
  Log_Output :: string
  AddSource :: bool

record ObservabilityConfig =
  Obs_Debug :: bool
  Obs_Logger :: LoggerConfig

record HTTPAuthConfig =
  Auth_Enabled :: bool
  Auth_Method :: string
  Auth_Username :: string
  Auth_Password :: string
  BearerToken :: string
  BearerTokenEnv :: string

record HTTPConfig =
  HTTP_Address :: string
  HTTP_Auth :: HTTPAuthConfig

record Config =
  Server :: ServerConfig
  OCIS_of :: OCISConfig
  Spool_of :: SpoolConfig
  Accounts :: "AccountConfig list"
  Observability :: ObservabilityConfig
  HTTP :: HTTPConfig

abbreviation seconds :: "int \<Rightarrow> int" where
  "seconds n \<equiv> n * 1000000000"

definition New_config :: Config where
  "New_config =
     \<lparr>Server = \<lparr>Listen = '':2121'', Passive = \<lparr>MinPort = 40000, MaxPort = 50000, PublicIP = ''''\<rparr>,
        TLS = \<lparr>TLS_Enabled = True, TLS_Cert = '''', TLS_Key = ''''\<rparr>, MaxConnections = 100,
        AllowActiveMode = True,
        RateLimiting = \<lparr>MaxConnectionsPerIP = 10, MaxGlobalConnections = 100, MaxAuthAttemptsPerIP = 5,
          AuthAttemptWindow = seconds 60, AuthLockoutDuration = seconds 300, TrackFailedAttempts = True\<rparr>\<rparr>,
      OCIS_of = \<lparr>OCIS_URL = ''http://localhost:9200'', GraphURL = '''', WebDAVURL = '''', CAFile = '''',
        InsecureSkipVerify = False\<rparr>,
      Spool_of = \<lparr>Directory = ''/var/tmp/ocis-ftp-bridge-spool'', MaxTotalSize = 1024 * 1024 * 1024,
        MaxSize = 1024 * 1024 * 1024,
        Monitoring = \<lparr>Mon_Enabled = True, WarningThreshold = (80, 0), CriticalThreshold = (95, 0), CheckInterval = seconds 30\<rparr>\<rparr>,
      Accounts = [],
      Observability = \<lparr>Obs_Debug = False,
        Obs_Logger = \<lparr>Log_Level = '''', Log_Format = '''', Log_Output = '''', AddSource = False\<rparr>\<rparr>,
      HTTP = \<lparr>HTTP_Address = ''127.0.0.1:9090'',
        HTTP_Auth = \<lparr>Auth_Enabled = True, Auth_Method = ''basic'', Auth_Username = ''admin'', Auth_Password = '''',
          BearerToken = '''', BearerTokenEnv = ''''\<rparr>\<rparr>\<rparr>"

section \<open>The scan for plaintext credentials\<close>

definition passwordPatterns :: "string list" where
  "passwordPatterns = [''password:'', ''password: '', ''passwd:'', ''passwd: '', ''secret:'', ''secret: '',
     ''token:'', ''token: '']"

definition commonPasswords :: "string list" where
  "commonPasswords = [''password'', ''123456'', ''qwerty'', ''admin'', ''letmein'', ''welcome'', ''secret'', ''changeme'']"

text \<open>\<open>strings.EqualFold\<close> with an ASCII string: the letters of either case, the long s and the
  Kelvin sign fold together.\<close>

definition fold_rune :: "nat \<Rightarrow> nat" where
  "fold_rune r = (if 65 \<le> r \<and> r \<le> 90 then r + 32 else if r = 0x17F then 115 else if r = 0x212A then 107 else r)"

definition EqualFold :: "string \<Rightarrow> string \<Rightarrow> bool" where
  "EqualFold s t \<longleftrightarrow> map fold_rune (range_runes s) = map fold_rune (range_runes t)"

text \<open>The verdict on one line that contains the pattern.\<close>

definition check_line :: "string \<Rightarrow> string \<Rightarrow> goerror option" where
  "check_line pattern line =
     (if CHR '':'' \<notin> set line then None
      else
        let v = TrimSpace (tl (dropWhile (\<lambda>c. c \<noteq> CHR '':'') line)) in
        if HasPrefix v ''$'' then None
        else if v = '''' \<or> HasPrefix v [CHR 0x22] \<or> HasPrefix v [CHR 0x27] then None
        else if list_ex (EqualFold v) commonPasswords then
          Some (Opaque (''potential plaintext password detected: '' @ pattern))
        else if length v > 20 \<and> \<not> list_ex (\<lambda>c. c \<in> {CHR '' '', CHR 0x09, CHR 0x0A}) v then
          Some (Opaque (''potential plaintext credential detected: '' @ pattern))
        else None)"

fun first_some :: "('a \<Rightarrow> 'b option) \<Rightarrow> 'a list \<Rightarrow> 'b option" where
  "first_some f [] = None"
| "first_some f (x # xs) = (case f x of None \<Rightarrow> first_some f xs | Some y \<Rightarrow> Some y)"

definition checkForPlaintextCredentials :: "(string \<Rightarrow> goerror + string) \<Rightarrow> string \<Rightarrow> goerror option" where
  "checkForPlaintextCredentials read_file filename =
     (case read_file filename of
        Inl e \<Rightarrow> None
      | Inr content \<Rightarrow>
          first_some (\<lambda>pattern.
            if Contains content pattern then
              first_some (check_line pattern) (filter (\<lambda>line. Contains line pattern) (Split (CHR 0x0A) content))
            else None) passwordPatterns)"

section \<open>Validation\<close>

definition validatePassive :: "PassiveConfig \<Rightarrow> goerror option" where
  "validatePassive p =
     (if MinPort p < 1 \<or> MinPort p > 65535 \<or> MaxPort p < 1 \<or> MaxPort p > 65535 \<or> MinPort p > MaxPort p then
        Some (Opaque (''server.passive port range '' @ itoa_int (MinPort p) @ ''-'' @ itoa_int (MaxPort p) @ '' is invalid''))
      else if PublicIP p \<noteq> '''' \<and> \<not> ParseIP (PublicIP p) then
        Some (Opaque (''server.passive.public_ip '' @ quoted (PublicIP p) @ '' is invalid''))
      else None)"

text \<open>A label is judged by its runes; outside ASCII none is allowed.\<close>

definition label_rune :: "nat \<Rightarrow> bool" where
  "label_rune r \<longleftrightarrow> (97 \<le> r \<and> r \<le> 122) \<or> (65 \<le> r \<and> r \<le> 90) \<or> (48 \<le> r \<and> r \<le> 57) \<or> r = 45"

definition isValidHostname :: "string \<Rightarrow> bool" where
  "isValidHostname hostname \<longleftrightarrow>
     \<not> length hostname > 253
     \<and> list_all (\<lambda>label. \<not> (length label = 0 \<or> length label > 63)
          \<and> \<not> (hd label = CHR ''-'' \<or> last label = CHR ''-'')
          \<and> list_all label_rune (range_runes label)) (Split (CHR ''.'') hostname)"

definition Atoi_error :: "string \<Rightarrow> goerror" where
  "Atoi_error s = Opaque (''strconv.Atoi: parsing '' @ quoted s @ '': ''
     @ (let t = (if s \<noteq> '''' \<and> hd s \<in> {CHR ''-'', CHR ''+''} then tl s else s)
        in if t = '''' \<or> \<not> list_all is_digit t then ''invalid syntax'' else ''value out of range''))"

definition validateServerListenAddress :: "string \<Rightarrow> goerror option" where
  "validateServerListenAddress addr0 =
     (let addr = TrimSpace addr0 in
      if addr = '''' then Some (Opaque ''address is required'')
      else if CHR '':'' \<notin> set addr then
        Some (Opaque (''invalid address format '' @ quoted addr @ '': expected host:port or :port''))
      else
        case (case SplitHostPort addr of
                Some hp \<Rightarrow> Inr hp
              | None \<Rightarrow>
                  if HasPrefix addr '':'' then Inr ('''', TrimPrefix addr '':'')
                  else Inl (Wrapf (''invalid address format '' @ quoted addr @ '': '') (Opaque (''address '' @ addr)) '''')) of
          Inl e \<Rightarrow> Some e
        | Inr (host, port) \<Rightarrow>
            if port = '''' then Some (Opaque ''port is required'')
            else
              (case Atoi port of
                 None \<Rightarrow> Some (Wrapf (''invalid port '' @ quoted port @ '': '') (Atoi_error port) '''')
               | Some n \<Rightarrow>
                   if n < 1 \<or> n > 65535 then Some (Opaque (''port '' @ itoa_int n @ '' must be between 1 and 65535''))
                   else if host \<noteq> '''' \<and> host \<noteq> ''0.0.0.0'' \<and> host \<noteq> ''::'' \<and> host \<noteq> ''*''
                     \<and> \<not> ParseIP (takeWhile (\<lambda>c. c \<noteq> CHR ''%'') host) \<and> \<not> isValidHostname host then
                     Some (Opaque (''invalid hostname '' @ quoted host))
                   else None))"

definition normalizeTargetRoot :: "string \<Rightarrow> goerror + string" where
  "normalizeTargetRoot root =
     (if TrimSpace root = '''' \<or> \<not> HasPrefix root ''/'' then Inl (Opaque ''must be an absolute path'')
      else if list_ex (\<lambda>part. part = ''..'')
                (Split (CHR ''/'') (map (\<lambda>c. if c = CHR 0x5C then CHR ''/'' else c) root)) then
        Inl (Opaque ''path traversal is not allowed'')
      else Inr (Clean root))"

definition http_url :: "string \<Rightarrow> bool" where
  "http_url raw \<longleftrightarrow> (case url_parse raw of
     None \<Rightarrow> False
   | Some (scheme, host) \<Rightarrow> \<not> (scheme = '''' \<or> host = '''' \<or> (scheme \<noteq> ''http'' \<and> scheme \<noteq> ''https'')))"

text \<open>The two URLs are looked at in the order of a map, so which error is reported when both are
  wrong is not determined; the model takes the Graph URL first.\<close>

definition validateOCIS :: "OCISConfig \<Rightarrow> goerror + OCISConfig" where
  "validateOCIS o0 =
     (case (if TrimSpace (OCIS_URL o0) \<noteq> '''' then
              (if \<not> http_url (OCIS_URL o0) then
                 Inl (Opaque (''ocis.url '' @ quoted (OCIS_URL o0) @ '' must be an absolute http(s) URL''))
               else
                 let base = TrimRight (OCIS_URL o0) ''/'';
                     o1 = (if GraphURL o0 = '''' then o0\<lparr>GraphURL := base @ ''/graph/v1.0''\<rparr> else o0)
                 in Inr (if WebDAVURL o1 = '''' then o1\<lparr>WebDAVURL := base @ ''/webdav''\<rparr> else o1))
            else Inr o0) of
        Inl e \<Rightarrow> Inl e
      | Inr o2 \<Rightarrow>
          if \<not> http_url (GraphURL o2) then
            Inl (Opaque (''ocis.graph_url '' @ quoted (GraphURL o2) @ '' must be an absolute http(s) URL''))
          else if \<not> http_url (WebDAVURL o2) then
            Inl (Opaque (''ocis.webdav_url '' @ quoted (WebDAVURL o2) @ '' must be an absolute http(s) URL''))
          else Inr o2)"

definition validateHTTP :: "(string \<Rightarrow> string option) \<Rightarrow> HTTPAuthConfig \<Rightarrow> goerror + HTTPAuthConfig" where
  "validateHTTP lookupEnv a =
     (if \<not> Auth_Enabled a then Inr a
      else if Auth_Method a = ''basic'' then
        (if TrimSpace (Auth_Username a) = '''' then
           Inl (Opaque ''http.auth.username is required when http.auth.enabled=true and method=basic'')
         else if TrimSpace (Auth_Password a) = '''' then Inr (a\<lparr>Auth_Password := ''''\<rparr>)
         else Inr a)
      else if Auth_Method a = ''bearer'' then
        (if TrimSpace (BearerToken a) = '''' \<and> TrimSpace (BearerTokenEnv a) = '''' then
           Inl (Opaque ''http.auth.bearer_token or http.auth.bearer_token_env is required when http.auth.enabled=true and method=bearer'')
         else if TrimSpace (BearerTokenEnv a) \<noteq> '''' then
           (case lookupEnv (BearerTokenEnv a) of
              None \<Rightarrow> Inl (Opaque (''http.auth.bearer_token_env '' @ quoted (BearerTokenEnv a) @ '' is not set or empty''))
            | Some token \<Rightarrow>
                if TrimSpace token = '''' then
                  Inl (Opaque (''http.auth.bearer_token_env '' @ quoted (BearerTokenEnv a) @ '' is not set or empty''))
                else Inr (a\<lparr>BearerToken := token\<rparr>))
         else Inr a)
      else if Auth_Method a = ''none'' \<or> Auth_Method a = '''' then
        Inl (Opaque ''http.auth.method is required when http.auth.enabled=true'')
      else Inl (Opaque (''http.auth.method '' @ quoted (Auth_Method a) @ '' is invalid; expected basic, bearer, or none'')))"

section \<open>Accounts\<close>

definition exampleHashes :: "string list" where
  "exampleHashes =
     [''$argon2id$v=19$m=65536,t=3,p=1$MDEyMzQ1Njc4OWFiY2RlZg$AAAAAAAAAAAAAAAAAAAAAAAAAAAAAAAAAAAAAAAAAAA'',
      ''$argon2id$v=19$m=65536,t=3,p=4$c29tZXNhbHQ$RdescudvJC1OeqncgJ2almHUfLnhtRTVrjD8zGQ'',
      ''$argon2id$v=19$m=65536,t=3,p=4$jK4n6v8Bw5Fh9Lm3NqPj8H$DWQ3EeT6RfYhMjDfGvXpCnMqLkJiGfDs'',
      ''$argon2id$v=19$m=65536,t=3,p=4$kL5n7v9Bw6Fh0Lm4NqPj9H$EWQ4EeT7RfYhNkDfGvXpDnMqLkJkGfDt'']"

definition collision_policy_ok :: "string \<Rightarrow> bool" where
  "collision_policy_ok p \<longleftrightarrow> p \<in> {''rename'', ''reject'', ''overwrite''}"

text \<open>The checks on one account after the one for duplicates; \<open>prefix_text\<close> is its prefix.\<close>

definition validate_account ::
  "(string \<Rightarrow> string option) \<Rightarrow> string \<Rightarrow> AccountConfig \<Rightarrow> goerror + AccountConfig"
where
  "validate_account lookupEnv prefix_text a =
     (case parseArgon2ID (PasswordHash a) of
        Inl e \<Rightarrow> Inl (Wrapf (prefix_text @ ''.password_hash: '') e '''')
      | Inr _ \<Rightarrow>
          if list_ex (Contains (PasswordHash a)) exampleHashes then
            Inl (Opaque (prefix_text @ ''.password_hash: example/default hash detected. Generate a unique hash for production use''))
          else if TrimSpace (OCIS_Username (OCIS a)) = '''' then Inl (Opaque (prefix_text @ ''.ocis.username is required''))
          else if TrimSpace (AppTokenEnv (OCIS a)) = '''' then Inl (Opaque (prefix_text @ ''.ocis.app_token_env is required''))
          else
            let missing = Inl (Opaque (prefix_text @ ''.ocis.app_token_env '' @ quoted (AppTokenEnv (OCIS a)) @ '' is not set or empty'')) in
            case lookupEnv (AppTokenEnv (OCIS a)) of
              None \<Rightarrow> missing
            | Some token \<Rightarrow>
                if TrimSpace token = '''' then missing
                else if TrimSpace (Target_DriveID (Target a)) = '''' \<and> TrimSpace (Target_Drive (Target a)) = '''' then
                  Inl (Opaque (prefix_text @ ''.target requires drive_id or drive''))
                else
                  (case normalizeTargetRoot (Target_Root (Target a)) of
                     Inl e \<Rightarrow> Inl (Wrapf (prefix_text @ ''.target.root: '') e '''')
                   | Inr root \<Rightarrow>
                       if \<not> collision_policy_ok (CollisionPolicy_of (Upload_of a)) then
                         Inl (Opaque (prefix_text @ ''.upload.collision_policy '' @ quoted (CollisionPolicy_of (Upload_of a))
                           @ '' is invalid; expected rename, reject or overwrite''))
                       else if Upload_MaxSize (Upload_of a) = 0 then
                         Inl (Opaque (prefix_text @ ''.upload.max_size must be greater than zero''))
                       else if MaxConcurrentUploads (Upload_of a) < 0 then
                         Inl (Opaque (prefix_text @ ''.upload.max_concurrent_uploads must be >= 0 (0 = unlimited)''))
                       else if Upload_MaxSize (Upload_of a) > 9223372036854775807 then
                         Inl (Opaque (prefix_text @ ''.upload.max_size must not exceed 9223372036854775807 bytes''))
                       else Inr (a\<lparr>AppToken := token, Target := Target a\<lparr>Target_Root := root\<rparr>\<rparr>)))"

fun validate_accounts ::
  "(string \<Rightarrow> string option) \<Rightarrow> nat \<Rightarrow> string list \<Rightarrow> AccountConfig list \<Rightarrow> goerror + AccountConfig list"
where
  "validate_accounts lookupEnv i seen [] = Inr []"
| "validate_accounts lookupEnv i seen (a # as) =
     (let prefix_text = ''accounts['' @ itoa i @ '']'' in
      if TrimSpace (Username a) = '''' then Inl (Opaque (prefix_text @ ''.username is required''))
      else if Username a \<in> set seen then Inl (Opaque (''duplicate FTP username '' @ quoted (Username a)))
      else case validate_account lookupEnv prefix_text a of
        Inl e \<Rightarrow> Inl e
      | Inr a' \<Rightarrow>
          (case validate_accounts lookupEnv (Suc i) (Username a # seen) as of
             Inl e \<Rightarrow> Inl e
           | Inr as' \<Rightarrow> Inr (a' # as')))"

section \<open>The whole configuration\<close>

definition validate_spool :: "SpoolConfig \<Rightarrow> goerror + SpoolConfig" where
  "validate_spool s =
     (if \<not> IsAbs (Directory s) then Inl (Opaque (''spool.directory must be an absolute path: '' @ quoted (Directory s)))
      else
        let s1 = (if MaxTotalSize s = 0 \<and> MaxSize s > 0 then s\<lparr>MaxTotalSize := MaxSize s\<rparr> else s) in
        if MaxTotalSize s1 = 0 then Inl (Opaque ''spool.max_total_size must be greater than zero'')
        else Inr (s1\<lparr>MaxSize := MaxTotalSize s1\<rparr>))"

definition validateWithEnv :: "(string \<Rightarrow> string option) \<Rightarrow> Config option \<Rightarrow> goerror + Config" where
  "validateWithEnv lookupEnv cfg =
     (case cfg of
        None \<Rightarrow> Inl (Opaque ''configuration is nil'')
      | Some c \<Rightarrow>
          if TrimSpace (Listen (Server c)) = '''' then Inl (Opaque ''server.listen is required'')
          else case validateServerListenAddress (Listen (Server c)) of
            Some e \<Rightarrow> Inl (Wrapf ''server.listen: '' e '''')
          | None \<Rightarrow>
              (case validatePassive (Passive (Server c)) of
                 Some e \<Rightarrow> Inl e
               | None \<Rightarrow>
                   if TLS_Enabled (TLS (Server c))
                      \<and> (TrimSpace (TLS_Cert (TLS (Server c))) = '''' \<or> TrimSpace (TLS_Key (TLS (Server c))) = '''') then
                     Inl (Opaque ''server.tls.cert and server.tls.key are required when TLS is enabled'')
                   else
                     (case validateOCIS (OCIS_of c) of
                        Inl e \<Rightarrow> Inl e
                      | Inr ocis \<Rightarrow>
                          (case validateHTTP lookupEnv (HTTP_Auth (HTTP c)) of
                             Inl e \<Rightarrow> Inl e
                           | Inr auth \<Rightarrow>
                               (case validate_spool (Spool_of c) of
                                  Inl e \<Rightarrow> Inl e
                                | Inr sp \<Rightarrow>
                                    if Accounts c = [] then
                                      Inl (Opaque ''at least one account is required (accounts must not be empty)'')
                                    else
                                      (case validate_accounts lookupEnv 0 [] (Accounts c) of
                                         Inl e \<Rightarrow> Inl e
                                       | Inr as \<Rightarrow>
                                           Inr (c\<lparr>OCIS_of := ocis, HTTP := HTTP c\<lparr>HTTP_Auth := auth\<rparr>, Spool_of := sp,
                                                  Accounts := as\<rparr>)))))))"

section \<open>Loading\<close>

fun check_usernames :: "nat \<Rightarrow> string list \<Rightarrow> AccountConfig list \<Rightarrow> goerror option" where
  "check_usernames i seen [] = None"
| "check_usernames i seen (a # as) =
     (if TrimSpace (Username a) = '''' then Some (Opaque (''accounts['' @ itoa i @ ''].username is required''))
      else if Username a \<in> set seen then Some (Opaque (''duplicate FTP username '' @ quoted (Username a)))
      else check_usernames (Suc i) (Username a # seen) as)"

text \<open>The result and whether a warning about credentials was logged.\<close>

definition LoadFileWithEnv ::
  "(string \<Rightarrow> goerror + string) \<Rightarrow> (string \<Rightarrow> Config \<Rightarrow> goerror + Config) \<Rightarrow> (string \<Rightarrow> string option) \<Rightarrow> string \<Rightarrow>
     (goerror + Config) \<times> bool"
where
  "LoadFileWithEnv read_file decode lookupEnv filename =
     (if TrimSpace filename = '''' then (Inl (Opaque ''configuration file path is required''), False)
      else
        let warned = (checkForPlaintextCredentials read_file filename \<noteq> None) in
        (case read_file filename of
           Inl e \<Rightarrow> Inl (Wrapf (''open configuration '' @ quoted filename @ '': '') e '''')
         | Inr content \<Rightarrow>
             (case decode content New_config of
                Inl e \<Rightarrow> Inl (Wrapf (''decode configuration '' @ quoted filename @ '': '') e '''')
              | Inr cfg \<Rightarrow>
                  (case check_usernames 0 [] (Accounts cfg) of
                     Some e \<Rightarrow> Inl e
                   | None \<Rightarrow>
                       (case validateWithEnv lookupEnv (Some cfg) of
                          Inl e \<Rightarrow> Inl (Wrapf (''validate configuration '' @ quoted filename @ '': '') e '''')
                        | Inr c \<Rightarrow> Inr c))), warned))"

section \<open>TLS\<close>

datatype public_key = RSAKey nat | ECDSAKey string | Ed25519Key | OtherKey string

record certificate =
  NotBefore :: int
  NotAfter :: int
  PublicKey :: public_key

record tls_files =
  is_missing :: "string \<Rightarrow> bool"
  load_pair :: "string \<Rightarrow> string \<Rightarrow> goerror + certificate"

text \<open>\<open>t.Format(time.RFC3339)\<close> of a time in UTC, as the times of a certificate are.\<close>

definition format_rfc3339 :: "int \<Rightarrow> string" where
  "format_rfc3339 ns =
     (let secs = ns div 1000000000; sod = secs mod 86400; (y, m, d) = civil_of_days (secs div 86400)
      in pad4 y @ ''-'' @ pad2 m @ ''-'' @ pad2 d @ ''T'' @ pad2 (sod div 3600) @ '':'' @ pad2 (sod mod 3600 div 60)
         @ '':'' @ pad2 (sod mod 60) @ ''Z'')"

definition weak_key :: "public_key \<Rightarrow> goerror option" where
  "weak_key k = (case k of
     RSAKey bits \<Rightarrow>
       if bits < 2048 then Some (Opaque (''TLS certificate RSA key too weak: '' @ itoa bits @ '' bits (minimum 2048)'')) else None
   | ECDSAKey curve \<Rightarrow>
       if curve \<noteq> ''P-256'' \<and> curve \<noteq> ''P-384'' \<and> curve \<noteq> ''P-521'' then
         Some (Opaque (''TLS certificate uses unsupported ECDSA curve: '' @ curve)) else None
   | Ed25519Key \<Rightarrow> None
   | OtherKey ty \<Rightarrow> Some (Opaque (''TLS certificate uses unsupported public key type: '' @ ty)))"

definition ValidateTLSConfig :: "tls_files \<Rightarrow> int \<Rightarrow> TLSConfig \<Rightarrow> goerror option" where
  "ValidateTLSConfig tls clock t =
     (if \<not> TLS_Enabled t then None
      else if TrimSpace (TLS_Cert t) = '''' then Some (Opaque ''server.tls.cert is required when TLS is enabled'')
      else if TrimSpace (TLS_Key t) = '''' then Some (Opaque ''server.tls.key is required when TLS is enabled'')
      else if is_missing tls (TLS_Cert t) then Some (Opaque (''TLS certificate file not found: '' @ TLS_Cert t))
      else if is_missing tls (TLS_Key t) then Some (Opaque (''TLS key file not found: '' @ TLS_Key t))
      else case load_pair tls (TLS_Cert t) (TLS_Key t) of
        Inl e \<Rightarrow> Some (Wrapf ''failed to load TLS certificate/key pair: '' e '''')
      | Inr cert \<Rightarrow>
          if clock > NotAfter cert then Some (Opaque (''TLS certificate expired on '' @ format_rfc3339 (NotAfter cert)))
          else if clock < NotBefore cert then
            Some (Opaque (''TLS certificate not yet valid (valid from '' @ format_rfc3339 (NotBefore cert) @ '')''))
          else weak_key (PublicKey cert))"

section \<open>Printing and logging\<close>

definition redacted :: string where
  "redacted = ''<redacted>''"

datatype log_value = LogString string | LogInt int | LogBool bool | LogGroup "(string \<times> log_value) list"

definition AccountConfig_LogValue :: "AccountConfig \<Rightarrow> log_value" where
  "AccountConfig_LogValue a =
     LogGroup [(''username'', LogString (Username a)), (''password_hash'', LogString redacted),
       (''ocis'', LogGroup [(''username'', LogString (OCIS_Username (OCIS a))),
          (''app_token_env'', LogString (AppTokenEnv (OCIS a))), (''app_token'', LogString redacted)]),
       (''target_root'', LogString (Target_Root (Target a)))]"

definition AccountConfig_String :: "AccountConfig \<Rightarrow> string" where
  "AccountConfig_String a =
     ''AccountConfig{Username:'' @ quoted (Username a) @ '' PasswordHash:'' @ redacted @ '' OCISUsername:''
       @ quoted (OCIS_Username (OCIS a)) @ '' AppToken:'' @ redacted @ '' TargetRoot:'' @ quoted (Target_Root (Target a)) @ ''}''"

definition Config_LogValue :: "Config \<Rightarrow> log_value" where
  "Config_LogValue c =
     LogGroup [(''listen'', LogString (Listen (Server c))), (''ocis_url'', LogString (OCIS_URL (OCIS_of c))),
       (''spool_directory'', LogString (Directory (Spool_of c))), (''account_count'', LogInt (int (length (Accounts c))))]"

definition Config_String :: "Config \<Rightarrow> string" where
  "Config_String c =
     ''Config{Listen:'' @ quoted (Listen (Server c)) @ '' OCISURL:'' @ quoted (OCIS_URL (OCIS_of c)) @ '' SpoolDirectory:''
       @ quoted (Directory (Spool_of c)) @ '' Accounts:'' @ itoa (length (Accounts c)) @ '' secrets:'' @ redacted @ ''}''"

end
