(* ===== verification/ConfigProps.thy ===== *)
theory ConfigProps
  imports Config Interfaces
begin

text \<open>
  What a configuration that passed validation guarantees, and the exactness of byte sizes.
\<close>

section \<open>Byte sizes\<close>

lemma digit_ascii: "is_digit c \<Longrightarrow> of_char c < (128 :: nat) \<and> \<not> IsSpace (of_char c)"
  by (auto simp: is_digit_def IsSpace_def)

lemma tight_itoa_append:
  assumes "\<forall>c \<in> set u. is_letter c"
  shows "tight (itoa n @ u)"
proof -
  have l: "is_letter c \<Longrightarrow> of_char c < (128 :: nat) \<and> \<not> IsSpace (of_char c)" for c
    by (auto simp: is_letter_def IsSpace_def Let_def)
  have "c \<in> set (itoa n @ u) \<Longrightarrow> of_char c < (128 :: nat) \<and> \<not> IsSpace (of_char c)" for c
    using assms l digit_ascii itoa_all_digits [of c n] by auto
  then show ?thesis unfolding tight_def by (simp add: hd_append) (metis append_is_Nil_conv itoa_nonempty last_in_set Un_iff hd_in_set set_append)
qed

lemma TrimSpace_itoa: "TrimSpace (itoa n) = itoa n"
  using TrimSpace_tight [OF tight_itoa_append [of "''''" n]] by simp

text \<open>Only the suffix itself is stripped off a printed number and unit.\<close>

lemma suffix_letters:
  assumes "HasSuffix (itoa n @ u) v" and "\<forall>c \<in> set u. is_letter c" and "\<forall>c \<in> set v. is_letter c"
  shows "HasSuffix u v"
  using assms(1) unfolding suffix_append
proof
  assume "\<exists>xs'. v = xs' @ u \<and> suffix xs' (itoa n)"
  then obtain xs where x: "v = xs @ u" "suffix xs (itoa n)" by blast
  have no: "\<not> (is_digit c \<and> is_letter c)" for c by (auto simp: is_digit_def is_letter_def Let_def)
  have "xs = []"
  proof (rule ccontr)
    assume "xs \<noteq> []"
    then have "hd xs \<in> set xs" by simp
    moreover have "set xs \<subseteq> set (itoa n)" using x(2) by (rule set_mono_suffix)
    ultimately have "is_digit (hd xs)" using itoa_all_digits by blast
    moreover have "is_letter (hd xs)" using x(1) assms(3) \<open>hd xs \<in> set xs\<close> by auto
    ultimately show False using no by blast
  qed
  with x(1) show ?thesis by simp
qed simp

definition overflow_error :: "string \<Rightarrow> goerror" where
  "overflow_error v = Opaque (''byte size '' @ quoted v @ '' overflows uint64'')"

lemma word_gt_div:
  fixes f :: uint64
  assumes "n < 2 ^ 64" "0 < f"
  shows "(of_nat n :: uint64) > (- 1) div f \<longleftrightarrow> \<not> n * unat f < 2 ^ 64"
proof -
  have f: "0 < unat f" using assms(2) by (simp add: unat_gt_0)
  have u: "unat (of_nat n :: uint64) = n" using assms(1) by (simp add: unat_of_nat)
  have d: "unat ((- 1) div f) = (2 ^ 64 - 1) div unat f" by (simp add: unat_div unsigned_minus_1_eq_mask mask_eq_exp_minus_1)
  have "(of_nat n :: uint64) > (- 1) div f \<longleftrightarrow> (2 ^ 64 - 1) div unat f < n"
    unfolding word_less_nat_alt u d ..
  also have "\<dots> \<longleftrightarrow> \<not> n * unat f < 2 ^ 64"
    using f by (auto simp: div_less_iff_less_mult not_less)
  finally show ?thesis .
qed

lemma parse_units_step:
  assumes "n < 2 ^ 64" "0 < f"
  shows "parse_units (itoa n @ u) ((u, f) # us)
    = (if n * unat f < 2 ^ 64 then Inr (of_nat (n * unat f)) else Inl (overflow_error (itoa n @ u)))"
  using assms word_gt_div [OF assms]
  by (simp add: TrimSpace_itoa ParseUint_itoa overflow_error_def suffixI)

lemma unit_letters: "(u, f) \<in> set units \<Longrightarrow> (\<forall>c \<in> set u. is_letter c) \<and> 0 < f"
  by (auto simp: units_def is_letter_def Let_def)

text \<open>C40. A whole number followed by one of the units B, KiB, MiB and GiB is read as exactly that
  many bytes when the product fits 64 bits, and refused otherwise: no size wraps around.\<close>

theorem byte_sizes_exact:
  assumes "(u, f) \<in> set units" and "n < 2 ^ 64"
  shows "ParseByteSize (itoa n @ u)
    = (if n * unat f < 2 ^ 64 then Inr (of_nat (n * unat f)) else Inl (overflow_error (itoa n @ u)))"
proof -
  have l: "\<forall>c \<in> set v. is_letter c" if "v \<in> {''GiB'', ''MiB'', ''KiB'', ''B''}" for v
    using that by (auto simp: is_letter_def Let_def)
  have "\<not> HasSuffix (itoa n @ u) v"
    if "v \<in> {''GiB'', ''MiB'', ''KiB''}" "u \<in> {''GiB'', ''MiB'', ''KiB'', ''B''}" "u \<noteq> v" for v
    using suffix_letters [of v n u] l [of u] l [of v] that by (auto simp: suffix_def append_eq_Cons_conv)
  note no = this
  have t: "TrimSpace (itoa n @ u) = itoa n @ u" "itoa n @ u \<noteq> ''''"
    using TrimSpace_tight tight_itoa_append unit_letters [OF assms(1)] by auto
  note step = parse_units_step [OF assms(2) unit_letters [OF assms(1), THEN conjunct2], of u]
  have "parse_units (itoa n @ u) units
    = (if n * unat f < 2 ^ 64 then Inr (of_nat (n * unat f)) else Inl (overflow_error (itoa n @ u)))"
    using assms(1) no [of "''GiB''"] no [of "''MiB''"] no [of "''KiB''"] step
    unfolding units_def by (auto simp del: parse_units.simps simp: parse_units.simps(2) [where sfx = "''GiB''"]
       parse_units.simps(2) [where sfx = "''MiB''"] parse_units.simps(2) [where sfx = "''KiB''"])
  then show ?thesis using t by (simp add: ParseByteSize_def)
qed

theorem byte_sizes_exact_witness:
  "ParseByteSize (itoa 50 @ ''MiB'') = Inr 52428800
     \<and> ParseByteSize (itoa 17179869184 @ ''GiB'') = Inl (overflow_error (itoa 17179869184 @ ''GiB''))"
  using byte_sizes_exact [of "''MiB''" "1024 * 1024" 50] byte_sizes_exact [of "''GiB''" "1024 * 1024 * 1024" 17179869184]
  by (simp add: units_def)

section \<open>Target roots\<close>

abbreviation slashed :: "char \<Rightarrow> char" where
  "slashed c \<equiv> (if c = CHR 0x5C then CHR ''/'' else c)"

lemma Split_map_slashed:
  "Split (CHR ''/'') (map slashed s) = concat (map (\<lambda>p. Split (CHR ''/'') (map slashed p)) (Split (CHR ''/'') s))"
proof (induction s)
  case (Cons c s)
  obtain p ps where p: "Split (CHR ''/'') s = p # ps" by (cases "Split (CHR ''/'') s") auto
  obtain q qs where q: "Split (CHR ''/'') (map slashed p) = q # qs"
    by (cases "Split (CHR ''/'') (map slashed p)") auto
  from Cons show ?case by (simp add: p q)
qed simp

lemma slashed_dotdot:
  assumes "p \<in> set (Split (CHR ''/'') s)" "''..'' \<in> set (Split (CHR ''/'') (map slashed p))"
  shows "''..'' \<in> set (Split (CHR ''/'') (map slashed s))"
  unfolding Split_map_slashed [of s] using assms by auto

lemma TrimSpace_start:
  assumes "of_char c < (128 :: nat)" "\<not> IsSpace (of_char c)"
  shows "TrimSpace (c # s) \<noteq> ''''"
proof -
  let ?sp = "\<lambda>(r, bs). IsSpace r"
  let ?x = "(of_char c, [of_char c]) :: nat \<times> nat list"
  have "segs (str_bytes (c # s)) = ?x # segs (str_bytes s)" using assms(1) by (simp add: str_bytes_def rune1_def)
  moreover have "dropWhile ?sp (rev (?x # segs (str_bytes s))) = dropWhile ?sp (rev (segs (str_bytes s))) @ [?x]"
    using assms(2) by (simp add: dropWhile_append3)
  ultimately have "TrimSpace (c # s) = unsegs (?x # rev (dropWhile ?sp (rev (segs (str_bytes s)))))"
    using assms(2) by (simp add: TrimSpace_def Let_def)
  then show ?thesis by (simp add: unsegs_def bytes_str_def)
qed

lemma normalizeTargetRoot_Inr:
  assumes "normalizeTargetRoot root = Inr q"
  shows "IsAbs q \<and> Clean q = q \<and> ''..'' \<notin> set (Split (CHR ''/'') q) \<and> normalizeTargetRoot q = Inr q"
proof -
  from assms have r: "IsAbs root" "''..'' \<notin> set (Split (CHR ''/'') (map slashed root))" "q = Clean root"
    by (auto simp: normalizeTargetRoot_def IsAbs_def list_ex_iff split: if_splits)
  let ?cs = "clean_comps root"
  have dd: "Split (CHR ''/'') (map slashed ''..'') = [''..'']" by simp
  have no: "''..'' \<notin> set (Split (CHR ''/'') root)"
    using slashed_dotdot [of "''..''" root] r(2) dd by auto
  then have cs: "?cs = filter nonempty_comp (Split (CHR ''/'') root)"
    by (simp add: clean_comps_def clean_list_no_dotdot)
  have q: "IsAbs q" "Clean q = q" "q = render True ?cs" using r(1,3) Clean_idem Clean_abs IsAbs_CleanI by auto
  have sub: "set (Split (CHR ''/'') q) \<subseteq> {''''} \<union> set (Split (CHR ''/'') root)"
  proof -
    have "Split (CHR ''/'') (Join ''/'' ?cs) = ?cs" if "?cs \<noteq> []"
      using that cs Split_parts_no_sep by (intro Split_Join) auto
    then show ?thesis using cs by (cases "?cs = []") (auto simp: q(3) render_def)
  qed
  have nq: "''..'' \<notin> set (Split (CHR ''/'') (map slashed q))"
  proof
    assume "''..'' \<in> set (Split (CHR ''/'') (map slashed q))"
    then obtain p where p: "p \<in> set (Split (CHR ''/'') q)" "''..'' \<in> set (Split (CHR ''/'') (map slashed p))"
      unfolding Split_map_slashed [of q] by auto
    then have "p \<in> set (Split (CHR ''/'') root)" using sub by auto
    with slashed_dotdot [OF this p(2)] r(2) show False by blast
  qed
  obtain s where s: "q = CHR ''/'' # s" using q(1) by (auto simp: IsAbs_iff)
  have "TrimSpace q \<noteq> ''''" unfolding s by (rule TrimSpace_start) (auto simp: IsSpace_def)
  then have "normalizeTargetRoot q = Inr q"
    using q(1,2) nq by (simp add: normalizeTargetRoot_def IsAbs_def list_ex_iff)
  moreover have "''..'' \<notin> set (Split (CHR ''/'') q)" using sub no by auto
  ultimately show ?thesis using q by simp
qed

interpretation config_root: path_guard normalizeTargetRoot
  by unfold_locales (use normalizeTargetRoot_Inr in blast)

section \<open>Validated configurations\<close>

definition account_valid :: "(string \<Rightarrow> string option) \<Rightarrow> AccountConfig \<Rightarrow> bool" where
  "account_valid env a \<longleftrightarrow>
     TrimSpace (Username a) \<noteq> '''' \<and> is_ok (parseArgon2ID (PasswordHash a))
     \<and> list_all (\<lambda>h. \<not> Contains (PasswordHash a) h) exampleHashes
     \<and> TrimSpace (OCIS_Username (OCIS a)) \<noteq> ''''
     \<and> env (AppTokenEnv (OCIS a)) = Some (AppToken a) \<and> TrimSpace (AppToken a) \<noteq> ''''
     \<and> (Target_DriveID (Target a) \<noteq> '''' \<or> Target_Drive (Target a) \<noteq> '''')
     \<and> IsAbs (Target_Root (Target a)) \<and> Clean (Target_Root (Target a)) = Target_Root (Target a)
     \<and> ''..'' \<notin> set (Split (CHR ''/'') (Target_Root (Target a)))
     \<and> collision_policy_ok (CollisionPolicy_of (Upload_of a))
     \<and> 0 < Upload_MaxSize (Upload_of a) \<and> uint (Upload_MaxSize (Upload_of a)) \<le> MaxInt64
     \<and> 0 \<le> MaxConcurrentUploads (Upload_of a)"

definition auth_valid :: "HTTPAuthConfig \<Rightarrow> bool" where
  "auth_valid h \<longleftrightarrow> (Auth_Enabled h \<longrightarrow>
     (Auth_Method h = ''basic'' \<and> TrimSpace (Auth_Username h) \<noteq> '''')
     \<or> (Auth_Method h = ''bearer'' \<and> TrimSpace (BearerToken h) \<noteq> ''''))"

definition config_valid :: "(string \<Rightarrow> string option) \<Rightarrow> Config \<Rightarrow> bool" where
  "config_valid env c \<longleftrightarrow>
     Accounts c \<noteq> [] \<and> distinct (map Username (Accounts c)) \<and> list_all (account_valid env) (Accounts c)
     \<and> 1 \<le> MinPort (Passive (Server c)) \<and> MinPort (Passive (Server c)) \<le> MaxPort (Passive (Server c))
     \<and> MaxPort (Passive (Server c)) \<le> 65535
     \<and> (TLS_Enabled (TLS (Server c)) \<longrightarrow> TLS_Cert (TLS (Server c)) \<noteq> '''' \<and> TLS_Key (TLS (Server c)) \<noteq> '''')
     \<and> IsAbs (Directory (Spool_of c)) \<and> 0 < MaxTotalSize (Spool_of c) \<and> MaxSize (Spool_of c) = MaxTotalSize (Spool_of c)
     \<and> http_url (GraphURL (OCIS_of c)) \<and> http_url (WebDAVURL (OCIS_of c)) \<and> auth_valid (HTTP_Auth (HTTP c))"

lemma validate_account_Inr:
  assumes "validate_account env px a = Inr a'" and "TrimSpace (Username a) \<noteq> ''''"
  shows "account_valid env a' \<and> Username a' = Username a \<and> (\<forall>py. validate_account env py a' = Inr a')"
proof -
  obtain p where p: "parseArgon2ID (PasswordHash a) = Inr p"
    using assms(1) by (cases "parseArgon2ID (PasswordHash a)") (auto simp: validate_account_def)
  obtain tok where tok: "env (AppTokenEnv (OCIS a)) = Some tok"
    using assms(1) by (cases "env (AppTokenEnv (OCIS a))") (auto simp: validate_account_def p Let_def split: if_splits)
  obtain root where root: "normalizeTargetRoot (Target_Root (Target a)) = Inr root"
    using assms(1) by (cases "normalizeTargetRoot (Target_Root (Target a))")
      (auto simp: validate_account_def p tok Let_def split: if_splits)
  note R = normalizeTargetRoot_Inr [OF root]
  have checks: "\<not> list_ex (Contains (PasswordHash a)) exampleHashes" "TrimSpace (OCIS_Username (OCIS a)) \<noteq> ''''"
    "TrimSpace (AppTokenEnv (OCIS a)) \<noteq> ''''" "TrimSpace tok \<noteq> ''''"
    "\<not> (TrimSpace (Target_DriveID (Target a)) = '''' \<and> TrimSpace (Target_Drive (Target a)) = '''')"
    "collision_policy_ok (CollisionPolicy_of (Upload_of a))" "Upload_MaxSize (Upload_of a) \<noteq> 0"
    "\<not> MaxConcurrentUploads (Upload_of a) < 0" "\<not> Upload_MaxSize (Upload_of a) > 9223372036854775807"
    and a': "a' = a\<lparr>AppToken := tok, Target := Target a\<lparr>Target_Root := root\<rparr>\<rparr>"
    using assms(1) by (auto simp: validate_account_def p tok root Let_def simp del: TrimSpace_Nil split: if_splits)
  have u: "uint (Upload_MaxSize (Upload_of a)) \<le> MaxInt64"
    using checks(9) by (simp add: not_less word_le_def)
  have v: "account_valid env a'"
    using checks u R p tok assms(2) TrimSpace_Nil
    by (auto simp: account_valid_def a' list_all_iff list_ex_iff word_neq_0_conv)
  have "validate_account env py a' = Inr a'" for py
    using checks(1-8) checks(9) R by (simp add: validate_account_def a' p tok Let_def)
  with v show ?thesis by (simp add: a')
qed

lemma validate_accounts_Inr:
  "validate_accounts env i seen as = Inr as' \<Longrightarrow>
     list_all (account_valid env) as' \<and> map Username as' = map Username as
     \<and> distinct (map Username as') \<and> set (map Username as') \<inter> set seen = {}
     \<and> (\<forall>j. validate_accounts env j seen as' = Inr as')"
proof (induction env i seen as arbitrary: as' rule: validate_accounts.induct)
  case (2 env i seen a as)
  let ?px = "''accounts['' @ itoa i @ '']''"
  from 2(2) have c: "TrimSpace (Username a) \<noteq> ''''" "Username a \<notin> set seen"
    by (auto simp: Let_def split: if_splits)
  obtain a1 where a1: "validate_account env ?px a = Inr a1"
    using 2(2) c by (cases "validate_account env ?px a") (auto simp: Let_def)
  obtain as1 where as1: "validate_accounts env (Suc i) (Username a # seen) as = Inr as1"
    using 2(2) c a1 by (cases "validate_accounts env (Suc i) (Username a # seen) as") (auto simp: Let_def)
  have as': "as' = a1 # as1" using 2(2) c a1 as1 by (simp add: Let_def)
  note A = validate_account_Inr [OF a1 c(1)]
  note IH = 2(1) [OF refl c(1) c(2) a1 as1]
  have m: "map Username as1 = map Username as" using IH by blast
  have d: "set (map Username as1) \<inter> set (Username a # seen) = {}" "distinct (map Username as1)" using IH by blast+
  have "validate_accounts env j seen (a1 # as1) = Inr (a1 # as1)" for j
    using A IH c by (simp add: Let_def)
  moreover have "distinct (map Username (a1 # as1))" "set (map Username (a1 # as1)) \<inter> set seen = {}"
    using A d c by auto
  moreover have "list_all (account_valid env) (a1 # as1)" "map Username (a1 # as1) = map Username (a # as)"
    using A IH m by simp_all
  ultimately show ?case unfolding as' by blast
qed simp

lemma validated_config_spec:
  assumes "validateWithEnv env (Some c) = Inr c'"
  shows "config_valid env c' \<and> validateWithEnv env (Some c') = Inr c'"
proof -
  obtain ocis where ocis: "validateOCIS (OCIS_of c) = Inr ocis"
    using assms by (cases "validateOCIS (OCIS_of c)") (auto simp: validateWithEnv_def split: if_splits option.splits)
  obtain auth where auth: "validateHTTP env (HTTP_Auth (HTTP c)) = Inr auth"
    using assms by (cases "validateHTTP env (HTTP_Auth (HTTP c))") (auto simp: validateWithEnv_def ocis split: if_splits option.splits)
  obtain sp where sp: "validate_spool (Spool_of c) = Inr sp"
    using assms by (cases "validate_spool (Spool_of c)") (auto simp: validateWithEnv_def ocis auth split: if_splits option.splits)
  obtain as where as: "validate_accounts env 0 [] (Accounts c) = Inr as"
    using assms by (cases "validate_accounts env 0 [] (Accounts c)")
      (auto simp: validateWithEnv_def ocis auth sp split: if_splits option.splits)
  have c: "TrimSpace (Listen (Server c)) \<noteq> ''''" "validateServerListenAddress (Listen (Server c)) = None"
    "validatePassive (Passive (Server c)) = None"
    "\<not> (TLS_Enabled (TLS (Server c)) \<and> (TrimSpace (TLS_Cert (TLS (Server c))) = '''' \<or> TrimSpace (TLS_Key (TLS (Server c))) = ''''))"
    "Accounts c \<noteq> []"
    and c': "c' = c\<lparr>OCIS_of := ocis, HTTP := HTTP c\<lparr>HTTP_Auth := auth\<rparr>, Spool_of := sp, Accounts := as\<rparr>"
    using assms by (auto simp: validateWithEnv_def ocis auth sp as split: if_splits option.splits)
  note A = validate_accounts_Inr [OF as]
  have O: "http_url (GraphURL ocis) \<and> http_url (WebDAVURL ocis) \<and> validateOCIS ocis = Inr ocis"
    using ocis by (auto simp: validateOCIS_def Let_def split: if_splits)
  have H: "auth_valid auth \<and> validateHTTP env auth = Inr auth"
    using auth TrimSpace_Nil by (auto simp: validateHTTP_def auth_valid_def split: if_splits option.splits)
  have S: "IsAbs (Directory sp) \<and> 0 < MaxTotalSize sp \<and> MaxSize sp = MaxTotalSize sp \<and> validate_spool sp = Inr sp"
    using sp by (auto simp: validate_spool_def Let_def word_neq_0_conv split: if_splits)
  have P: "1 \<le> MinPort (Passive (Server c)) \<and> MinPort (Passive (Server c)) \<le> MaxPort (Passive (Server c))
      \<and> MaxPort (Passive (Server c)) \<le> 65535"
    using c(3) by (auto simp: validatePassive_def split: if_splits)
  have ne: "as \<noteq> []" using A c(5) by auto
  have "config_valid env c'"
    using A O H S P c ne TrimSpace_Nil by (auto simp: config_valid_def c')
  moreover have "validateWithEnv env (Some c') = Inr c'"
    using A O H S c ne by (simp add: validateWithEnv_def c')
  ultimately show ?thesis ..
qed
text \<open>A configuration for the examples, with one account.\<close>

definition an_account :: AccountConfig where
  "an_account =
     \<lparr>Username = ''scanner'',
      PasswordHash = ''$argon2id$v=19$m=64,t=3,p=4$MDEyMzQ1Njc4OWFiY2RlZg$aHVudGVyMjAxMjM0NTY3OA'',
      OCIS = \<lparr>OCIS_Username = ''bridge'', AppTokenEnv = ''SCAN_TOKEN''\<rparr>,
      Target = \<lparr>Target_DriveID = ''d1'', Target_Drive = '''', Target_Root = ''/scans/./in/''\<rparr>,
      Upload_of = \<lparr>CollisionPolicy_of = ''rename'', Upload_MaxSize = 52428800, MaxConcurrentUploads = 2\<rparr>,
      AppToken = ''''\<rparr>"

definition a_config :: Config where
  "a_config = New_config\<lparr>Accounts := [an_account],
     Server := Server New_config\<lparr>TLS := \<lparr>TLS_Enabled = False, TLS_Cert = '''', TLS_Key = ''''\<rparr>\<rparr>\<rparr>"

definition an_environment :: "string \<Rightarrow> string option" where
  "an_environment n = (if n = ''SCAN_TOKEN'' then Some ''tok'' else None)"

definition the_account :: AccountConfig where
  "the_account = an_account\<lparr>AppToken := ''tok'', Target := Target an_account\<lparr>Target_Root := ''/scans/in''\<rparr>\<rparr>"

lemma the_account_validated: "validate_account an_environment px an_account = Inr the_account"
proof -
  have p: "is_ok (parseArgon2ID (PasswordHash an_account))"
    using parse_printed [of 64 3 4 "''0123456789abcdef''" "''hunter2012345678''"]
    by (simp add: an_account_def example_texts)
  have ex: "list_ex (Contains (PasswordHash an_account)) exampleHashes = False" by code_simp
  have t: "TrimSpace ''bridge'' = ''bridge''" "TrimSpace ''SCAN_TOKEN'' = ''SCAN_TOKEN''" "TrimSpace ''tok'' = ''tok''"
    "TrimSpace ''d1'' = ''d1''" "TrimSpace ''/scans/./in/'' = ''/scans/./in/''"
    by (rule TrimSpace_tight, simp add: tight_def IsSpace_def)+
  have "Clean ''/scans/./in/'' = ''/scans/in''" by code_simp
  then have "normalizeTargetRoot ''/scans/./in/'' = Inr ''/scans/in''" by (simp add: normalizeTargetRoot_def t)
  note s = t this
  obtain pp where pp: "parseArgon2ID (PasswordHash an_account) = Inr pp" using p by (auto simp: is_ok_iff)
  have f: "OCIS_Username (OCIS an_account) = ''bridge''" "AppTokenEnv (OCIS an_account) = ''SCAN_TOKEN''"
    "Target_DriveID (Target an_account) = ''d1''" "Target_Root (Target an_account) = ''/scans/./in/''"
    "CollisionPolicy_of (Upload_of an_account) = ''rename''" "Upload_MaxSize (Upload_of an_account) = 52428800"
    "MaxConcurrentUploads (Upload_of an_account) = 2" by (simp_all add: an_account_def)
  have e: "an_environment ''SCAN_TOKEN'' = Some ''tok''" by (simp add: an_environment_def)
  show ?thesis
    unfolding validate_account_def pp ex f e sum.case option.case Let_def if_False
    using s by (simp add: the_account_def collision_policy_ok_def)
qed

definition the_config :: Config where
  "the_config = a_config\<lparr>Accounts := [the_account],
     OCIS_of := OCIS_of a_config\<lparr>GraphURL := ''http://localhost:9200/graph/v1.0'', WebDAVURL := ''http://localhost:9200/webdav''\<rparr>\<rparr>"

lemma a_config_validated: "validateWithEnv an_environment (Some a_config) = Inr the_config"
proof -
  have l: "TrimSpace '':2121'' = '':2121''" "TrimSpace ''scanner'' = ''scanner''" "TrimSpace ''admin'' = ''admin''"
      "TrimSpace ''http://localhost:9200'' = ''http://localhost:9200''"
    by (rule TrimSpace_tight, simp add: tight_def IsSpace_def)+
  have sp: "SplitHostPort '':2121'' = Some ('''', ''2121'')" by code_simp
  have at: "Atoi ''2121'' = Some 2121" by (simp add: Atoi_def is_digit_def digit_val_def)
  have la: "validateServerListenAddress '':2121'' = None"
    by (simp add: validateServerListenAddress_def l sp at Let_def)
  have o: "validateOCIS (OCIS_of a_config) = Inr (OCIS_of a_config\<lparr>GraphURL := ''http://localhost:9200/graph/v1.0'',
      WebDAVURL := ''http://localhost:9200/webdav''\<rparr>)"
  proof -
    have "http_url ''http://localhost:9200''" "http_url ''http://localhost:9200/graph/v1.0''"
      "http_url ''http://localhost:9200/webdav''" "TrimRight ''http://localhost:9200'' ''/'' = ''http://localhost:9200''"
      by code_simp+
    then show ?thesis by (simp add: validateOCIS_def a_config_def New_config_def l)
  qed
  have h: "validateHTTP an_environment (HTTP_Auth (HTTP a_config)) = Inr (HTTP_Auth (HTTP a_config))"
    by (simp add: validateHTTP_def a_config_def New_config_def l)
  have u: "TrimSpace (Username an_account) \<noteq> ''''" by (simp add: an_account_def l)
  have va: "validate_accounts an_environment 0 [] [an_account] = Inr [the_account]"
    using u by (simp add: the_account_validated Let_def)
  show ?thesis
    using o h l la va by (simp add: validateWithEnv_def a_config_def New_config_def validatePassive_def validate_spool_def
        the_config_def IsAbs_def)
qed

lemma the_config_valid: "config_valid an_environment the_config"
  using validated_config_spec [OF a_config_validated] by blast

text \<open>C16. A configuration that passes validation has at least one account, distinct user names, and
  for every account a well-formed password hash that is none of the published examples, a
  token from the environment, a clean absolute root without parent references, a known policy and
  size limits in range; port range, spool directory, spool size, URLs and HTTP credentials are
  usable. Validating the result again changes nothing.\<close>

theorem validated_config:
  assumes "validateWithEnv env (Some c) = Inr c'"
  shows "config_valid env c' \<and> validateWithEnv env (Some c') = Inr c'"
  by (rule validated_config_spec [OF assms])

theorem validated_config_witness:
  "config_valid an_environment the_config \<and> validateWithEnv an_environment (Some the_config) = Inr the_config"
  by (rule validated_config [OF a_config_validated])

section \<open>Secrets are not printed\<close>

definition without_secrets :: "AccountConfig \<Rightarrow> AccountConfig" where
  "without_secrets a = a\<lparr>PasswordHash := '''', AppToken := ''''\<rparr>"

definition config_without_secrets :: "Config \<Rightarrow> Config" where
  "config_without_secrets c =
     c\<lparr>Accounts := map without_secrets (Accounts c),
       HTTP := HTTP c\<lparr>HTTP_Auth := HTTP_Auth (HTTP c)\<lparr>Auth_Password := '''', BearerToken := ''''\<rparr>\<rparr>\<rparr>"

lemma account_print_erased:
  "AccountConfig_String (without_secrets a) = AccountConfig_String a"
  "AccountConfig_LogValue (without_secrets a) = AccountConfig_LogValue a"
  by (simp_all add: without_secrets_def AccountConfig_String_def AccountConfig_LogValue_def)

lemma config_print_erased:
  "Config_String (config_without_secrets c) = Config_String c"
  "Config_LogValue (config_without_secrets c) = Config_LogValue c"
  by (simp_all add: config_without_secrets_def Config_String_def Config_LogValue_def)

text \<open>C29. What is printed and logged of a configuration and of its accounts does not depend on the
  password hashes, the application tokens, the HTTP password or the bearer token: two
  configurations that differ in nothing else cannot be told apart by them. (The line in which the service
  prints a password it has generated itself is not one of them.)\<close>

theorem secrets_not_printed:
  assumes "config_without_secrets c = config_without_secrets c'"
  shows "Config_String c = Config_String c' \<and> Config_LogValue c = Config_LogValue c'
    \<and> map AccountConfig_String (Accounts c) = map AccountConfig_String (Accounts c')
    \<and> map AccountConfig_LogValue (Accounts c) = map AccountConfig_LogValue (Accounts c')"
proof -
  have "Accounts (config_without_secrets c) = Accounts (config_without_secrets c')" using assms by simp
  then have as: "map without_secrets (Accounts c) = map without_secrets (Accounts c')"
    by (simp add: config_without_secrets_def)
  have "map AccountConfig_String (Accounts c) = map AccountConfig_String (Accounts c')"
    using arg_cong [OF as, of "map AccountConfig_String"] by (simp add: comp_def account_print_erased)
  moreover have "map AccountConfig_LogValue (Accounts c) = map AccountConfig_LogValue (Accounts c')"
    using arg_cong [OF as, of "map AccountConfig_LogValue"] by (simp add: comp_def account_print_erased)
  ultimately show ?thesis
    using config_print_erased [of c] config_print_erased [of c'] unfolding assms by simp
qed

theorem secrets_not_printed_witness:
  "AppToken an_account \<noteq> ''other'' \<and> PasswordHash an_account \<noteq> ''''
     \<and> map AccountConfig_String (Accounts a_config)
         = map AccountConfig_String (Accounts (a_config\<lparr>Accounts := [an_account\<lparr>AppToken := ''other'', PasswordHash := ''''\<rparr>]\<rparr>))"
  using secrets_not_printed [of a_config "a_config\<lparr>Accounts := [an_account\<lparr>AppToken := ''other'', PasswordHash := ''''\<rparr>]\<rparr>"]
  by (simp add: config_without_secrets_def without_secrets_def a_config_def an_account_def)

end
