(* ===== verification/Graph.thy ===== *)
theory Graph
  imports AppErrors Config
begin

text \<open>
  The LibreGraph client and the target resolver (\<open>pkg/graph\<close>). The SDK
  (\<open>github.com/owncloud/libre-graph-api-go\<close>), the server behind it and \<open>url.Parse\<close> with a new path
  are the parameter \<open>sdk\<close>, on a state \<open>'w\<close> of the outside world. A failed call is the status of
  its response, if there was one.
\<close>

section \<open>Errors\<close>

abbreviation GraphError :: "string \<Rightarrow> goerror" where
  "GraphError m \<equiv> Sentinel ''graph error: '' m"

definition ErrInvalidDriveID :: goerror where "ErrInvalidDriveID = GraphError ''invalid drive ID''"
definition ErrInvalidSpaceID :: goerror where "ErrInvalidSpaceID = GraphError ''invalid space ID''"
definition ErrInvalidUserID :: goerror where "ErrInvalidUserID = GraphError ''invalid user ID''"
definition ErrGraphParameters :: goerror where "ErrGraphParameters = GraphError ''invalid parameters''"
definition ErrDriveNotFound :: goerror where "ErrDriveNotFound = GraphError ''drive not found''"
definition ErrGraphUnauthorized :: goerror where "ErrGraphUnauthorized = GraphError ''unauthorized''"
definition ErrGraphForbidden :: goerror where "ErrGraphForbidden = GraphError ''forbidden''"
definition ErrGraphAPIError :: goerror where "ErrGraphAPIError = GraphError ''LibreGraph API error''"
definition ErrGraphNotImplemented :: goerror where "ErrGraphNotImplemented = GraphError ''operation not implemented''"

section \<open>Drives\<close>

record Owner =
  ow_id :: string
  ow_displayName :: string

record Permission =
  pm_id :: string
  pm_roles :: "string list"

record Drive =
  dr_id :: string
  dr_name :: string
  dr_description :: string
  dr_owner :: Owner
  dr_permissions :: "Permission list"
  dr_root :: string
  dr_webDAVURL :: string

record Space =
  sp_id :: string
  sp_name :: string
  sp_description :: string
  sp_owner :: Owner
  sp_permissions :: "Permission list"
  sp_root :: string

text \<open>A drive as the SDK returns it: every field may be missing.\<close>

record sdk_drive =
  sd_id :: "string option"
  sd_name :: "string option"
  sd_description :: "string option"
  sd_webUrl :: "string option"
  sd_owner :: "(string option \<times> string option) option"
  sd_root :: "string option option"

datatype graph_auth = AccessToken string | BasicAuth string string

record libregraphClient =
  gc_ready :: bool
  gc_servers :: "string list"
  gc_baseURL :: string
  gc_username :: string
  gc_token :: string

record 'w sdk =
  GetDrive :: "string list \<Rightarrow> graph_auth \<Rightarrow> string \<Rightarrow> 'w \<Rightarrow> (int option + sdk_drive option) \<times> 'w"
  ListMyDrives :: "string list \<Rightarrow> graph_auth \<Rightarrow> 'w \<Rightarrow> (int option + sdk_drive list option) \<times> 'w"
  with_path :: "string \<Rightarrow> string \<Rightarrow> string option"

definition NewLibreGraphClient :: "string \<Rightarrow> string \<Rightarrow> string \<Rightarrow> libregraphClient" where
  "NewLibreGraphClient base user tok =
     (let base = TrimRight base ''/'';
          ok = (case url_parse base of None \<Rightarrow> False | Some (scheme, host) \<Rightarrow> scheme \<noteq> '''' \<and> host \<noteq> '''')
      in \<lparr>gc_ready = True, gc_servers = (if ok then [base] else []), gc_baseURL = base, gc_username = user,
          gc_token = tok\<rparr>)"

definition withAuth :: "libregraphClient \<Rightarrow> graph_auth" where
  "withAuth c = (if gc_username c = '''' then AccessToken (gc_token c) else BasicAuth (gc_username c) (gc_token c))"

definition handleError :: "int option \<Rightarrow> string \<Rightarrow> goerror" where
  "handleError resp what =
     (case resp of
        Some st \<Rightarrow>
          if st = 404 then ErrDriveNotFound
          else if st = 401 then ErrGraphUnauthorized
          else if st = 403 then ErrGraphForbidden
          else if st = 400 then ErrGraphParameters
          else Wrapf (what @ '': '') ErrGraphAPIError ''''
      | None \<Rightarrow> Wrapf (what @ '': '') ErrGraphAPIError '''')"

definition safeString :: "string option \<Rightarrow> string" where
  "safeString s = (case s of None \<Rightarrow> '''' | Some x \<Rightarrow> x)"

definition convertDrive :: "'w sdk \<Rightarrow> sdk_drive \<Rightarrow> Drive" where
  "convertDrive sdk d =
     \<lparr>dr_id = safeString (sd_id d), dr_name = safeString (sd_name d), dr_description = safeString (sd_description d),
      dr_owner = (case sd_owner d of None \<Rightarrow> \<lparr>ow_id = '''', ow_displayName = ''''\<rparr>
                  | Some (i, n) \<Rightarrow> \<lparr>ow_id = safeString i, ow_displayName = safeString n\<rparr>),
      dr_permissions = [],
      dr_root = (case sd_root d of None \<Rightarrow> '''' | Some r \<Rightarrow> safeString r),
      dr_webDAVURL = (case sd_webUrl d of
          None \<Rightarrow> ''''
        | Some u \<Rightarrow> if u = '''' then ''''
            else (case with_path sdk u (''/dav/spaces/'' @ safeString (sd_id d)) of None \<Rightarrow> '''' | Some v \<Rightarrow> v))\<rparr>"

definition not_initialized :: goerror where
  "not_initialized = Wrapf ''graph client not properly initialized: '' ErrGraphAPIError ''''"

definition ResolveDrive :: "'w sdk \<Rightarrow> libregraphClient \<Rightarrow> string \<Rightarrow> 'w \<Rightarrow> (goerror + Drive) \<times> 'w" where
  "ResolveDrive sdk c ident w =
     (if ident = '''' then (Inl ErrInvalidDriveID, w)
      else if \<not> gc_ready c then (Inl not_initialized, w)
      else case GetDrive sdk (gc_servers c) (withAuth c) ident w of
        (Inl resp, w') \<Rightarrow> (Inl (handleError resp ''failed to resolve drive''), w')
      | (Inr None, w') \<Rightarrow> (Inl ErrDriveNotFound, w')
      | (Inr (Some d), w') \<Rightarrow> (Inr (convertDrive sdk d), w'))"

definition ListDrives :: "'w sdk \<Rightarrow> libregraphClient \<Rightarrow> string \<Rightarrow> 'w \<Rightarrow> (goerror + Drive list) \<times> 'w" where
  "ListDrives sdk c userID w =
     (if \<not> gc_ready c then (Inl not_initialized, w)
      else case ListMyDrives sdk (gc_servers c) (withAuth c) w of
        (Inl resp, w') \<Rightarrow> (Inl (handleError resp ''failed to list drives''), w')
      | (Inr None, w') \<Rightarrow> (Inr [], w')
      | (Inr (Some ds), w') \<Rightarrow> (Inr (map (convertDrive sdk) ds), w'))"

definition ResolveSpace :: "libregraphClient \<Rightarrow> string \<Rightarrow> goerror + Space" where
  "ResolveSpace c ident = (if ident = '''' then Inl ErrInvalidSpaceID else Inl ErrGraphNotImplemented)"

definition ListSpaces :: "libregraphClient \<Rightarrow> string \<Rightarrow> goerror + Space list" where
  "ListSpaces c userID = (if userID = '''' then Inl ErrInvalidUserID else Inr [])"

text \<open>\<open>strings.EqualFold\<close> of two names, which agrees with the fold of theory Config on the runes
  it knows: ASCII letters, the long s and the Kelvin sign. Other letters are compared as they are.\<close>

definition SearchDrives ::
  "'w sdk \<Rightarrow> libregraphClient \<Rightarrow> string \<Rightarrow> string \<Rightarrow> 'w \<Rightarrow> (goerror + Drive list) \<times> 'w" where
  "SearchDrives sdk c userID name w =
     (if userID = '''' \<or> name = '''' then (Inl ErrGraphParameters, w)
      else case ListDrives sdk c userID w of
        (Inl e, w') \<Rightarrow> (Inl (Wrapf ''failed to list drives for search: '' e ''''), w')
      | (Inr ds, w') \<Rightarrow> (Inr (filter (\<lambda>d. EqualFold (dr_name d) name) ds), w'))"

definition SearchSpaces :: "libregraphClient \<Rightarrow> string \<Rightarrow> string \<Rightarrow> goerror + Space list" where
  "SearchSpaces c userID name = (if userID = '''' \<or> name = '''' then Inl ErrGraphParameters else Inr [])"

definition ValidateGraph :: "'w sdk \<Rightarrow> libregraphClient \<Rightarrow> 'w \<Rightarrow> goerror option \<times> 'w" where
  "ValidateGraph sdk c w =
     (case ListDrives sdk c '''' w of
        (Inl e, w') \<Rightarrow> (Some (Wrapf ''LibreGraph configuration validation failed: '' e ''''), w')
      | (Inr ds, w') \<Rightarrow> (None, w'))"

section \<open>The target resolver\<close>

definition ResolveTarget ::
  "'w sdk \<Rightarrow> libregraphClient \<Rightarrow> string \<Rightarrow> string \<Rightarrow> 'w \<Rightarrow> (goerror + Drive \<times> string) \<times> 'w" where
  "ResolveTarget sdk c driveID driveName w =
     (if driveID \<noteq> '''' then
        (case ResolveDrive sdk c driveID w of
           (Inl e, w') \<Rightarrow> (Inl (Wrapf (''failed to resolve drive by ID '' @ quoted driveID @ '': '') e ''''), w')
         | (Inr d, w') \<Rightarrow> (Inr (d, dr_webDAVURL d), w'))
      else if driveName \<noteq> '''' then
        (case SearchDrives sdk c '''' driveName w of
           (Inl e, w') \<Rightarrow> (Inl (Wrapf (''failed to search drives by name '' @ quoted driveName @ '': '') e ''''), w')
         | (Inr ds, w') \<Rightarrow>
             (case ds of
                [] \<Rightarrow> (Inl (Opaque (''drive with name '' @ quoted driveName @ '' not found'')), w')
              | [d] \<Rightarrow> (Inr (d, dr_webDAVURL d), w')
              | _ \<Rightarrow> (Inl (Opaque (''ambiguous drive name '' @ quoted driveName @ '': found '' @ itoa (length ds)
                     @ '' drives, operator must configure drive_id'')), w')))
      else (Inl (Opaque ''either drive_id or drive must be configured''), w))"

definition ValidateTarget :: "'w sdk \<Rightarrow> libregraphClient \<Rightarrow> string \<Rightarrow> string \<Rightarrow> 'w \<Rightarrow> goerror option \<times> 'w" where
  "ValidateTarget sdk c driveID driveName w =
     (case ResolveTarget sdk c driveID driveName w of
        (Inl e, w') \<Rightarrow> (Some e, w')
      | (Inr r, w') \<Rightarrow> (None, w'))"

text \<open>The target resolver never resolves a drive by its name: it searches with an empty user,
  which the search refuses before it asks the server. Its second to fourth rules are dead code.\<close>

theorem resolver_by_name_always_fails:
  assumes "driveName \<noteq> ''''"
  shows "ResolveTarget sdk c '''' driveName w
    = (Inl (Wrapf (''failed to search drives by name '' @ quoted driveName @ '': '') ErrGraphParameters ''''), w)"
  using assms by (simp add: ResolveTarget_def SearchDrives_def)

text \<open>A server for the examples, with two drives.\<close>

definition sdk_of :: "string \<Rightarrow> string \<Rightarrow> sdk_drive" where
  "sdk_of i n = \<lparr>sd_id = Some i, sd_name = Some n, sd_description = None, sd_webUrl = Some ''https://ocis/f'',
     sd_owner = None, sd_root = None\<rparr>"

definition two_drives :: "nat sdk" where
  "two_drives =
     \<lparr>GetDrive = (\<lambda>srv auth i n. (if i = ''d1'' then Inr (Some (sdk_of ''d1'' ''Scans'')) else Inl (Some 404), Suc n)),
      ListMyDrives = (\<lambda>srv auth n. (Inr (Some [sdk_of ''d1'' ''Scans'', sdk_of ''d2'' ''Mail'']), Suc n)),
      with_path = (\<lambda>u p. Some (''https://ocis'' @ p))\<rparr>"

definition a_graph_client :: libregraphClient where
  "a_graph_client = NewLibreGraphClient ''https://ocis/graph/v1.0/'' ''bridge'' ''tok''"

theorem resolver_by_name_always_fails_witness:
  "fst (ListDrives two_drives a_graph_client '''' 0) \<noteq> Inr []
     \<and> snd (ResolveTarget two_drives a_graph_client '''' ''Scans'' 0) = 0
     \<and> fst (ResolveTarget two_drives a_graph_client '''' ''Scans'' 0)
         = Inl (Wrapf (''failed to search drives by name '' @ quoted ''Scans'' @ '': '') ErrGraphParameters '''')"
proof -
  have "fst (ListDrives two_drives a_graph_client '''' 0) \<noteq> Inr []"
    by (simp add: ListDrives_def two_drives_def a_graph_client_def NewLibreGraphClient_def Let_def)
  then show ?thesis using resolver_by_name_always_fails [of "''Scans''" two_drives a_graph_client 0] by simp
qed

end
