(* ===== verification/Drives.thy ===== *)
theory Drives
  imports Graph Interfaces
begin

text \<open>
  The resolution of an account's drive (\<open>pkg/ftp/driver.go\<close>): by identifier or by name over the
  Graph API, with a cache per account. The cache is an association list; \<open>time.Now()\<close> is read
  once by the lookup and once by the store, and both instants are arguments, in nanoseconds.
\<close>

section \<open>The cache\<close>

record driveCacheEntry =
  de_drive :: Drive
  de_expiresAt :: int

type_synonym drive_cache = "(string \<times> driveCacheEntry) list"

definition driveResolutionCacheTTL :: int where
  "driveResolutionCacheTTL = 5 * 60 * 1000000000"

definition cachedDriveResolution :: "int \<Rightarrow> string \<Rightarrow> drive_cache \<Rightarrow> Drive option" where
  "cachedDriveResolution clock username cache =
     (case map_of cache username of
        None \<Rightarrow> None
      | Some entry \<Rightarrow> if clock > de_expiresAt entry then None else Some (de_drive entry))"

definition storeDriveResolution :: "int \<Rightarrow> string \<Rightarrow> Drive \<Rightarrow> drive_cache \<Rightarrow> drive_cache" where
  "storeDriveResolution clock username d cache =
     aput username \<lparr>de_drive = d, de_expiresAt = clock + driveResolutionCacheTTL\<rparr> cache"

interpretation drive_cache: ttl_cache cachedDriveResolution storeDriveResolution driveResolutionCacheTTL
  by unfold_locales (auto simp: cachedDriveResolution_def storeDriveResolution_def)

section \<open>Resolution\<close>

definition resolveDriveFresh ::
  "'w sdk \<Rightarrow> string \<Rightarrow> AccountConfig \<Rightarrow> 'w \<Rightarrow> (goerror + Drive) \<times> 'w"
where
  "resolveDriveFresh sdk graphURL a w =
     (let client = NewLibreGraphClient graphURL (OCIS_Username (OCIS a)) (AppToken a) in
      if Target_DriveID (Target a) \<noteq> '''' then
        (case ResolveDrive sdk client (Target_DriveID (Target a)) w of
           (Inl e, w') \<Rightarrow> (Inl (Wrapf (''failed to resolve drive by ID '' @ Target_DriveID (Target a) @ '': '') e ''''), w')
         | (Inr d, w') \<Rightarrow> (Inr d, w'))
      else if Target_Drive (Target a) \<noteq> '''' then
        (case ListDrives sdk client (OCIS_Username (OCIS a)) w of
           (Inl e, w') \<Rightarrow> (Inl (Wrapf ''failed to list drives: '' e ''''), w')
         | (Inr ds, w') \<Rightarrow>
             (let hit = (\<lambda>d. dr_name d = Target_Drive (Target a)) in
              (case find hit ds of
                 None \<Rightarrow> Inl (Opaque (''drive not found: '' @ Target_Drive (Target a)))
               | Some d \<Rightarrow>
                   if length (filter hit ds) > 1 then
                     Inl (Opaque (''ambiguous drive name '' @ Target_Drive (Target a) @ '', use drive_id instead''))
                   else Inr d), w'))
      else (Inl (Opaque ''no drive configured for account''), w))"

text \<open>\<open>t\<close> is the instant of the lookup and \<open>t'\<close> the one of the store.\<close>

definition resolveDriveForAccount ::
  "'w sdk \<Rightarrow> string \<Rightarrow> int \<Rightarrow> int \<Rightarrow> AccountConfig \<Rightarrow> drive_cache \<Rightarrow> 'w \<Rightarrow> (goerror + Drive) \<times> drive_cache \<times> 'w"
where
  "resolveDriveForAccount sdk graphURL t t' a cache w =
     (case cachedDriveResolution t (Username a) cache of
        Some d \<Rightarrow> (Inr d, cache, w)
      | None \<Rightarrow>
          (case resolveDriveFresh sdk graphURL a w of
             (Inl e, w') \<Rightarrow> (Inl e, cache, w')
           | (Inr d, w') \<Rightarrow> (Inr d, storeDriveResolution t' (Username a) d cache, w')))"

section \<open>A name resolves to the one drive that has it\<close>

lemma filter_length_1: "find P xs = Some x \<Longrightarrow> \<not> 1 < length (filter P xs) \<Longrightarrow> filter P xs = [x]"
proof -
  assume f: "find P xs = Some x" and l: "\<not> 1 < length (filter P xs)"
  obtain ys where "filter P xs = x # ys"
    using f by (induction xs) (auto split: if_splits)
  with l show ?thesis by (cases ys) auto
qed

lemma find_filter: "find P xs = (case filter P xs of [] \<Rightarrow> None | x # _ \<Rightarrow> Some x)"
  by (induction xs) auto

text \<open>An account configured by drive name gets a drive exactly when one and only one of the
  drives the server lists has that very name, and it gets that drive; the server is asked once.\<close>

theorem drive_by_name_unique:
  assumes "Target_DriveID (Target a) = ''''" and "Target_Drive (Target a) \<noteq> ''''"
    and "ListDrives sdk (NewLibreGraphClient graphURL (OCIS_Username (OCIS a)) (AppToken a)) (OCIS_Username (OCIS a)) w
      = (Inr ds, w')"
  shows "snd (resolveDriveFresh sdk graphURL a w) = w'
    \<and> (\<forall>d. fst (resolveDriveFresh sdk graphURL a w) = Inr d \<longleftrightarrow>
        filter (\<lambda>d. dr_name d = Target_Drive (Target a)) ds = [d])"
proof -
  let ?hit = "\<lambda>d. dr_name d = Target_Drive (Target a)"
  have "resolveDriveFresh sdk graphURL a w
    = ((case filter ?hit ds of
         [] \<Rightarrow> Inl (Opaque (''drive not found: '' @ Target_Drive (Target a)))
       | [d] \<Rightarrow> Inr d
       | _ \<Rightarrow> Inl (Opaque (''ambiguous drive name '' @ Target_Drive (Target a) @ '', use drive_id instead''))), w')"
    using assms by (auto simp: resolveDriveFresh_def Let_def find_filter split: list.splits)
  then show ?thesis by (auto split: list.splits)
qed

definition name_account :: AccountConfig where
  "name_account =
     \<lparr>Username = ''scanner'', PasswordHash = '''', OCIS = \<lparr>OCIS_Username = ''bridge'', AppTokenEnv = ''T''\<rparr>,
      Target = \<lparr>Target_DriveID = '''', Target_Drive = ''Scans'', Target_Root = ''/in''\<rparr>,
      Upload_of = \<lparr>CollisionPolicy_of = ''rename'', Upload_MaxSize = 1024, MaxConcurrentUploads = 0\<rparr>,
      AppToken = ''tok''\<rparr>"

lemma name_account_sel [simp]:
  "Target_DriveID (Target name_account) = ''''" "Target_Drive (Target name_account) = ''Scans''"
  "Username name_account = ''scanner''"
  by (simp_all add: name_account_def)

lemma two_drives_list: "ListDrives two_drives (NewLibreGraphClient g u p) x n
    = (Inr (map (convertDrive two_drives) [sdk_of ''d1'' ''Scans'', sdk_of ''d2'' ''Mail'']), Suc n)"
  by (simp add: ListDrives_def two_drives_def NewLibreGraphClient_def Let_def)

theorem drive_by_name_unique_witness:
  "snd (resolveDriveFresh two_drives ''https://ocis'' name_account 0) = 1
     \<and> fst (resolveDriveFresh two_drives ''https://ocis'' name_account 0)
         = Inr (convertDrive two_drives (sdk_of ''d1'' ''Scans''))"
  using drive_by_name_unique [OF name_account_sel(1) _ two_drives_list [of "''https://ocis''"], of 0]
  by (simp add: convertDrive_def sdk_of_def safeString_def)

section \<open>The cache saves calls and keeps no failure\<close>

text \<open>A sequence of logins, each with its account and its two instants: the outcomes, and for every
  resolution that reached the server the instant of the store, the account and the result.\<close>

fun login_run ::
  "'w sdk \<Rightarrow> string \<Rightarrow> (int \<times> int \<times> AccountConfig) list \<Rightarrow> drive_cache \<Rightarrow> 'w \<Rightarrow>
     (goerror + Drive) list \<times> drive_cache \<times> 'w"
where
  "login_run sdk g [] cache w = ([], cache, w)"
| "login_run sdk g ((t, t', a) # ls) cache w =
     (case resolveDriveForAccount sdk g t t' a cache w of
        (r, cache1, w1) \<Rightarrow>
          (case login_run sdk g ls cache1 w1 of (rs, cache2, w2) \<Rightarrow> (r # rs, cache2, w2)))"

lemma resolve_other:
  "Username a \<noteq> u \<Longrightarrow> resolveDriveForAccount sdk g t t' a cache w = (r, cache', w') \<Longrightarrow>
     cachedDriveResolution s u cache' = cachedDriveResolution s u cache"
  by (auto simp: resolveDriveForAccount_def drive_cache.get_put_other split: option.splits sum.splits prod.splits)

lemma resolve_cached:
  "cachedDriveResolution t (Username a) cache = Some d \<Longrightarrow>
     resolveDriveForAccount sdk g t t' a cache w = (Inr d, cache, w)"
  by (simp add: resolveDriveForAccount_def)

lemma cached_until:
  "cachedDriveResolution t u cache = Some d \<Longrightarrow> s \<le> t \<Longrightarrow> cachedDriveResolution s u cache = Some d"
  by (auto simp: cachedDriveResolution_def split: option.splits if_splits)

text \<open>While the entry of a user is fresh, logins of that user find it whatever the others do.\<close>

lemma login_run_fresh:
  assumes "cachedDriveResolution e u cache = Some d" and "\<forall>l \<in> set ls. fst l \<le> e"
    and "login_run sdk g ls cache w = (rs, cache', w')"
  shows "cachedDriveResolution e u cache' = Some d
    \<and> (\<forall>i < length ls. Username (snd (snd (ls ! i))) = u \<longrightarrow> rs ! i = Inr d)"
  using assms
proof (induction ls arbitrary: cache w rs)
  case (Cons l ls)
  obtain t t' a where l: "l = (t, t', a)" by (cases l)
  obtain r c1 w1 where r: "resolveDriveForAccount sdk g t t' a cache w = (r, c1, w1)"
    by (cases "resolveDriveForAccount sdk g t t' a cache w")
  obtain rs1 c2 w2 where rest: "login_run sdk g ls c1 w1 = (rs1, c2, w2)"
    by (cases "login_run sdk g ls c1 w1")
  have rs: "rs = r # rs1" "cache' = c2" "w' = w2" using Cons.prems(3) by (auto simp: l r rest)
  have t: "t \<le> e" using Cons.prems(2) l by simp
  have hit: "c1 = cache \<and> r = Inr d" if "Username a = u"
    using r resolve_cached [OF cached_until [OF _ t], of a cache d sdk g t' w] Cons.prems(1) that by auto
  have c1: "cachedDriveResolution e u c1 = Some d"
    using hit resolve_other [OF _ r] Cons.prems(1) by (cases "Username a = u") auto
  have IH: "cachedDriveResolution e u cache' = Some d
      \<and> (\<forall>i < length ls. Username (snd (snd (ls ! i))) = u \<longrightarrow> rs1 ! i = Inr d)"
    using Cons.IH [OF c1] Cons.prems(2) rest rs(2,3) by simp
  show ?case
    unfolding rs(1) using IH hit by (auto simp: nth_Cons l split: nat.splits)
qed auto

text \<open>C32. Once an account's drive has been resolved, every login of the account within the next five
  minutes gets that drive, and a login then does not reach the server at all; a resolution that
  fails leaves the cache as it was, so that the next login asks the server again.\<close>

theorem drive_cache_saves_calls:
  assumes "resolveDriveFresh sdk g a w = (Inr d, w1)" and "cachedDriveResolution t (Username a) cache = None"
    and "resolveDriveForAccount sdk g t t' a cache w = (r, cache1, w1)"
    and "\<And>s s' b. (s, s', b) \<in> set ls \<Longrightarrow> s < t' + driveResolutionCacheTTL"
    and "login_run sdk g ls cache1 w1 = (rs, cache2, w2)"
    and "s < t' + driveResolutionCacheTTL" and "Username b = Username a"
  shows "r = Inr d \<and> (\<forall>i < length ls. Username (snd (snd (ls ! i))) = Username a \<longrightarrow> rs ! i = Inr d)
    \<and> resolveDriveForAccount sdk g s s' b cache2 w2 = (Inr d, cache2, w2)
    \<and> (\<forall>w3 w4 x. cachedDriveResolution s (Username b) cache = None \<longrightarrow>
         resolveDriveFresh sdk g b w3 = (Inl x, w4) \<longrightarrow>
         resolveDriveForAccount sdk g s s' b cache w3 = (Inl x, cache, w4))"
proof -
  let ?e = "t' + driveResolutionCacheTTL"
  have c1: "r = Inr d" "cache1 = storeDriveResolution t' (Username a) d cache"
    using assms(1,2,3) by (auto simp: resolveDriveForAccount_def)
  have e: "cachedDriveResolution ?e (Username a) cache1 = Some d"
    by (simp add: c1 cachedDriveResolution_def storeDriveResolution_def)
  have F: "cachedDriveResolution ?e (Username a) cache2 = Some d
      \<and> (\<forall>i < length ls. Username (snd (snd (ls ! i))) = Username a \<longrightarrow> rs ! i = Inr d)"
    by (rule login_run_fresh [OF e _ assms(5)]) (use assms(4) in force)
  have f2: "cachedDriveResolution s (Username b) cache2 = Some d"
    using F cached_until [of ?e "Username a" cache2 d s] assms(6,7) by simp
  have "resolveDriveForAccount sdk g s s' b cache2 w2 = (Inr d, cache2, w2)"
    by (rule resolve_cached [OF f2])
  moreover have "resolveDriveForAccount sdk g s s' b cache w3 = (Inl x, cache, w4)"
    if "cachedDriveResolution s (Username b) cache = None" "resolveDriveFresh sdk g b w3 = (Inl x, w4)" for w3 w4 x
    using that by (simp add: resolveDriveForAccount_def)
  ultimately show ?thesis using F c1 by blast
qed

theorem drive_cache_saves_calls_witness:
  "\<exists>d. resolveDriveForAccount two_drives ''g'' 10 20 name_account [] 0
      = (Inr d, storeDriveResolution 20 ''scanner'' d [], 1)
    \<and> resolveDriveForAccount two_drives ''g'' (20 + 299999999999) 0 name_account
        (storeDriveResolution 20 ''scanner'' d []) 1 = (Inr d, storeDriveResolution 20 ''scanner'' d [], 1)"
proof -
  let ?d = "convertDrive two_drives (sdk_of ''d1'' ''Scans'')"
  have f: "resolveDriveFresh two_drives ''g'' name_account 0 = (Inr ?d, 1)"
    by (simp add: resolveDriveFresh_def Let_def two_drives_list convertDrive_def sdk_of_def safeString_def)
  have r: "resolveDriveForAccount two_drives ''g'' 10 20 name_account [] 0
      = (Inr ?d, storeDriveResolution 20 ''scanner'' ?d [], 1)"
    by (simp add: resolveDriveForAccount_def f cachedDriveResolution_def)
  have n: "cachedDriveResolution 10 (Username name_account) [] = None" by (simp add: cachedDriveResolution_def)
  have l: "login_run two_drives ''g'' [] (storeDriveResolution 20 ''scanner'' ?d []) 1
      = ([], storeDriveResolution 20 ''scanner'' ?d [], 1)" by simp
  have s: "20 + 299999999999 < 20 + driveResolutionCacheTTL" by (simp add: driveResolutionCacheTTL_def)
  from drive_cache_saves_calls [OF f n r _ l s refl] r show ?thesis by auto
qed

end
