(* ===== verification/Bridge.thy ===== *)
theory Bridge
  imports Connections AuthAttempts UploadSlots Drives SpoolManager Transfers
begin

text \<open>
  The FTP driver (\<open>pkg/ftp/driver.go\<close>): its construction, connections, logins and lifecycle. The
  driver is one record. What the code shares by pointer is kept once and referred to: a
  \<open>*bridgeClientDriver\<close> is a reference into the store of sessions, and the map of clients maps a
  connection to it; the transfer managers are stored by user. The contexts of the driver, of its
  sessions and of their uploads live in the store of the spool. Log lines are left out; what is
  told to the metrics recorder, when there is one, is the list of calls.

  Argon2id, the Graph SDK and key pairs are the parameters \<open>IDKey\<close>, \<open>sdk\<close> and \<open>tls\<close>.
\<close>

section \<open>Errors\<close>

definition ErrInvalidCredentials :: goerror where
  "ErrInvalidCredentials = Sentinel '''' ''invalid FTP credentials''"

definition ErrUserNotFound :: goerror where
  "ErrUserNotFound = Sentinel '''' ''user not found''"

definition ErrNotImplemented :: goerror where
  "ErrNotImplemented = Sentinel '''' ''FTP account mapping not implemented''"

definition ErrOperationNotSupported :: goerror where
  "ErrOperationNotSupported = Sentinel '''' ''operation not supported''"

definition ErrServerShuttingDown :: goerror where
  "ErrServerShuttingDown = Sentinel '''' ''server is shutting down''"

definition ErrUploadCancelled :: goerror where
  "ErrUploadCancelled = Sentinel '''' ''upload cancelled''"

section \<open>State\<close>

datatype metric =
    IncrementUploadsTotal string
  | IncrementUploadFailuresTotal string
  | AddUploadBytes uint64
  | ObserveUploadDuration int string
  | IncrementFTPSessionTotal string
  | SetFTPActiveSessions int

type_synonym conn_id = "32 word"

text \<open>A session; its uploads are references to their writers, by upload identifier.\<close>

record bridgeClientDriver =
  cd_account :: AccountConfig
  cd_drive :: Drive
  cd_user :: string
  cd_client :: webdavClient
  cd_uploads :: "(string \<times> nat) list"
  cd_counter :: uint64
  cd_ctx :: ctx

record spoolUpload =
  su_upload :: nat
  su_fileRef :: "FileRef option"
  su_start :: int
  su_lastChunk :: int
  su_path :: string

text \<open>\<open>spoolUpload\<close> is shared by the writer and the session's table, and kept in the writer.\<close>

record uploadWriter =
  uw_session :: nat
  uw_id :: string
  uw_spool :: spoolUpload
  uw_err :: "goerror option"

record BridgeDriver =
  br_cfg :: Config
  br_spool :: spool
  br_transfers :: "(string \<times> TransferManager) list"
  br_metrics :: "metric list option"
  br_active :: int
  br_maxConnections :: int
  br_uploadsTotal :: uint64
  br_uploadsSuccess :: uint64
  br_uploadsFailed :: uint64
  br_totalBytes :: uint64
  br_accounts :: "(string \<times> AccountConfig) list"
  br_driveCache :: drive_cache
  br_clients :: "(conn_id \<times> nat) list"
  br_allowed :: "(conn_id \<times> bool) list"
  br_connTracker :: "ConnectionTracker option"
  br_authTracker :: "AuthAttemptTracker option"
  br_authSem :: nat
  br_slots :: upload_slots
  br_ctx :: ctx
  br_shutdown :: bool
  br_sessions :: "(nat \<times> bridgeClientDriver) list"
  br_writers :: "(nat \<times> uploadWriter) list"

text \<open>References are handed out in order, and never taken back.\<close>

definition fresh_ref :: "(nat \<times> 'a) list \<Rightarrow> nat" where
  "fresh_ref m = (if m = [] then 0 else Suc (Max (set (akeys m))))"

section \<open>Construction\<close>

definition account_target :: "AccountConfig \<Rightarrow> TargetConfig" where
  "account_target a =
     \<lparr>tc_driveID = Target_DriveID (Target a), tc_drive = Target_Drive (Target a), tc_root = Target_Root (Target a),
      tc_policy = CollisionPolicy_of (Upload_of a), tc_maxSize = Upload_MaxSize (Upload_of a)\<rparr>"

definition account_manager :: "ctx \<Rightarrow> string \<Rightarrow> AccountConfig \<Rightarrow> TransferManager" where
  "account_manager ctx webdavURL a =
     AddTarget (Username a) (account_target a)
       (NewTransferManagerWithWebDAV ctx (Some (NewWebDAVClient webdavURL (OCIS_Username (OCIS a)) (AppToken a))))"

definition maxConcurrentVerifications :: nat where
  "maxConcurrentVerifications = 4"

definition NewBridgeDriver :: "Config \<Rightarrow> spool \<Rightarrow> BridgeDriver" where
  "NewBridgeDriver cfg sp =
     (let (ctx, cs) = with_cancel [] (ctxs sp);
          rl = RateLimiting (Server cfg);
          track = TrackFailedAttempts rl
      in \<lparr>br_cfg = cfg, br_spool = sp\<lparr>ctxs := cs\<rparr>,
          br_transfers = foldl (\<lambda>m a. aput (Username a) (account_manager ctx (WebDAVURL (OCIS_of cfg)) a) m) [] (Accounts cfg),
          br_metrics = None, br_active = 0, br_maxConnections = MaxConnections (Server cfg),
          br_uploadsTotal = 0, br_uploadsSuccess = 0, br_uploadsFailed = 0, br_totalBytes = 0,
          br_accounts = foldl (\<lambda>m a. aput (Username a) a m) [] (Accounts cfg),
          br_driveCache = [], br_clients = [], br_allowed = [],
          br_connTracker = (if track then Some (newConnectionTracker (MaxConnectionsPerIP rl) (MaxGlobalConnections rl)) else None),
          br_authTracker = (if track then Some (newAuthAttemptTracker (MaxAuthAttemptsPerIP rl) (AuthAttemptWindow rl)
                                                  (AuthLockoutDuration rl)) else None),
          br_authSem = 0, br_slots = [], br_ctx = ctx, br_shutdown = False, br_sessions = [], br_writers = []\<rparr>)"

definition SetMetricsRecorder :: "metric list option \<Rightarrow> BridgeDriver \<Rightarrow> BridgeDriver" where
  "SetMetricsRecorder m d = d\<lparr>br_metrics := m\<rparr>"

text \<open>Calls on the metrics recorder, if it is set.\<close>

definition emit :: "metric list \<Rightarrow> BridgeDriver \<Rightarrow> BridgeDriver" where
  "emit ms d = d\<lparr>br_metrics := map_option (\<lambda>l. l @ ms) (br_metrics d)\<rparr>"

definition recordUploadFailure :: "string \<Rightarrow> int \<Rightarrow> BridgeDriver \<Rightarrow> BridgeDriver" where
  "recordUploadFailure reason duration d =
     emit [IncrementUploadsTotal ''failure'', IncrementUploadFailuresTotal reason, ObserveUploadDuration duration ''failure'']
       (d\<lparr>br_uploadsFailed := br_uploadsFailed d + 1\<rparr>)"

definition transferManagerFor :: "string \<Rightarrow> BridgeDriver \<Rightarrow> TransferManager option" where
  "transferManagerFor user d = map_of (br_transfers d) user"

text \<open>A tick of the janitor, which stops when the context of the driver is done.\<close>

definition janitor_tick :: "int \<Rightarrow> BridgeDriver \<Rightarrow> BridgeDriver" where
  "janitor_tick clock d =
     (if ctx_done (ctxs (br_spool d)) (br_ctx d) then d
      else d\<lparr>br_connTracker := map_option sweep_connections (br_connTracker d),
             br_authTracker := map_option (sweep_attempts clock) (br_authTracker d)\<rparr>)"

section \<open>Connections\<close>

definition connection_limit_error :: goerror where
  "connection_limit_error = Opaque ''connection limit reached for this IP''"

text \<open>The addresses are those of \<open>cc.RemoteAddr().String()\<close>, the identifiers those of \<open>cc.ID()\<close>.\<close>

definition ClientConnected :: "conn_id \<Rightarrow> string \<Rightarrow> BridgeDriver \<Rightarrow> (goerror + string) \<times> BridgeDriver" where
  "ClientConnected c addr d =
     (case AllowConnection_opt (extractClientIP addr) (br_connTracker d) of
        (False, ct) \<Rightarrow> (Inl connection_limit_error, d\<lparr>br_connTracker := ct\<rparr>)
      | (True, ct) \<Rightarrow>
          (let d1 = d\<lparr>br_connTracker := ct, br_allowed := aput c True (br_allowed d), br_active := br_active d + 1\<rparr>
           in (Inr ''220 ocis-ftp-bridge ready'', emit [SetFTPActiveSessions (br_active d1)] d1)))"

definition cancel_session :: "nat option \<Rightarrow> BridgeDriver \<Rightarrow> BridgeDriver" where
  "cancel_session r d =
     (case Option.bind r (map_of (br_sessions d)) of
        None \<Rightarrow> d
      | Some s \<Rightarrow> d\<lparr>br_spool := (br_spool d)\<lparr>ctxs := cancel_ctx (cd_ctx s) (ctxs (br_spool d))\<rparr>\<rparr>)"

definition ClientDisconnected :: "conn_id \<Rightarrow> string \<Rightarrow> BridgeDriver \<Rightarrow> BridgeDriver" where
  "ClientDisconnected c addr d =
     (let clientIP = extractClientIP addr;
          session = map_of (br_clients d) c;
          wasAllowed = map_of (br_allowed d) c \<noteq> None;
          d1 = d\<lparr>br_clients := adel c (br_clients d), br_allowed := adel c (br_allowed d)\<rparr>;
          d2 = cancel_session session d1;
          d3 = (if wasAllowed then d2\<lparr>br_connTracker := ReleaseConnection_opt clientIP (br_connTracker d2)\<rparr> else d2);
          d4 = d3\<lparr>br_active := br_active d3 - 1\<rparr>
      in emit [SetFTPActiveSessions (br_active d4)] d4)"

definition Shutdown :: "BridgeDriver \<Rightarrow> BridgeDriver" where
  "Shutdown d =
     (if br_shutdown d then d
      else d\<lparr>br_shutdown := True, br_spool := (br_spool d)\<lparr>ctxs := cancel_ctx (br_ctx d) (ctxs (br_spool d))\<rparr>\<rparr>)"

definition IsShuttingDown :: "BridgeDriver \<Rightarrow> bool" where
  "IsShuttingDown d = br_shutdown d"

section \<open>Logins\<close>

definition dummyPasswordHash :: string where
  "dummyPasswordHash =
     ''$argon2id$v=19$m=65536,t=3,p=4$V2HEceVvtTsIpU6Wij92vw$n/WMbvGMAALmNM9yA18u19MLN7rn16akha2yqhAWQOo''"

definition authenticateUser :: "id_key \<Rightarrow> string \<Rightarrow> string \<Rightarrow> (string \<times> AccountConfig) list \<Rightarrow> goerror + AccountConfig" where
  "authenticateUser IDKey user password accounts =
     (case map_of accounts user of
        None \<Rightarrow>
          (case VerifyPassword IDKey dummyPasswordHash password of
             Inl e \<Rightarrow> Inl ErrInvalidCredentials
           | Inr ok \<Rightarrow> Inl ErrUserNotFound)
      | Some a \<Rightarrow>
          if PasswordHash a \<noteq> '''' then
            (case VerifyPassword IDKey (PasswordHash a) password of
               Inl e \<Rightarrow> Inl (Wrapf ''password verification error: '' e '''')
             | Inr ok \<Rightarrow> if \<not> ok then Inl ErrInvalidCredentials else Inr a)
          else Inl ErrInvalidCredentials)"

text \<open>
  A login has two parts, between which other operations may run: the checks up to the semaphore
  that bounds the concurrent verifications, and the rest, which gives the semaphore back.
\<close>

definition lockout_check :: "int \<Rightarrow> string \<Rightarrow> BridgeDriver \<Rightarrow> bool \<times> BridgeDriver" where
  "lockout_check clock ip d =
     (case br_authTracker d of
        None \<Rightarrow> (False, d)
      | Some at \<Rightarrow> (case IsIPLockedOut clock ip at of (l, at') \<Rightarrow> (l, d\<lparr>br_authTracker := Some at'\<rparr>)))"

definition auth_enter :: "int \<Rightarrow> string \<Rightarrow> BridgeDriver \<Rightarrow> goerror option \<times> BridgeDriver" where
  "auth_enter clock addr d =
     (let clientIP = extractClientIP addr in
      if br_shutdown d then (Some ErrServerShuttingDown, d)
      else case lockout_check clock clientIP d of
        (True, d1) \<Rightarrow>
          (Some (Opaque (''too many failed authentication attempts from '' @ clientIP @ ''. Try again later'')), d1)
      | (False, d1) \<Rightarrow>
          if br_maxConnections d1 > 0 \<and> br_active d1 \<ge> br_maxConnections d1 then
            (Some (Opaque ''server connection limit reached''), d1)
          else if br_authSem d1 < maxConcurrentVerifications then (None, d1\<lparr>br_authSem := br_authSem d1 + 1\<rparr>)
          else (Some (Opaque ''too many concurrent authentication attempts, try again later''), d1))"

definition record_attempt :: "int \<Rightarrow> string \<Rightarrow> bool \<Rightarrow> BridgeDriver \<Rightarrow> BridgeDriver" where
  "record_attempt clock ip success d =
     d\<lparr>br_authTracker := map_option (\<lambda>at. snd (RecordAuthAttempt clock ip success at)) (br_authTracker d)\<rparr>"

definition new_session :: "conn_id \<Rightarrow> string \<Rightarrow> AccountConfig \<Rightarrow> Drive \<Rightarrow> BridgeDriver \<Rightarrow> nat \<times> BridgeDriver" where
  "new_session c user a drive d =
     (let base = (if dr_webDAVURL drive = '''' then WebDAVURL (OCIS_of (br_cfg d)) else dr_webDAVURL drive);
          (ctx, cs) = with_cancel (br_ctx d) (ctxs (br_spool d));
          r = fresh_ref (br_sessions d);
          s = \<lparr>cd_account = a, cd_drive = drive, cd_user = user,
               cd_client = NewWebDAVClient base (OCIS_Username (OCIS a)) (AppToken a),
               cd_uploads = [], cd_counter = 0, cd_ctx = ctx\<rparr>
      in (r, d\<lparr>br_spool := (br_spool d)\<lparr>ctxs := cs\<rparr>, br_sessions := aput r s (br_sessions d),
               br_clients := aput c r (br_clients d)\<rparr>))"

text \<open>\<open>t\<close> is the instant of the lookup in the drive cache, \<open>t'\<close> the one of what follows.\<close>

definition auth_body ::
  "id_key \<Rightarrow> 'w sdk \<Rightarrow> int \<Rightarrow> int \<Rightarrow> conn_id \<Rightarrow> string \<Rightarrow> string \<Rightarrow> string \<Rightarrow> BridgeDriver \<Rightarrow> 'w \<Rightarrow>
     (goerror + nat) \<times> BridgeDriver \<times> 'w"
where
  "auth_body IDKey sdk t t' c addr user password d w =
     (let clientIP = extractClientIP addr in
      case authenticateUser IDKey user password (br_accounts d) of
        Inl e \<Rightarrow>
          (Inl ErrInvalidCredentials, emit [IncrementFTPSessionTotal ''failure''] (record_attempt t' clientIP False d), w)
      | Inr a \<Rightarrow>
          if OCIS_Username (OCIS a) = '''' \<or> AppToken a = '''' then
            (Inl ErrInvalidCredentials, record_attempt t' clientIP False d, w)
          else
            (case resolveDriveForAccount sdk (GraphURL (OCIS_of (br_cfg d))) t t' a (br_driveCache d) w of
               (Inl e, cache, w1) \<Rightarrow> (Inl (Wrapf ''drive resolution failed: '' e ''''), d\<lparr>br_driveCache := cache\<rparr>, w1)
             | (Inr drive, cache, w1) \<Rightarrow>
                 (case new_session c user a drive (d\<lparr>br_driveCache := cache\<rparr>) of
                    (r, d1) \<Rightarrow>
                      (let d2 = record_attempt t' clientIP True d1
                       in (Inr r, emit [IncrementFTPSessionTotal ''success'', SetFTPActiveSessions (br_active d2)] d2, w1)))))"

definition auth_leave :: "BridgeDriver \<Rightarrow> BridgeDriver" where
  "auth_leave d = d\<lparr>br_authSem := br_authSem d - 1\<rparr>"

definition auth_finish ::
  "id_key \<Rightarrow> 'w sdk \<Rightarrow> int \<Rightarrow> int \<Rightarrow> conn_id \<Rightarrow> string \<Rightarrow> string \<Rightarrow> string \<Rightarrow> BridgeDriver \<Rightarrow> 'w \<Rightarrow>
     (goerror + nat) \<times> BridgeDriver \<times> 'w"
where
  "auth_finish IDKey sdk t t' c addr user password d w =
     (case auth_body IDKey sdk t t' c addr user password d w of (r, d1, w1) \<Rightarrow> (r, auth_leave d1, w1))"

definition AuthUser ::
  "id_key \<Rightarrow> 'w sdk \<Rightarrow> int \<Rightarrow> int \<Rightarrow> conn_id \<Rightarrow> string \<Rightarrow> string \<Rightarrow> string \<Rightarrow> BridgeDriver \<Rightarrow> 'w \<Rightarrow>
     (goerror + nat) \<times> BridgeDriver \<times> 'w"
where
  "AuthUser IDKey sdk t t' c addr user password d w =
     (case auth_enter t addr d of
        (Some e, d1) \<Rightarrow> (Inl e, d1, w)
      | (None, d1) \<Rightarrow> auth_finish IDKey sdk t t' c addr user password d1 w)"

section \<open>Settings\<close>

datatype TLSRequirement = ClearOrEncrypted | MandatoryEncryption

record Settings =
  ListenAddr :: string
  PublicHost :: string
  IdleTimeout :: int
  ConnectionTimeout :: int
  PortRange :: "int \<times> int"
  DisableMLSD :: bool
  DisableMLST :: bool
  DisableMFMT :: bool
  DisableSTAT :: bool
  DisableSYST :: bool
  ActiveTransferPortNon20 :: bool
  BinaryTransfers :: bool
  TLSRequired :: TLSRequirement
  DisableActiveMode :: bool
  ActiveIPMatchRequired :: bool
  PasvIPMatchRequired :: bool
  DisableSite :: bool
  DisableLISTArgs :: bool

definition GetSettings :: "BridgeDriver \<Rightarrow> Settings" where
  "GetSettings d =
     (let s = Server (br_cfg d) in
      \<lparr>ListenAddr = Listen s, PublicHost = PublicIP (Passive s), IdleTimeout = 300, ConnectionTimeout = 60,
       PortRange = (MinPort (Passive s), MaxPort (Passive s)), DisableMLSD = False, DisableMLST = False,
       DisableMFMT = True, DisableSTAT = True, DisableSYST = False, ActiveTransferPortNon20 = True,
       BinaryTransfers = True,
       TLSRequired = (if TLS_Enabled (TLS s) then MandatoryEncryption else ClearOrEncrypted),
       DisableActiveMode = (\<not> AllowActiveMode s), ActiveIPMatchRequired = True, PasvIPMatchRequired = True,
       DisableSite = True, DisableLISTArgs = True\<rparr>)"

text \<open>The certificate and the least version of the protocol, 1.2.\<close>

definition GetTLSConfig :: "tls_files \<Rightarrow> BridgeDriver \<Rightarrow> goerror + certificate \<times> (nat \<times> nat)" where
  "GetTLSConfig tls d =
     (let t = TLS (Server (br_cfg d)) in
      if \<not> TLS_Enabled t then Inl (Opaque ''TLS is not enabled'')
      else case load_pair tls (TLS_Cert t) (TLS_Key t) of
        Inl e \<Rightarrow> Inl (Wrapf ''failed to load TLS certificate: '' e '''')
      | Inr cert \<Rightarrow> Inr (cert, (1, 2)))"

end
