(* ===== verification/BridgeUploads.thy ===== *)
theory BridgeUploads
  imports Bridge
begin

text \<open>
  Uploads through the FTP driver (\<open>pkg/ftp/driver.go\<close>): opening a file for writing, writing
  chunks, closing, and the commit of the spooled file to oCIS over WebDAV. The instant of an
  operation is that of its environment \<open>env\<close>, which also holds the faults of the disk; the HTTP
  transport is the parameter \<open>net\<close> of theory Webdav, on which a request is not sent once its
  context, the driver's or the session's, is done: whether it is is read when an operation starts.
\<close>

section \<open>Opening\<close>

definition set_session :: "nat \<Rightarrow> bridgeClientDriver \<Rightarrow> BridgeDriver \<Rightarrow> BridgeDriver" where
  "set_session r s d = d\<lparr>br_sessions := aput r s (br_sessions d)\<rparr>"

definition set_writer :: "nat \<Rightarrow> uploadWriter \<Rightarrow> BridgeDriver \<Rightarrow> BridgeDriver" where
  "set_writer r x d = d\<lparr>br_writers := aput r x (br_writers d)\<rparr>"

definition generateSessionUploadID :: "int \<Rightarrow> bridgeClientDriver \<Rightarrow> string \<times> bridgeClientDriver" where
  "generateSessionUploadID clock s =
     (let n = cd_counter s + 1
      in (cd_user s @ ''-'' @ itoa (unat n) @ ''-'' @ itoa_int clock, s\<lparr>cd_counter := n\<rparr>))"

definition acquire_slot :: "AccountConfig \<Rightarrow> BridgeDriver \<Rightarrow> goerror option \<times> BridgeDriver" where
  "acquire_slot a d =
     (case acquireUploadSlot (Username a) (MaxConcurrentUploads (Upload_of a)) (br_slots d) of
        (e, slots) \<Rightarrow> (e, d\<lparr>br_slots := slots\<rparr>))"

definition release_slot :: "AccountConfig \<Rightarrow> BridgeDriver \<Rightarrow> BridgeDriver" where
  "release_slot a d =
     d\<lparr>br_slots := releaseUploadSlot (Username a) (MaxConcurrentUploads (Upload_of a)) (br_slots d)\<rparr>"

definition upload_request_of :: "bridgeClientDriver \<Rightarrow> string \<Rightarrow> TransferRequest" where
  "upload_request_of s path =
     \<lparr>tr_userID = cd_user s, tr_filename = Base path, tr_path = TrimPrefix (Dir path) ''/'', tr_size = -1,
      tr_data = '''', tr_reader = None\<rparr>"

definition no_transfer_error :: "string \<Rightarrow> goerror" where
  "no_transfer_error user = Opaque (''no transfer configuration for user '' @ user)"

text \<open>The writer of an upload that the spool has started as \<open>u\<close>.\<close>

definition new_writer :: "int \<Rightarrow> nat \<Rightarrow> nat \<Rightarrow> string \<Rightarrow> BridgeDriver \<Rightarrow> nat \<times> BridgeDriver" where
  "new_writer clock r u targetPath d =
     (case map_of (br_sessions d) r of
        None \<Rightarrow> (0, d)
      | Some s \<Rightarrow>
          (case generateSessionUploadID clock s of
             (uploadID, s1) \<Rightarrow>
               (let k = fresh_ref (br_writers d);
                    x = \<lparr>uw_session = r, uw_id = uploadID,
                         uw_spool = \<lparr>su_upload = u, su_fileRef = None, su_start = clock, su_lastChunk = clock,
                                     su_path = targetPath\<rparr>,
                         uw_err = None\<rparr>
                in (k, set_writer k x (set_session r (s1\<lparr>cd_uploads := aput uploadID k (cd_uploads s1)\<rparr>) d)))))"

text \<open>
  The identifier is generated before the spool starts the upload; nothing looks at it when the
  start fails, except the counter, which is then one further on.
\<close>

definition skip_uploadID :: "int \<Rightarrow> nat \<Rightarrow> BridgeDriver \<Rightarrow> BridgeDriver" where
  "skip_uploadID clock r d =
     (case map_of (br_sessions d) r of
        None \<Rightarrow> d
      | Some s \<Rightarrow> set_session r (snd (generateSessionUploadID clock s)) d)"

text \<open>The network under the context of a transfer manager, and under that of a session.\<close>

definition manager_net :: "'w net \<Rightarrow> TransferManager \<Rightarrow> BridgeDriver \<Rightarrow> 'w net" where
  "manager_net net tm d = with_ctx (ctx_done (ctxs (br_spool d)) (tm_context tm)) net"

definition session_net :: "'w net \<Rightarrow> bridgeClientDriver \<Rightarrow> BridgeDriver \<Rightarrow> 'w net" where
  "session_net net s d = with_ctx (ctx_done (ctxs (br_spool d)) (cd_ctx s)) net"

definition handleUploadOpen ::
  "'w net \<Rightarrow> os_env \<Rightarrow> nat \<Rightarrow> string \<Rightarrow> BridgeDriver \<Rightarrow> 'w \<Rightarrow> (goerror + nat) \<times> BridgeDriver \<times> 'w"
where
  "handleUploadOpen net env r path d w =
     (case map_of (br_sessions d) r of
        None \<Rightarrow> (Inl (no_transfer_error ''''), d, w)
      | Some s \<Rightarrow>
      case transferManagerFor (cd_user s) d of
        None \<Rightarrow> (Inl (no_transfer_error (cd_user s)), d, w)
      | Some tm \<Rightarrow>
      case ProcessUpload (manager_net net tm d) (now env) (upload_request_of s path) tm w of
        (res, tm1, w1) \<Rightarrow>
      let d1 = d\<lparr>br_transfers := aput (cd_user s) tm1 (br_transfers d)\<rparr> in
      if \<not> ts_success res then (Inl (case ts_error res of None \<Rightarrow> Opaque '''' | Some e \<Rightarrow> e), d1, w1)
      else case acquire_slot (cd_account s) d1 of
        (Some e, d2) \<Rightarrow> (Inl e, d2, w1)
      | (None, d2) \<Rightarrow>
      case StartUpload env (cd_ctx s) (cd_user s) (ts_filename res) (ts_targetPath res) (-1)
             (Upload_MaxSize (Upload_of (cd_account s))) (br_spool d2) of
        (Inl e, sp) \<Rightarrow> (Inl e, release_slot (cd_account s) (skip_uploadID (now env) r (d2\<lparr>br_spool := sp\<rparr>)), w1)
      | (Inr u, sp) \<Rightarrow>
          (case new_writer (now env) r u (ts_targetPath res) (d2\<lparr>br_spool := sp\<rparr>) of
             (k, d3) \<Rightarrow> (Inr k, d3\<lparr>br_uploadsTotal := br_uploadsTotal d3 + 1\<rparr>, w1)))"

section \<open>Writing\<close>

definition fail_writer :: "nat \<Rightarrow> uploadWriter \<Rightarrow> goerror \<Rightarrow> BridgeDriver \<Rightarrow> BridgeDriver" where
  "fail_writer k x e d = set_writer k (x\<lparr>uw_err := Some e\<rparr>) d"

definition writer_Write :: "os_env \<Rightarrow> nat \<Rightarrow> string \<Rightarrow> BridgeDriver \<Rightarrow> (int \<times> goerror option) \<times> BridgeDriver" where
  "writer_Write env k p d =
     (case map_of (br_writers d) k of
        None \<Rightarrow> ((0, Some ErrOperationNotSupported), d)
      | Some x \<Rightarrow>
      case uw_err x of
        Some e \<Rightarrow> ((0, Some e), d)
      | None \<Rightarrow>
      case map_of (uploads (br_spool d)) (su_upload (uw_spool x)) of
        None \<Rightarrow> ((0, Some ErrOperationNotSupported), d)
      | Some u \<Rightarrow>
      if ctx_done (ctxs (br_spool d)) (up_ctx u) then
        ((0, Some ErrUploadCancelled), fail_writer k x ErrUploadCancelled d)
      else
      let x1 = x\<lparr>uw_spool := (uw_spool x)\<lparr>su_lastChunk := now env\<rparr>\<rparr>;
          remaining = s64 (up_size u - up_received u); len = int (length p) in
      if len > remaining \<and> up_size u > 0 then
        ((0, Some Spool.ErrFileTooLarge), fail_writer k x1 Spool.ErrFileTooLarge d)
      else if s64 (up_received u + len) > to_int64 (up_max u) then
        ((0, Some Spool.ErrFileTooLarge), fail_writer k x1 Spool.ErrFileTooLarge d)
      else case WriteChunk env (Some (su_upload (uw_spool x))) p (br_spool d) of
        ((n, Some e), sp) \<Rightarrow> ((n, Some e), fail_writer k x1 e (d\<lparr>br_spool := sp\<rparr>))
      | ((n, None), sp) \<Rightarrow> ((n, None), set_writer k x1 (d\<lparr>br_spool := sp\<rparr>)))"

section \<open>Committing\<close>

definition maxCommitAttempts :: nat where
  "maxCommitAttempts = 3"

definition spooled_body :: "string \<Rightarrow> body" where
  "spooled_body content = \<lparr>bd_content = content, bd_pos = 0, bd_seeker = True, bd_closer = True, bd_closed = False\<rparr>"

text \<open>\<open>os.Open\<close> of the spooled file, as the body of a request.\<close>

definition open_spooled :: "os_env \<Rightarrow> string \<Rightarrow> files \<Rightarrow> os_error + body" where
  "open_spooled env p fs =
     (case fails env SysOpen p of
        Some e \<Rightarrow> Inl e
      | None \<Rightarrow> (case map_of fs p of None \<Rightarrow> Inl ErrNotExist | Some f \<Rightarrow> Inr (spooled_body (f_content f))))"

definition retry_path :: "string \<Rightarrow> nat \<Rightarrow> string" where
  "retry_path uploadPath attempt =
     (let base = Base uploadPath; ext = Ext base
      in JoinPath [Dir uploadPath, TrimSuffix base ext @ ''-'' @ itoa (attempt + 2) @ ext])"

text \<open>The attempts from number \<open>attempt\<close> on, \<open>left\<close> of them at most: the error, or the path that
  was uploaded to and the number of the attempt.\<close>

fun commit_attempts ::
  "'w net \<Rightarrow> os_env \<Rightarrow> webdavClient \<Rightarrow> CollisionPolicy \<Rightarrow> FileRef \<Rightarrow> files \<Rightarrow> string \<Rightarrow> nat \<Rightarrow> nat \<Rightarrow> 'w \<Rightarrow>
     (goerror + string \<times> nat) \<times> 'w"
where
  "commit_attempts net env client policy fr fs uploadPath attempt 0 w =
     (Inl (Opaque (''WebDAV upload failed after '' @ itoa maxCommitAttempts @ '' retries'')), w)"
| "commit_attempts net env client policy fr fs uploadPath attempt (Suc left) w =
     (case open_spooled env (fr_path fr) fs of
        Inl e \<Rightarrow> (Inl (Wrapf ''failed to open spooled file for WebDAV upload: '' (os_err e) ''''), w)
      | Inr b \<Rightarrow>
          (case UploadStream net client uploadPath (Some b) (fr_size fr) (policy = CollisionPolicyOverwrite) w of
             ((None, b1), w1) \<Rightarrow> (Inr (uploadPath, attempt), w1)
           | ((Some e, b1), w1) \<Rightarrow>
               if policy = CollisionPolicyRename \<and> attempt < maxCommitAttempts - 1 then
                 commit_attempts net env client policy fr fs (retry_path uploadPath attempt) (Suc attempt) left w1
               else (Inl (Wrapf ''WebDAV upload failed: '' e ''''), w1)))"

definition final_path :: "bridgeClientDriver \<Rightarrow> uploadWriter \<Rightarrow> FileRef \<Rightarrow> string" where
  "final_path s x fr =
     (if su_path (uw_spool x) \<noteq> '''' then su_path (uw_spool x)
      else if fr_targetPath fr \<noteq> '''' then fr_targetPath fr
      else JoinPath [Target_Root (Target (cd_account s)), Base (fr_filename fr)])"

text \<open>The error, or the path the file was committed to and the number of the attempt.\<close>

definition commitToWebDAV ::
  "'w net \<Rightarrow> os_env \<Rightarrow> bridgeClientDriver \<Rightarrow> uploadWriter \<Rightarrow> FileRef \<Rightarrow> BridgeDriver \<Rightarrow> 'w \<Rightarrow>
     (goerror + string \<times> nat) \<times> 'w"
where
  "commitToWebDAV net env s x fr d w =
     (case transferManagerFor (cd_user s) d of
        None \<Rightarrow> (Inl (no_transfer_error (cd_user s)), w)
      | Some tm \<Rightarrow>
          (case EnsureParentDirectories (manager_net net tm d) tm (final_path s x fr) w of
             (Some e, w1) \<Rightarrow> (Inl (Wrapf ''failed to ensure parent directories: '' e ''''), w1)
           | (None, w1) \<Rightarrow>
               commit_attempts (session_net net s d) env (cd_client s) (CollisionPolicy_of (Upload_of (cd_account s))) fr
                 (files (br_spool d)) (final_path s x fr) 0 maxCommitAttempts w1))"

section \<open>Closing\<close>

definition untrack :: "uploadWriter \<Rightarrow> BridgeDriver \<Rightarrow> BridgeDriver" where
  "untrack x d =
     (case map_of (br_sessions d) (uw_session x) of
        None \<Rightarrow> d
      | Some s \<Rightarrow> set_session (uw_session x) (s\<lparr>cd_uploads := adel (uw_id x) (cd_uploads s)\<rparr>) d)"

definition delete_spooled :: "os_env \<Rightarrow> FileRef \<Rightarrow> BridgeDriver \<Rightarrow> BridgeDriver" where
  "delete_spooled env fr d = d\<lparr>br_spool := snd (DeleteByPath env (fr_path fr) (br_spool d))\<rparr>"

text \<open>What happens once the file is in oCIS.\<close>

definition upload_done :: "os_env \<Rightarrow> uploadWriter \<Rightarrow> FileRef \<Rightarrow> BridgeDriver \<Rightarrow> BridgeDriver" where
  "upload_done env x fr d =
     (let d1 = delete_spooled env fr d;
          d2 = d1\<lparr>br_uploadsSuccess := br_uploadsSuccess d1 + 1,
                  br_totalBytes := (if fr_size fr > 0 then br_totalBytes d1 + to_uint64 (fr_size fr) else br_totalBytes d1)\<rparr>
      in untrack x (emit [IncrementUploadsTotal ''success'', AddUploadBytes (to_uint64 (fr_size fr)),
                          ObserveUploadDuration (now env - su_start (uw_spool x)) ''success''] d2))"

text \<open>An upload that is not committed: forgotten by its session and counted as a failure.\<close>

definition upload_failed :: "os_env \<Rightarrow> string \<Rightarrow> uploadWriter \<Rightarrow> BridgeDriver \<Rightarrow> BridgeDriver" where
  "upload_failed env reason x d =
     recordUploadFailure reason (now env - su_start (uw_spool x)) (untrack x d)"

definition close_body ::
  "'w net \<Rightarrow> os_env \<Rightarrow> nat \<Rightarrow> uploadWriter \<Rightarrow> bridgeClientDriver \<Rightarrow> Upload \<Rightarrow> BridgeDriver \<Rightarrow> 'w \<Rightarrow>
     goerror option \<times> BridgeDriver \<times> 'w"
where
  "close_body net env k x s u d w =
     (let ur = Some (su_upload (uw_spool x)) in
      case uw_err x of
        Some e \<Rightarrow>
          (Some e, upload_failed env ''aborted'' x (d\<lparr>br_spool := snd (AbortUpload env ur (br_spool d))\<rparr>), w)
      | None \<Rightarrow>
      if up_received u = up_size u \<or> up_size u \<le> 0 then
        (case FinishUpload env ur (br_spool d) of
           (Inl e, sp) \<Rightarrow> (Some e, upload_failed env ''finish_error'' x (d\<lparr>br_spool := sp\<rparr>), w)
         | (Inr fr, sp) \<Rightarrow>
             (let x1 = x\<lparr>uw_spool := (uw_spool x)\<lparr>su_fileRef := Some fr\<rparr>\<rparr>;
                  d1 = set_writer k x1 (d\<lparr>br_spool := sp\<rparr>) in
              case commitToWebDAV net env s x1 fr d1 w of
                (Inl e, w1) \<Rightarrow> (Some e, upload_failed env ''webdav_error'' x1 (delete_spooled env fr d1), w1)
              | (Inr (p, attempt), w1) \<Rightarrow>
                  (let x2 = (if attempt > 0 then x1\<lparr>uw_spool := (uw_spool x1)\<lparr>su_path := p\<rparr>\<rparr> else x1)
                   in (None, upload_done env x2 fr (set_writer k x2 d1), w1))))
      else
        (case AbortUpload env ur (br_spool d) of
           (e, sp) \<Rightarrow> (e, upload_failed env ''incomplete'' x (d\<lparr>br_spool := sp\<rparr>), w)))"

text \<open>The slot is given back on every path, by \<open>defer\<close>.\<close>

definition writer_Close ::
  "'w net \<Rightarrow> os_env \<Rightarrow> nat \<Rightarrow> BridgeDriver \<Rightarrow> 'w \<Rightarrow> goerror option \<times> BridgeDriver \<times> 'w"
where
  "writer_Close net env k d w =
     (case map_of (br_writers d) k of
        None \<Rightarrow> (Some ErrOperationNotSupported, d, w)
      | Some x \<Rightarrow>
      case map_of (br_sessions d) (uw_session x) of
        None \<Rightarrow> (Some ErrOperationNotSupported, d, w)
      | Some s \<Rightarrow>
      case map_of (uploads (br_spool d)) (su_upload (uw_spool x)) of
        None \<Rightarrow> (Some ErrOperationNotSupported, d, w)
      | Some u \<Rightarrow>
          (case close_body net env k x s u d w of (e, d1, w1) \<Rightarrow> (e, release_slot (cd_account s) d1, w1)))"

section \<open>The virtual file system\<close>

text \<open>A file opened for writing; \<open>uf_writer\<close> refers to its writer.\<close>

record uploadFile =
  uf_writer :: nat
  uf_name :: string
  uf_flag :: int
  uf_pos :: int

text \<open>Bit 0 of the flags is \<open>os.O_WRONLY\<close>, bit 6 \<open>os.O_CREATE\<close>.\<close>

definition OpenFile ::
  "'w net \<Rightarrow> os_env \<Rightarrow> nat \<Rightarrow> string \<Rightarrow> int \<Rightarrow> BridgeDriver \<Rightarrow> 'w \<Rightarrow> (goerror + uploadFile) \<times> BridgeDriver \<times> 'w"
where
  "OpenFile net env r name flag d w =
     (if bit flag 0 \<or> bit flag 6 then
        (case handleUploadOpen net env r name d w of
           (Inl e, d1, w1) \<Rightarrow> (Inl e, d1, w1)
         | (Inr k, d1, w1) \<Rightarrow> (Inr \<lparr>uf_writer = k, uf_name = name, uf_flag = flag, uf_pos = 0\<rparr>, d1, w1))
      else (Inl ErrOperationNotSupported, d, w))"

definition file_Write ::
  "os_env \<Rightarrow> uploadFile \<Rightarrow> string \<Rightarrow> BridgeDriver \<Rightarrow> (int \<times> goerror option) \<times> uploadFile \<times> BridgeDriver"
where
  "file_Write env f p d =
     (case writer_Write env (uf_writer f) p d of
        ((n, e), d1) \<Rightarrow> ((n, e), f\<lparr>uf_pos := uf_pos f + n\<rparr>, d1))"

definition file_Close :: "'w net \<Rightarrow> os_env \<Rightarrow> uploadFile \<Rightarrow> BridgeDriver \<Rightarrow> 'w \<Rightarrow> goerror option \<times> BridgeDriver \<times> 'w" where
  "file_Close net env f d w = writer_Close net env (uf_writer f) d w"

text \<open>Name, size, mode and whether it is a directory.\<close>

record file_info =
  in_name :: string
  in_size :: int
  in_mode :: nat
  in_dir :: bool

definition file_Stat :: "uploadFile \<Rightarrow> file_info" where
  "file_Stat f = \<lparr>in_name = uf_name f, in_size = uf_pos f, in_mode = 420, in_dir = False\<rparr>"

text \<open>Every path is a directory.\<close>

definition Stat :: "string \<Rightarrow> file_info" where
  "Stat name =
     (let cleanPath = Clean name;
          cleanPath = (if cleanPath = ''.'' \<or> cleanPath = ''/'' then ''/'' else cleanPath)
      in \<lparr>in_name = cleanPath, in_size = 0, in_mode = 493, in_dir = True\<rparr>)"

text \<open>The operations that are refused or do nothing, on an open file and on the file system.\<close>

datatype file_op = FRead | FReadAt | FWriteAt | FSeek | FReaddir | FReaddirnames | FSync | FTruncate

definition file_op_error :: "file_op \<Rightarrow> goerror option" where
  "file_op_error c = Some ErrOperationNotSupported"

datatype fs_op = FsCreate | FsMkdir | FsMkdirAll | FsOpen | FsRemove | FsRemoveAll | FsRename | FsChmod | FsChown | FsChtimes

fun fs_op_error :: "fs_op \<Rightarrow> goerror option" where
  "fs_op_error FsCreate = Some ErrOperationNotSupported"
| "fs_op_error FsMkdir = None"
| "fs_op_error FsMkdirAll = None"
| "fs_op_error FsOpen = Some ErrOperationNotSupported"
| "fs_op_error FsRemove = Some ErrNotImplemented"
| "fs_op_error FsRemoveAll = Some ErrNotImplemented"
| "fs_op_error FsRename = Some ErrNotImplemented"
| "fs_op_error FsChmod = Some ErrNotImplemented"
| "fs_op_error FsChown = Some ErrNotImplemented"
| "fs_op_error FsChtimes = Some ErrNotImplemented"

end
