(* ===== verification/BridgeSteps.thy ===== *)
theory BridgeSteps
  imports BridgeUploads TransfersProps
begin

text \<open>
  The driver as a transition system: one step is one call of the FTP library, one part of a login
  or one tick of the janitor, with any environment and any fate of the network. This is the grain
  of the model: the code holds no lock over a whole open or close, which make their requests in
  between, and the states halfway (a slot taken for an upload that is not yet in the table, an upload
  taken out of the table whose slot is not yet given back) are not states here. \<open>bridge_inv\<close> ties
  the stores of the driver together, and every reachable state satisfies it.
\<close>

section \<open>Steps\<close>

text \<open>
  A configuration is the driver, the logins between their two parts, and the outside world. The FTP
  library opens files with clean absolute paths, and closes an open file once; it does not open a
  file in a session that has opened \<open>2 ^ 64 - 1\<close> files before.
\<close>

type_synonym login = "conn_id \<times> string \<times> string \<times> string"

definition tracked :: "nat \<Rightarrow> BridgeDriver \<Rightarrow> bool" where
  "tracked k d \<longleftrightarrow> (\<exists>x s. map_of (br_writers d) k = Some x \<and> map_of (br_sessions d) (uw_session x) = Some s
     \<and> map_of (cd_uploads s) (uw_id x) = Some k)"

definition may_open :: "nat \<Rightarrow> BridgeDriver \<Rightarrow> bool" where
  "may_open r d \<longleftrightarrow> (\<exists>s. map_of (br_sessions d) r = Some s \<and> cd_counter s \<noteq> - 1)"

inductive bstep ::
  "id_key \<Rightarrow> 'w sdk \<Rightarrow> 'w net \<Rightarrow> BridgeDriver \<times> login list \<times> 'w \<Rightarrow> BridgeDriver \<times> login list \<times> 'w \<Rightarrow> bool"
  for IDKey :: id_key and sdk :: "'w sdk" and net :: "'w net"
where
  Connect: "ClientConnected c addr d = (r, d') \<Longrightarrow> bstep IDKey sdk net (d, ls, w) (d', ls, w)"
| Disconnect: "bstep IDKey sdk net (d, ls, w) (ClientDisconnected c addr d, ls, w)"
| Refuse: "auth_enter t addr d = (Some e, d') \<Longrightarrow> bstep IDKey sdk net (d, ls, w) (d', ls, w)"
| Enter: "auth_enter t addr d = (None, d') \<Longrightarrow> bstep IDKey sdk net (d, ls, w) (d', (c, addr, user, pw) # ls, w)"
| Finish: "(c, addr, user, pw) \<in> set ls \<Longrightarrow> auth_finish IDKey sdk t t' c addr user pw d w = (r, d', w') \<Longrightarrow>
     bstep IDKey sdk net (d, ls, w) (d', remove1 (c, addr, user, pw) ls, w')"
| Open: "may_open r d \<Longrightarrow> IsAbs path \<Longrightarrow> Clean path = path \<Longrightarrow>
     handleUploadOpen net env r path d w = (k, d', w') \<Longrightarrow> bstep IDKey sdk net (d, ls, w) (d', ls, w')"
| Write: "writer_Write env k p d = (n, d') \<Longrightarrow> bstep IDKey sdk net (d, ls, w) (d', ls, w)"
| Close: "tracked k d \<Longrightarrow> writer_Close net env k d w = (e, d', w') \<Longrightarrow> bstep IDKey sdk net (d, ls, w) (d', ls, w')"
| Tick: "bstep IDKey sdk net (d, ls, w) (janitor_tick t d, ls, w)"
| Stop: "bstep IDKey sdk net (d, ls, w) (Shutdown d, ls, w)"

inductive_cases bstepE: "bstep IDKey sdk net (d, ls, w) (d', ls', w')"

section \<open>What the operations leave alone\<close>

lemma emit_sel [simp]:
  "br_cfg (emit ms d) = br_cfg d" "br_spool (emit ms d) = br_spool d" "br_transfers (emit ms d) = br_transfers d"
  "br_active (emit ms d) = br_active d" "br_maxConnections (emit ms d) = br_maxConnections d"
  "br_accounts (emit ms d) = br_accounts d" "br_clients (emit ms d) = br_clients d" "br_allowed (emit ms d) = br_allowed d"
  "br_connTracker (emit ms d) = br_connTracker d" "br_authTracker (emit ms d) = br_authTracker d"
  "br_authSem (emit ms d) = br_authSem d" "br_slots (emit ms d) = br_slots d" "br_ctx (emit ms d) = br_ctx d"
  "br_shutdown (emit ms d) = br_shutdown d" "br_sessions (emit ms d) = br_sessions d" "br_writers (emit ms d) = br_writers d"
  "br_driveCache (emit ms d) = br_driveCache d" "br_uploadsSuccess (emit ms d) = br_uploadsSuccess d"
  "br_uploadsFailed (emit ms d) = br_uploadsFailed d" "br_totalBytes (emit ms d) = br_totalBytes d"
  by (simp_all add: emit_def)

lemma fresh_ref_new: "map_of m (fresh_ref m) = None"
proof (cases "m = []")
  case False
  have "fresh_ref m \<notin> set (akeys m)"
  proof
    assume "fresh_ref m \<in> set (akeys m)"
    then have "fresh_ref m \<le> Max (set (akeys m))" by simp
    with False show False by (simp add: fresh_ref_def)
  qed
  then show ?thesis by (simp add: map_of_None_akeys)
qed simp

lemma fresh_ref_neq: "map_of m k = Some x \<Longrightarrow> k \<noteq> fresh_ref m"
  using fresh_ref_new [of m] by auto

definition same_core :: "BridgeDriver \<Rightarrow> BridgeDriver \<Rightarrow> bool" where
  "same_core d d' \<longleftrightarrow> br_transfers d' = br_transfers d \<and> br_sessions d' = br_sessions d \<and> br_writers d' = br_writers d
     \<and> br_accounts d' = br_accounts d \<and> br_ctx d' = br_ctx d \<and> br_slots d' = br_slots d \<and> br_cfg d' = br_cfg d"

lemma same_core_refl: "same_core d d"
  by (simp add: same_core_def)

lemma same_core_connect: "ClientConnected c addr d = (r, d') \<Longrightarrow> same_core d d'"
  by (auto simp: ClientConnected_def same_core_def Let_def split: prod.splits bool.splits)

lemma cancel_session_sel [simp]:
  "br_transfers (cancel_session r d) = br_transfers d" "br_sessions (cancel_session r d) = br_sessions d"
  "br_writers (cancel_session r d) = br_writers d" "br_accounts (cancel_session r d) = br_accounts d"
  "br_ctx (cancel_session r d) = br_ctx d" "br_slots (cancel_session r d) = br_slots d"
  "br_cfg (cancel_session r d) = br_cfg d" "br_active (cancel_session r d) = br_active d"
  "br_allowed (cancel_session r d) = br_allowed d" "br_connTracker (cancel_session r d) = br_connTracker d"
  "br_clients (cancel_session r d) = br_clients d" "br_authSem (cancel_session r d) = br_authSem d"
  "br_authTracker (cancel_session r d) = br_authTracker d" "br_shutdown (cancel_session r d) = br_shutdown d"
  "br_maxConnections (cancel_session r d) = br_maxConnections d"
  by (auto simp: cancel_session_def split: option.split)

lemma same_core_disconnect: "same_core d (ClientDisconnected c addr d)"
  by (auto simp: ClientDisconnected_def same_core_def Let_def)

lemma lockout_check_core: "lockout_check t ip d = (l, d') \<Longrightarrow> same_core d d' \<and> br_authSem d' = br_authSem d
    \<and> br_spool d' = br_spool d \<and> br_active d' = br_active d \<and> br_maxConnections d' = br_maxConnections d"
  by (auto simp: lockout_check_def same_core_def split: option.splits prod.splits)

lemma same_core_enter: "auth_enter t addr d = (e, d') \<Longrightarrow> same_core d d'"
  by (auto simp: auth_enter_def Let_def same_core_refl same_core_def
      dest!: lockout_check_core split: if_splits prod.splits bool.splits)

lemma same_core_tick: "same_core d (janitor_tick t d)"
  by (simp add: janitor_tick_def same_core_def)

lemma same_core_stop: "same_core d (Shutdown d)"
  by (simp add: Shutdown_def same_core_def)

lemma record_attempt_sel [simp]:
  "br_transfers (record_attempt t ip b d) = br_transfers d" "br_sessions (record_attempt t ip b d) = br_sessions d"
  "br_writers (record_attempt t ip b d) = br_writers d" "br_accounts (record_attempt t ip b d) = br_accounts d"
  "br_ctx (record_attempt t ip b d) = br_ctx d" "br_slots (record_attempt t ip b d) = br_slots d"
  "br_cfg (record_attempt t ip b d) = br_cfg d" "br_spool (record_attempt t ip b d) = br_spool d"
  "br_authSem (record_attempt t ip b d) = br_authSem d" "br_active (record_attempt t ip b d) = br_active d"
  "br_clients (record_attempt t ip b d) = br_clients d" "br_shutdown (record_attempt t ip b d) = br_shutdown d"
  by (simp_all add: record_attempt_def)

lemma auth_leave_sel [simp]:
  "br_transfers (auth_leave d) = br_transfers d" "br_sessions (auth_leave d) = br_sessions d"
  "br_writers (auth_leave d) = br_writers d" "br_accounts (auth_leave d) = br_accounts d"
  "br_ctx (auth_leave d) = br_ctx d" "br_slots (auth_leave d) = br_slots d" "br_cfg (auth_leave d) = br_cfg d"
  "br_spool (auth_leave d) = br_spool d" "br_clients (auth_leave d) = br_clients d"
  by (simp_all add: auth_leave_def)

section \<open>A login makes one session\<close>

lemma authenticateUser_Inr:
  assumes "authenticateUser IDKey user pw accounts = Inr a"
  shows "map_of accounts user = Some a \<and> PasswordHash a \<noteq> '''' \<and> VerifyPassword IDKey (PasswordHash a) pw = Inr True"
proof (cases "map_of accounts user")
  case None
  then show ?thesis using assms
    by (auto simp: authenticateUser_def split: sum.splits)
next
  case (Some b)
  then show ?thesis using assms by (auto simp: authenticateUser_def split: sum.splits if_splits)
qed

definition session_of :: "AccountConfig \<Rightarrow> Drive \<Rightarrow> string \<Rightarrow> string \<Rightarrow> ctx \<Rightarrow> bridgeClientDriver" where
  "session_of a drive user base ctx =
     \<lparr>cd_account = a, cd_drive = drive, cd_user = user,
      cd_client = NewWebDAVClient base (OCIS_Username (OCIS a)) (AppToken a), cd_uploads = [], cd_counter = 0, cd_ctx = ctx\<rparr>"

definition upload_base :: "Drive \<Rightarrow> BridgeDriver \<Rightarrow> string" where
  "upload_base drive d = (if dr_webDAVURL drive = '''' then WebDAVURL (OCIS_of (br_cfg d)) else dr_webDAVURL drive)"

lemma auth_body_cases:
  assumes "auth_body IDKey sdk t t' c addr user pw d w = (r, d', w')"
  obtains (failed) e where "r = Inl e" and "same_core d d'" and "br_spool d' = br_spool d" and "br_clients d' = br_clients d"
      and "br_authSem d' = br_authSem d"
  | (ok) a drive cache ctx cs where "r = Inr (fresh_ref (br_sessions d))"
      and "authenticateUser IDKey user pw (br_accounts d) = Inr a"
      and "OCIS_Username (OCIS a) \<noteq> ''''" and "AppToken a \<noteq> ''''"
      and "resolveDriveForAccount sdk (GraphURL (OCIS_of (br_cfg d))) t t' a (br_driveCache d) w = (Inr drive, cache, w')"
      and "with_cancel (br_ctx d) (ctxs (br_spool d)) = (ctx, cs)"
      and "br_sessions d' = aput (fresh_ref (br_sessions d)) (session_of a drive user (upload_base drive d) ctx) (br_sessions d)"
      and "br_clients d' = aput c (fresh_ref (br_sessions d)) (br_clients d)"
      and "br_spool d' = (br_spool d)\<lparr>ctxs := cs\<rparr>" and "br_transfers d' = br_transfers d"
      and "br_writers d' = br_writers d" and "br_accounts d' = br_accounts d" and "br_ctx d' = br_ctx d"
      and "br_slots d' = br_slots d" and "br_cfg d' = br_cfg d" and "br_authSem d' = br_authSem d"
proof (cases "authenticateUser IDKey user pw (br_accounts d)")
  case (Inl e)
  then show ?thesis using assms failed by (auto simp: auth_body_def same_core_def)
next
  case (Inr a)
  show ?thesis
  proof (cases "OCIS_Username (OCIS a) = '''' \<or> AppToken a = ''''")
    case True
    then show ?thesis using assms failed Inr by (auto simp: auth_body_def same_core_def)
  next
    case False
    obtain x cache w1 where x: "resolveDriveForAccount sdk (GraphURL (OCIS_of (br_cfg d))) t t' a (br_driveCache d) w = (x, cache, w1)"
      by (cases "resolveDriveForAccount sdk (GraphURL (OCIS_of (br_cfg d))) t t' a (br_driveCache d) w")
    show ?thesis
    proof (cases x)
      case (Inl e)
      then show ?thesis using assms failed Inr False x by (auto simp: auth_body_def same_core_def)
    next
      case drive: (Inr drive)
      obtain ctx cs where cs: "with_cancel (br_ctx d) (ctxs (br_spool d)) = (ctx, cs)"
        by (cases "with_cancel (br_ctx d) (ctxs (br_spool d))")
      show ?thesis
        by (rule ok [OF _ Inr _ _ _ cs])
          (use assms Inr False x drive cs in \<open>auto simp: auth_body_def new_session_def Let_def session_of_def upload_base_def\<close>)
    qed
  qed
qed

end
