(* ===== verification/UploadTargets.thy ===== *)
theory UploadTargets
  imports BridgeUploads TransfersProps
begin

text \<open>
  Where an upload goes: the path the driver computes for a clean absolute FTP path is clean and
  strictly below the root of the account, and so are the paths of the retries of a commit.
\<close>

section \<open>Paths strictly below a root\<close>

definition inside :: "string \<Rightarrow> string \<Rightarrow> bool" where
  "inside root p \<longleftrightarrow> IsAbs p \<and> Clean p = p \<and> strict_prefix (clean_comps root) (clean_comps p)"

lemma inside_below: "inside root p \<Longrightarrow> below root p"
  by (auto simp: inside_def below_def)

lemma Ext_no_slash: "CHR ''/'' \<notin> set c \<Longrightarrow> CHR ''/'' \<notin> set (Ext c)"
proof -
  assume c: "CHR ''/'' \<notin> set c"
  then obtain zs where "c = zs @ Ext c" using Ext_suffix [of c] by (auto simp: suffix_def)
  then have "set (Ext c) \<subseteq> set c" by (metis Un_upper2 set_append)
  with c show ?thesis by blast
qed

lemma proper_dash: "CHR ''-'' \<in> set c \<Longrightarrow> CHR ''/'' \<notin> set c \<Longrightarrow> proper c"
  by (auto simp: proper_def)

lemma proper_not_parent: "proper c \<Longrightarrow> ''..'' \<notin> set [c]"
  by (auto simp: proper_def)

text \<open>A retry of the commit goes to a sibling.\<close>

lemma inside_retry:
  assumes "inside root p"
  shows "inside root (retry_path p n)"
proof -
  define ds where "ds = butlast (clean_comps p)"
  define c where "c = last (clean_comps p)"
  have p: "IsAbs p" "Clean p = p" "strict_prefix (clean_comps root) (clean_comps p)"
    using assms by (auto simp: inside_def)
  have ne: "clean_comps p \<noteq> []" using p(3) by auto
  have cs: "clean_comps p = ds @ [c]" using ne by (simp add: ds_def c_def)
  have pr: "proper x" if "x \<in> set (ds @ [c])" for x using clean_comps_proper [OF p(1), of x] that cs by simp
  have r: "p = render True (ds @ [c])" using Clean_abs [OF p(1)] p(2) cs by simp
  have b: "Base p = c" "Dir p = render True ds" unfolding r using Base_render [OF pr] Dir_render [OF pr] by auto
  let ?c = "TrimSuffix c (Ext c) @ ''-'' @ itoa (n + 2) @ Ext c"
  have cn: "CHR ''/'' \<notin> set c" using pr [of c] by (simp add: proper_def)
  have tn: "CHR ''/'' \<notin> set (TrimSuffix c (Ext c))"
    using cn by (auto simp: TrimSuffix_def dest: in_set_takeD)
  have mem: "CHR ''-'' \<in> set ?c" by simp
  have sl: "CHR ''/'' \<notin> set ?c" using tn Ext_no_slash [OF cn] itoa_no_slash [of "n + 2"] by simp
  have c': "proper ?c" by (rule proper_dash [OF mem sl])
  have one: "Split (CHR ''/'') ?c = [?c]" by (rule Split_no_sep [OF sl])
  have nd: "''..'' \<notin> set (Split (CHR ''/'') ?c)" unfolding one by (rule proper_not_parent [OF c'])
  have q: "clean_comps (JoinPath [render True ds, ?c]) = ds @ [?c]"
    unfolding clean_comps_JoinPath [OF IsAbs_render nd] one
    using clean_comps_render [of ds] pr proper_nonempty [OF c'] by auto
  have rp: "retry_path p n = JoinPath [render True ds, ?c]" by (simp add: retry_path_def b Let_def)
  have pre: "prefix (clean_comps root) ds" using p(3) cs by (auto simp: strict_prefix_def prefix_snoc)
  then have "strict_prefix (clean_comps root) (ds @ [?c])" by (auto simp: strict_prefix_def prefix_def)
  then show ?thesis
    unfolding inside_def rp q by (simp add: JoinPath_abs JoinPath_Clean)
qed

section \<open>Names of the rename policy\<close>

lemma digits_no_slash: "CHR ''/'' \<notin> set (pad2 n)" "CHR ''/'' \<notin> set (pad4 n)"
  using itoa_no_slash by (auto simp: pad2_def pad4_def Let_def)

lemma format_compact_no_slash: "CHR ''/'' \<notin> set (format_compact t)"
  using digits_no_slash by (auto simp: format_compact_def Let_def split: prod.split)

lemma candidate_no_slash:
  assumes "candidate_name p base ts ext k tm = (n, tm')" and "CHR ''/'' \<notin> set base" "CHR ''/'' \<notin> set ts" "CHR ''/'' \<notin> set ext"
  shows "CHR ''/'' \<notin> set n \<and> CHR ''-'' \<in> set n"
  using assms itoa_no_slash by (auto simp: candidate_name_def split: if_splits prod.splits)

lemma unique_loop_proper:
  "unique_loop net p f base ts ext k left tm w = (Inr n, tm', w') \<Longrightarrow>
     CHR ''/'' \<notin> set base \<Longrightarrow> CHR ''/'' \<notin> set ts \<Longrightarrow> CHR ''/'' \<notin> set ext \<Longrightarrow> proper n"
proof (induction left arbitrary: k tm w)
  case (Suc left)
  obtain n1 tm1 where c: "candidate_name p base ts ext k tm = (n1, tm1)" by (cases "candidate_name p base ts ext k tm")
  have "proper n1" using candidate_no_slash [OF c Suc.prems(2-4)] proper_dash by blast
  then show ?case using Suc c by (auto split: prod.splits sum.splits bool.splits)
qed simp

text \<open>The final name of a proper one is proper.\<close>

lemma ResolveCollision_proper:
  assumes r: "ResolveCollision net clock b f pol tm w = (Inr n, tm', w')" and f: "proper f"
  shows "proper n"
proof -
  have s: "CHR ''/'' \<notin> set f" using f by (simp add: proper_def)
  have t: "CHR ''/'' \<notin> set (TrimSuffix f (Ext f))" using s by (auto simp: TrimSuffix_def dest: in_set_takeD)
  note u = unique_loop_proper [OF _ t format_compact_no_slash Ext_no_slash [OF s]]
  show ?thesis
    using r f by (auto simp: ResolveCollision_def GenerateUniqueFilename_def Let_def dest: u
      split: if_splits option.splits prod.splits sum.splits bool.splits)
qed

section \<open>Sanitised names\<close>

lemma sanitize_not_dot:
  assumes "sanitizeFilename f = Inr s" and "proper f"
  shows "proper s"
proof -
  have S: "s \<noteq> ''''" "CHR ''/'' \<notin> set s" "s \<noteq> ''..''" using sanitizeFilename_Inr [OF assms(1)] by auto
  have B: "Base f = f" using assms(2) no_slash_Base by (simp add: proper_def)
  let ?r = "WriteRunes (map safe_rune (range_runes f))"
  have s: "s = (if ?r = '''' then ''unnamed'' else ?r)"
    using assms(1) by (auto simp: sanitizeFilename_def Let_def B split: if_splits)
  have "s \<noteq> ''.''"
  proof
    assume dot: "s = ''.''"
    then have e: "?r = ''.''" using s by (auto split: if_splits)
    then have m: "map safe_rune (range_runes f) = [46]"
      using WriteRunes_eq_ascii [of "map safe_rune (range_runes f)"] by (simp add: str_bytes_def)
    have "safe_rune r = 46 \<Longrightarrow> r = 46" for r by (simp add: safe_rune_def split: if_splits)
    with m have "range_runes f = [46]" by (auto simp: map_eq_Cons_conv)
    then have "str_bytes f = [46]" using range_runes_all_ascii [of f] by auto
    then have "bytes_str (str_bytes f) = bytes_str [46]" by simp
    moreover have "bytes_str [46] = ''.''" by code_simp
    ultimately have "f = ''.''" unfolding bytes_str_bytes by simp
    with assms(2) show False by (simp add: proper_def)
  qed
  with S show ?thesis by (simp add: proper_def)
qed

section \<open>Targets of accepted uploads\<close>

lemma CalculateTargetPath_clean:
  assumes c: "CalculateTargetPath u path f tm = Inr t" and f: "f \<noteq> ''''" and g: "GetTarget u tm = Some cfg" and root: "IsAbs (tc_root cfg)"
  shows "Clean t = t"
proof -
  have "\<exists>p safe. IsAbs p \<and> t = JoinPath [p, safe]"
    using c f JoinPath_abs [OF root] root
    by (auto simp: CalculateTargetPath_def g split: sum.splits if_splits option.splits)
  then show ?thesis using JoinPath_Clean by auto
qed

lemma ProcessUpload_inside:
  assumes g: "GetTarget (tr_userID req) tm = Some cfg" and root: "IsAbs (tc_root cfg)" and f: "proper (tr_filename req)"
    and p: "ProcessUpload net clock req tm w = (res, tm', w')" and ok: "ts_success res"
  shows "inside (tc_root cfg) (ts_targetPath res)"
proof -
  have fne: "tr_filename req \<noteq> ''''" using f by (simp add: proper_def)
  obtain basePath where b: "CalculateTargetPath (tr_userID req) (tr_path req) '''' tm = Inr basePath"
    using p ok by (cases "CalculateTargetPath (tr_userID req) (tr_path req) '''' tm")
      (auto simp: ProcessUpload_def failed_result_def g)
  obtain r tm1 w1 where rc: "ResolveCollision net clock basePath (tr_filename req) (tc_policy cfg) tm w = (r, tm1, w1)"
    by (metis prod.collapse)
  obtain fin where fin: "r = Inr fin" using p ok by (cases r) (auto simp: ProcessUpload_def failed_result_def g b fne rc)
  obtain fp where fp: "CalculateTargetPath (tr_userID req) (tr_path req) fin tm1 = Inr fp"
    using p ok by (cases "CalculateTargetPath (tr_userID req) (tr_path req) fin tm1")
      (auto simp: ProcessUpload_def failed_result_def g b rc fin fne)
  have res: "ts_targetPath res = fp"
    using p ok by (auto simp: ProcessUpload_def failed_result_def g b rc fin fp fne split: prod.splits option.splits)
  have pf: "proper fin" by (rule ResolveCollision_proper [OF rc [unfolded fin] f])
  then have finne: "fin \<noteq> ''''" by (simp add: proper_def)
  have g1: "GetTarget (tr_userID req) tm1 = Some cfg" using g ResolveCollision_keeps [OF rc] by (simp add: GetTarget_def)
  from CalculateTargetPath_cases [OF g1 root, of "tr_path req" fin] fp finne obtain np safe
    where s: "sanitizeFilename fin = Inr safe" "IsAbs fp" "clean_comps fp = target_comps (tc_root cfg) np safe" by auto
  have "proper safe" by (rule sanitize_not_dot [OF s(1) pf])
  then have "strict_prefix (clean_comps (tc_root cfg)) (clean_comps fp)"
    unfolding s(3) target_comps_def using proper_nonempty by (auto simp: strict_prefix_def)
  then show ?thesis
    using s(2) CalculateTargetPath_clean [OF fp finne g1 root] by (simp add: inside_def res)
qed

text \<open>A clean absolute path is the root, or ends in a proper component.\<close>

lemma Base_clean_abs:
  assumes "IsAbs path" and "Clean path = path"
  shows "Base path = ''/'' \<or> proper (Base path)"
proof (cases "clean_comps path = []")
  case True
  then have "path = render True []" using Clean_abs [OF assms(1)] assms(2) by simp
  then have "path = ''/''" by (simp add: render_def)
  then show ?thesis by (simp add: Base_def TrimRight_def)
next
  case False
  then obtain cs c where cs: "clean_comps path = cs @ [c]" by (meson rev_exhaust)
  have pr: "proper x" if "x \<in> set (cs @ [c])" for x
    using clean_comps_proper [OF assms(1), of x] that unfolding cs by simp
  have "path = render True (cs @ [c])" using Clean_abs [OF assms(1)] assms(2) unfolding cs by simp
  then have "Base path = c" using Base_render [of cs c] pr by simp
  with pr show ?thesis by simp
qed

text \<open>The root itself is never accepted as the name of a file: what starts with a slash is not.\<close>

lemma slash_names:
  "unique_loop net p f (CHR ''/'' # b) ts ext k left tm w = (Inr n, tm', w') \<Longrightarrow> HasPrefix n ''/''"
proof (induction left arbitrary: k tm w)
  case (Suc left)
  obtain n1 tm1 where c: "candidate_name p (CHR ''/'' # b) ts ext k tm = (n1, tm1)"
    by (cases "candidate_name p (CHR ''/'' # b) ts ext k tm")
  have "HasPrefix n1 ''/''" using c by (auto simp: candidate_name_def split: if_splits prod.splits)
  then show ?case using Suc c by (auto split: prod.splits sum.splits bool.splits)
qed simp

lemma slash_refused: "HasPrefix f ''/'' \<Longrightarrow> sanitizeFilename f \<noteq> Inr s"
  by (auto simp: sanitizeFilename_def rooted_or_drive_def)

lemma slash_resolved:
  assumes "ResolveCollision net clock b ''/'' pol tm w = (Inr n, tm', w')"
  shows "HasPrefix n ''/''"
proof -
  have E: "Ext ''/'' = ''''" "TrimSuffix ''/'' '''' = ''/''" by (simp_all add: Ext_def Let_def TrimSuffix_def)
  show ?thesis
    using assms by (auto simp: ResolveCollision_def GenerateUniqueFilename_def Let_def E dest: slash_names
      split: if_splits option.splits prod.splits sum.splits bool.splits)
qed

lemma slash_name_refused:
  assumes "tr_filename req = ''/''" and "ProcessUpload net clock req tm w = (res, tm', w')" and "GetTarget (tr_userID req) tm = Some cfg"
  shows "\<not> ts_success res"
proof
  assume ok: "ts_success res"
  obtain basePath where b: "CalculateTargetPath (tr_userID req) (tr_path req) '''' tm = Inr basePath"
    using assms ok by (cases "CalculateTargetPath (tr_userID req) (tr_path req) '''' tm")
      (auto simp: ProcessUpload_def failed_result_def)
  obtain r tm1 w1 where rc: "ResolveCollision net clock basePath ''/'' (tc_policy cfg) tm w = (r, tm1, w1)"
    by (metis prod.collapse)
  obtain fin where fin: "r = Inr fin" using assms ok by (cases r) (auto simp: ProcessUpload_def failed_result_def b rc)
  have pre: "HasPrefix fin ''/''" by (rule slash_resolved [OF rc [unfolded fin]])
  then have "fin \<noteq> ''''" by auto
  with slash_refused [OF pre] have "CalculateTargetPath (tr_userID req) (tr_path req) fin tm1 \<noteq> Inr t" for t
    by (auto simp: CalculateTargetPath_def split: sum.splits if_splits option.splits)
  then show False using assms ok
    by (cases "CalculateTargetPath (tr_userID req) (tr_path req) fin tm1")
      (auto simp: ProcessUpload_def failed_result_def b rc fin)
qed

end
