(* ===== verification/BridgeInv.thy ===== *)
theory BridgeInv
  imports BridgeSteps UploadTargets
begin

text \<open>
  The invariant of the driver and its proof, operation by operation: every session belongs to an
  account of the configuration, every writer to a session, an upload of the spool and a path
  strictly below the root of the account, contexts are nested, and the upload slots in use of a
  capped account are the open uploads of its sessions.
\<close>

section \<open>The spool under the driver\<close>

definition refs_ok :: "spool \<Rightarrow> bool" where
  "refs_ok sp \<longleftrightarrow> (\<forall>r u. map_of (uploads sp) r = Some u \<longrightarrow> r < next_ref sp \<and> (\<exists>d n. up_temp u = temp_path d n))"

text \<open>Uploads keep their context and their declared size, contexts that are done stay done.\<close>

definition same_upload :: "Upload \<Rightarrow> Upload \<Rightarrow> bool" where
  "same_upload u u' \<longleftrightarrow> up_ctx u' = up_ctx u \<and> up_size u' = up_size u \<and> up_temp u' = up_temp u"

definition grows :: "spool \<Rightarrow> spool \<Rightarrow> bool" where
  "grows sp sp' \<longleftrightarrow> refs_ok sp'
     \<and> (\<forall>r u. map_of (uploads sp) r = Some u \<longrightarrow> (\<exists>u'. map_of (uploads sp') r = Some u' \<and> same_upload u u'))
     \<and> (\<forall>c. ctx_done (ctxs sp) c \<longrightarrow> ctx_done (ctxs sp') c)"

lemma grows_refl: "refs_ok sp \<Longrightarrow> grows sp sp"
  by (simp add: grows_def same_upload_def)

lemma same_upload_trans: "same_upload a b \<Longrightarrow> same_upload b c \<Longrightarrow> same_upload a c"
  by (simp add: same_upload_def)

lemma grows_trans: "grows a b \<Longrightarrow> grows b c \<Longrightarrow> grows a c"
  unfolding grows_def using same_upload_trans by meson

lemma grows_upload: "grows sp sp' \<Longrightarrow> map_of (uploads sp) r = Some u \<Longrightarrow>
    \<exists>u'. map_of (uploads sp') r = Some u' \<and> same_upload u u'"
  by (simp add: grows_def)

lemma grows_done: "grows sp sp' \<Longrightarrow> ctx_done (ctxs sp) c \<Longrightarrow> ctx_done (ctxs sp') c"
  by (simp add: grows_def)

lemma grows_same:
  "refs_ok sp \<Longrightarrow> uploads sp' = uploads sp \<Longrightarrow> next_ref sp' = next_ref sp \<Longrightarrow>
     (\<And>c. ctx_done (ctxs sp) c \<Longrightarrow> ctx_done (ctxs sp') c) \<Longrightarrow> grows sp sp'"
  by (simp add: grows_def refs_ok_def same_upload_def)

lemma grows_set:
  "uploads sp' = aput r u' (uploads sp) \<Longrightarrow> refs_ok sp \<Longrightarrow> map_of (uploads sp) r = Some u \<Longrightarrow> same_upload u u' \<Longrightarrow>
     next_ref sp' = next_ref sp \<Longrightarrow> (\<And>c. ctx_done (ctxs sp) c \<Longrightarrow> ctx_done (ctxs sp') c) \<Longrightarrow> grows sp sp'"
  by (auto simp: grows_def refs_ok_def same_upload_def)

text \<open>Ending an upload: closed, perhaps released, its files and contexts changed.\<close>

lemma grows_end:
  assumes "refs_ok sp" and "map_of (uploads sp) r = Some u"
    and "\<And>c. ctx_done (ctxs sp) c \<Longrightarrow> ctx_done cs c"
  shows "grows sp ((set_upload r (u\<lparr>up_open := False\<rparr>) sp)\<lparr>files := fs, ctxs := cs\<rparr>)"
    and "grows sp (releaseUploadBytes i n ((set_upload r (u\<lparr>up_open := False\<rparr>) sp)\<lparr>files := fs, ctxs := cs\<rparr>))"
  using assms by (auto simp: grows_def refs_ok_def same_upload_def)

lemma grows_Start:
  assumes "refs_ok sp" and "StartUpload env parent user name target sz mx sp = (x, sp')"
  shows "grows sp sp' \<and> (\<forall>r. x = Inr r \<longrightarrow> (\<exists>u t. map_of (uploads sp') r = Some u \<and> up_ctx u = t # parent \<and> up_size u = (if sz < 0 then 0 else sz)))"
proof (cases x)
  case (Inl e)
  with StartUpload_Inl assms have sp': "sp' = sp\<lparr>files := files sp'\<rparr>" by blast
  have "uploads sp' = uploads sp" "next_ref sp' = next_ref sp" "ctxs sp' = ctxs sp" by (subst sp', simp)+
  then show ?thesis using grows_same [OF assms(1)] Inl by simp
next
  case (Inr r)
  from assms(2) [unfolded Inr] show ?thesis
  proof (rule StartUpload_Inr, goal_cases)
    case (1 dir tmp fs1 fs2 u)
    obtain n where n: "tmp = temp_path (user_dir dir user) n" using CreateTemp_name [OF 1(4)] by blast
    have "refs_ok sp'" unfolding refs_ok_def
    proof (intro allI impI)
      fix q v assume q: "map_of (uploads sp') q = Some v"
      show "q < next_ref sp' \<and> (\<exists>d m. up_temp v = temp_path d m)"
      proof (cases "q = next_ref sp")
        case True
        then have "up_temp v = temp_path (user_dir dir user) n" using q 1 n by auto
        then show ?thesis using True 1 by auto
      next
        case False
        then have "map_of (uploads sp) q = Some v" using q 1 by simp
        then have "q < next_ref sp" "\<exists>d m. up_temp v = temp_path d m" using assms(1) unfolding refs_ok_def by blast+
        then show ?thesis using 1 by simp
      qed
    qed
    moreover have "\<exists>u'. map_of (uploads sp') q = Some u' \<and> same_upload v u'" if "map_of (uploads sp) q = Some v" for q v
      using that assms(1) 1 by (auto simp: refs_ok_def same_upload_def)
    ultimately have "grows sp sp'" using 1 by (simp add: grows_def ctx_done_def)
    then show ?case using 1 Inr by simp
  qed
qed

lemma grows_Chunk:
  assumes "refs_ok sp" and "WriteChunk env u p sp = ((n, e), sp')"
  shows "grows sp sp'"
proof (cases e)
  case (Some x)
  with WriteChunk_err assms(2) have sp': "sp' = sp\<lparr>files := files sp'\<rparr>" by blast
  have "uploads sp' = uploads sp" "next_ref sp' = next_ref sp" "ctxs sp' = ctxs sp" by (subst sp', simp)+
  then show ?thesis using grows_same [OF assms(1)] by simp
next
  case None
  from assms(2) [unfolded None] show ?thesis
  proof (rule WriteChunk_ok, goal_cases)
    case (1 r v)
    then show ?case using assms(1) by (auto simp: grows_def refs_ok_def same_upload_def)
  qed
qed

lemma grows_Finish:
  assumes "refs_ok sp" and "FinishUpload env u sp = (x, sp')"
  shows "grows sp sp'"
proof (cases x)
  case (Inl e)
  from FinishUpload_Inl [OF assms(2) [unfolded Inl]] show ?thesis
  proof (elim disjE exE conjE)
    fix r v
    assume v: "map_of (uploads sp) r = Some v"
      and sp': "sp' = (set_upload r (v\<lparr>up_open := False\<rparr>) sp)\<lparr>files := files sp'\<rparr>"
    show ?thesis using grows_end(1) [OF assms(1) v, of "ctxs sp" "files sp'"] sp' by (simp add: set_upload_def)
  qed (simp add: grows_refl assms(1))
next
  case (Inr fr)
  from assms(2) [unfolded Inr] show ?thesis
  proof (rule FinishUpload_Inr, goal_cases)
    case (1 r v dir fs1 fs2)
    then show ?case using grows_end(2) [OF assms(1) 1(2), of "ctxs sp" _ _ fs2] by (simp add: set_upload_def)
  qed
qed

lemma grows_Abort:
  assumes "refs_ok sp" and "AbortUpload env u sp = (x, sp')"
  shows "grows sp sp'"
proof (cases "Option.bind u (map_of (uploads sp))")
  case None
  then show ?thesis using assms by (auto simp: AbortUpload_def grows_refl)
next
  case (Some v)
  then obtain r where r: "u = Some r" "map_of (uploads sp) r = Some v" by (auto simp: bind_eq_Some_conv)
  show ?thesis
    using assms r by (auto simp: AbortUpload_def Let_def grows_def refs_ok_def same_upload_def ctx_done_mono split: if_splits)
qed

lemma grows_Delete: "refs_ok sp \<Longrightarrow> grows sp (snd (DeleteByPath env p sp))"
  by (auto simp: DeleteByPath_def grows_refl intro!: grows_same split: option.split sum.split prod.split os_error.split)

lemma grows_cancel: "refs_ok sp \<Longrightarrow> grows sp (sp\<lparr>ctxs := cancel_ctx c (ctxs sp)\<rparr>)"
  by (rule grows_same) (simp_all add: ctx_done_mono)

lemma grows_with_cancel: "refs_ok sp \<Longrightarrow> with_cancel p (ctxs sp) = (c, cs) \<Longrightarrow> grows sp (sp\<lparr>ctxs := cs\<rparr>)"
  by (auto simp: with_cancel_def ctx_done_def intro!: grows_same)

section \<open>The invariant\<close>

text \<open>\<open>accs\<close> is the table of accounts, which never changes.\<close>

definition accounts_ok :: "(string \<Rightarrow> AccountConfig option) \<Rightarrow> bool" where
  "accounts_ok accs \<longleftrightarrow> (\<forall>u a. accs u = Some a \<longrightarrow> Username a = u \<and> IsAbs (Target_Root (Target a)))"

definition managers_ok :: "(string \<Rightarrow> AccountConfig option) \<Rightarrow> ctx \<Rightarrow> (string \<times> TransferManager) list \<Rightarrow> bool" where
  "managers_ok accs ctx tms \<longleftrightarrow> (\<forall>u tm. map_of tms u = Some tm \<longrightarrow> tm_context tm = ctx
     \<and> (\<exists>a. accs u = Some a \<and> GetTarget u tm = Some (account_target a)))"

definition session_upload_id :: "string \<Rightarrow> uint64 \<Rightarrow> int \<Rightarrow> string" where
  "session_upload_id user n clock = user @ ''-'' @ itoa (unat n) @ ''-'' @ itoa_int clock"

text \<open>The table of open uploads of session \<open>r\<close>: each entry is a writer of the session, under an
  identifier made from a counter value that has been used.\<close>

definition table_ok :: "(nat \<times> uploadWriter) list \<Rightarrow> nat \<Rightarrow> bridgeClientDriver \<Rightarrow> bool" where
  "table_ok ws r s \<longleftrightarrow> distinct (akeys (cd_uploads s))
     \<and> (\<forall>i k. map_of (cd_uploads s) i = Some k \<longrightarrow>
          (\<exists>x. map_of ws k = Some x \<and> uw_session x = r \<and> uw_id x = i)
          \<and> (\<exists>n t. 0 < n \<and> n \<le> cd_counter s \<and> i = session_upload_id (cd_user s) n t))"

definition session_ok ::
  "(string \<Rightarrow> AccountConfig option) \<Rightarrow> ctx \<Rightarrow> (nat \<times> uploadWriter) list \<Rightarrow> nat \<Rightarrow> bridgeClientDriver \<Rightarrow> bool" where
  "session_ok accs root ws r s \<longleftrightarrow> accs (cd_user s) = Some (cd_account s) \<and> (\<exists>t. cd_ctx s = t # root) \<and> table_ok ws r s"

definition writer_ok :: "(nat \<times> bridgeClientDriver) list \<Rightarrow> spool \<Rightarrow> uploadWriter \<Rightarrow> bool" where
  "writer_ok ss sp x \<longleftrightarrow> (\<exists>s u t. map_of ss (uw_session x) = Some s \<and> map_of (uploads sp) (su_upload (uw_spool x)) = Some u
     \<and> up_ctx u = t # cd_ctx s \<and> up_size u = 0 \<and> inside (Target_Root (Target (cd_account s))) (su_path (uw_spool x)))"

definition open_uploads :: "string \<Rightarrow> (nat \<times> bridgeClientDriver) list \<Rightarrow> nat" where
  "open_uploads user ss = asum (\<lambda>s. if cd_user s = user then length (cd_uploads s) else 0) ss"

definition cap_of :: "(string \<Rightarrow> AccountConfig option) \<Rightarrow> string \<Rightarrow> int" where
  "cap_of accs u = (case accs u of None \<Rightarrow> 0 | Some a \<Rightarrow> MaxConcurrentUploads (Upload_of a))"

definition slots_ok ::
  "(string \<Rightarrow> AccountConfig option) \<Rightarrow> upload_slots \<Rightarrow> (nat \<times> bridgeClientDriver) list \<Rightarrow> bool" where
  "slots_ok accs slots ss \<longleftrightarrow> slots_inv (cap_of accs) slots
     \<and> (\<forall>u. 0 < cap_of accs u \<longrightarrow> slots_used slots u = open_uploads u ss)"

definition bridge_inv :: "(string \<Rightarrow> AccountConfig option) \<Rightarrow> BridgeDriver \<Rightarrow> bool" where
  "bridge_inv accs d \<longleftrightarrow> map_of (br_accounts d) = accs \<and> managers_ok accs (br_ctx d) (br_transfers d) \<and> refs_ok (br_spool d)
     \<and> br_ctx d \<noteq> [] \<and> distinct (akeys (br_sessions d))
     \<and> (\<forall>r s. map_of (br_sessions d) r = Some s \<longrightarrow> session_ok accs (br_ctx d) (br_writers d) r s)
     \<and> (\<forall>k x. map_of (br_writers d) k = Some x \<longrightarrow> writer_ok (br_sessions d) (br_spool d) x)
     \<and> slots_ok accs (br_slots d) (br_sessions d)"

lemma bridge_invD:
  assumes "bridge_inv accs d"
  shows "map_of (br_accounts d) = accs" "managers_ok accs (br_ctx d) (br_transfers d)" "refs_ok (br_spool d)" "br_ctx d \<noteq> []"
    "distinct (akeys (br_sessions d))" "slots_ok accs (br_slots d) (br_sessions d)"
    "map_of (br_sessions d) r = Some s \<Longrightarrow> session_ok accs (br_ctx d) (br_writers d) r s"
    "map_of (br_writers d) k = Some x \<Longrightarrow> writer_ok (br_sessions d) (br_spool d) x"
  using assms by (auto simp: bridge_inv_def)

lemma writer_ok_grows:
  assumes "writer_ok ss sp x" and g: "grows sp sp'"
  shows "writer_ok ss sp' x"
proof -
  obtain s u t where u: "map_of ss (uw_session x) = Some s" "map_of (uploads sp) (su_upload (uw_spool x)) = Some u"
    "up_ctx u = t # cd_ctx s" "up_size u = 0" "inside (Target_Root (Target (cd_account s))) (su_path (uw_spool x))"
    using assms(1) by (auto simp: writer_ok_def)
  from grows_upload [OF g u(2)] u show ?thesis by (force simp: writer_ok_def same_upload_def)
qed

text \<open>Operations that leave the stores alone, and let the spool grow.\<close>

lemma inv_same_core:
  assumes "bridge_inv accs d" and "same_core d d'" and "grows (br_spool d) (br_spool d')"
  shows "bridge_inv accs d'"
proof -
  have c: "br_transfers d' = br_transfers d" "br_sessions d' = br_sessions d" "br_writers d' = br_writers d"
    "br_accounts d' = br_accounts d" "br_ctx d' = br_ctx d" "br_slots d' = br_slots d"
    using assms(2) by (auto simp: same_core_def)
  have "refs_ok (br_spool d')" using assms(3) by (simp add: grows_def)
  moreover have "writer_ok (br_sessions d) (br_spool d') x" if "map_of (br_writers d) k = Some x" for k x
    using writer_ok_grows [OF bridge_invD(8) [OF assms(1) that] assms(3)] .
  ultimately show ?thesis using assms(1) unfolding bridge_inv_def c by blast
qed

section \<open>Logins keep the invariant\<close>

text \<open>Writers look only at the context and the account of their session.\<close>

definition sessions_grow :: "(nat \<times> bridgeClientDriver) list \<Rightarrow> (nat \<times> bridgeClientDriver) list \<Rightarrow> bool" where
  "sessions_grow ss ss' \<longleftrightarrow> (\<forall>r s. map_of ss r = Some s \<longrightarrow>
     (\<exists>s'. map_of ss' r = Some s' \<and> cd_ctx s' = cd_ctx s \<and> cd_account s' = cd_account s))"

lemma writer_ok_sessions: "writer_ok ss sp x \<Longrightarrow> sessions_grow ss ss' \<Longrightarrow> writer_ok ss' sp x"
  unfolding writer_ok_def sessions_grow_def by metis

lemma sessions_grow_new: "map_of ss r = None \<Longrightarrow> sessions_grow ss (aput r s ss)"
  by (auto simp: sessions_grow_def)

lemma sessions_grow_set: "map_of ss r = Some s \<Longrightarrow> cd_ctx s' = cd_ctx s \<Longrightarrow> cd_account s' = cd_account s \<Longrightarrow>
    sessions_grow ss (aput r s' ss)"
  by (auto simp: sessions_grow_def)


lemma open_uploads_new: "map_of ss r = None \<Longrightarrow> cd_uploads s = [] \<Longrightarrow> open_uploads u (aput r s ss) = open_uploads u ss"
  by (simp add: open_uploads_def asum_aput_new map_of_None_akeys)

lemma open_uploads_set:
  "distinct (akeys ss) \<Longrightarrow> map_of ss r = Some s \<Longrightarrow> cd_user s' = cd_user s \<Longrightarrow>
     open_uploads u (aput r s' ss) + (if cd_user s = u then length (cd_uploads s) else 0)
       = open_uploads u ss + (if cd_user s = u then length (cd_uploads s') else 0)"
  unfolding open_uploads_def using asum_aput_old [of ss r s "\<lambda>s. if cd_user s = u then length (cd_uploads s) else 0" s'] by simp

lemma inv_finish:
  assumes inv: "bridge_inv accs d" and f: "auth_finish IDKey sdk t t' c addr user pw d w = (r, d', w')"
  shows "bridge_inv accs d'"
proof -
  note D = bridge_invD [OF inv]
  obtain d1 where b: "auth_body IDKey sdk t t' c addr user pw d w = (r, d1, w')" and d': "d' = auth_leave d1"
    using f by (auto simp: auth_finish_def split: prod.splits)
  from b show ?thesis
  proof (cases rule: auth_body_cases)
    case (failed e)
    then show ?thesis
      using inv_same_core [OF inv, of d'] grows_refl [OF D(3)] by (simp add: d' same_core_def)
  next
    case (ok a drive cache ctx cs)
    let ?r = "fresh_ref (br_sessions d)" and ?s = "session_of a drive user (upload_base drive d) ctx"
    have fr: "map_of (br_sessions d) ?r = None" by (rule fresh_ref_new)
    have a: "accs user = Some a" using authenticateUser_Inr [OF ok(2)] D(1) by simp
    have s: "session_ok accs (br_ctx d) (br_writers d) ?r ?s"
      using a ok(6) by (auto simp: session_ok_def session_of_def table_ok_def with_cancel_def)
    have sp: "grows (br_spool d) ((br_spool d)\<lparr>ctxs := cs\<rparr>)" by (rule grows_with_cancel [OF D(3) ok(6)])
    have w: "writer_ok (aput ?r ?s (br_sessions d)) ((br_spool d)\<lparr>ctxs := cs\<rparr>) x" if "map_of (br_writers d) k = Some x" for k x
      by (rule writer_ok_sessions [OF writer_ok_grows [OF D(8) [OF that] sp] sessions_grow_new [OF fr]])
    have sl: "slots_ok accs (br_slots d) (aput ?r ?s (br_sessions d))"
      using D(6) by (simp add: slots_ok_def open_uploads_new [OF fr] session_of_def)
    have ss: "session_ok accs (br_ctx d) (br_writers d) r0 s0" if "map_of (aput ?r ?s (br_sessions d)) r0 = Some s0" for r0 s0
      using that s D(7) by (cases "r0 = ?r") auto
    have ro: "refs_ok ((br_spool d)\<lparr>ctxs := cs\<rparr>)" using sp by (simp add: grows_def)
    show ?thesis
      unfolding bridge_inv_def d' auth_leave_sel ok(7) ok(9-14)
      using D(1,2,4) ro distinct_aput [OF D(5)] ss w sl by blast
  qed
qed

section \<open>Writing keeps the invariant\<close>

lemma set_writer_sel [simp]:
  "br_transfers (set_writer k x d) = br_transfers d" "br_sessions (set_writer k x d) = br_sessions d"
  "br_writers (set_writer k x d) = aput k x (br_writers d)" "br_accounts (set_writer k x d) = br_accounts d"
  "br_ctx (set_writer k x d) = br_ctx d" "br_slots (set_writer k x d) = br_slots d" "br_cfg (set_writer k x d) = br_cfg d"
  "br_spool (set_writer k x d) = br_spool d" "br_uploadsSuccess (set_writer k x d) = br_uploadsSuccess d"
  "br_totalBytes (set_writer k x d) = br_totalBytes d"
  by (simp_all add: set_writer_def)

lemma set_session_sel [simp]:
  "br_transfers (set_session r s d) = br_transfers d" "br_sessions (set_session r s d) = aput r s (br_sessions d)"
  "br_writers (set_session r s d) = br_writers d" "br_accounts (set_session r s d) = br_accounts d"
  "br_ctx (set_session r s d) = br_ctx d" "br_slots (set_session r s d) = br_slots d" "br_cfg (set_session r s d) = br_cfg d"
  "br_spool (set_session r s d) = br_spool d" "br_uploadsSuccess (set_session r s d) = br_uploadsSuccess d"
  "br_uploadsFailed (set_session r s d) = br_uploadsFailed d" "br_metrics (set_session r s d) = br_metrics d"
  "br_totalBytes (set_session r s d) = br_totalBytes d"
  by (simp_all add: set_session_def)

definition same_place :: "uploadWriter \<Rightarrow> uploadWriter \<Rightarrow> bool" where
  "same_place x x' \<longleftrightarrow> uw_session x' = uw_session x \<and> uw_id x' = uw_id x
     \<and> su_upload (uw_spool x') = su_upload (uw_spool x)"

lemma table_ok_set_writer:
  "table_ok ws r s \<Longrightarrow> map_of ws k = Some x \<Longrightarrow> same_place x x' \<Longrightarrow> table_ok (aput k x' ws) r s"
  by (fastforce simp: table_ok_def same_place_def)

lemma inv_set_writer:
  assumes inv: "bridge_inv accs d" and x: "map_of (br_writers d) k = Some x" and p: "same_place x x'"
    and path: "\<And>s. map_of (br_sessions d) (uw_session x) = Some s \<Longrightarrow> inside (Target_Root (Target (cd_account s))) (su_path (uw_spool x))
       \<Longrightarrow> inside (Target_Root (Target (cd_account s))) (su_path (uw_spool x'))"
  shows "bridge_inv accs (set_writer k x' d)"
proof -
  note D = bridge_invD [OF inv]
  have "session_ok accs (br_ctx d) (aput k x' (br_writers d)) r s" if "map_of (br_sessions d) r = Some s" for r s
    using D(7) [OF that] table_ok_set_writer [OF _ x p] by (auto simp: session_ok_def)
  moreover have "writer_ok (br_sessions d) (br_spool d) x'"
    using D(8) [OF x] p path by (auto simp: writer_ok_def same_place_def)
  then have "writer_ok (br_sessions d) (br_spool d) y" if "map_of (aput k x' (br_writers d)) j = Some y" for j y
    using that D(8) by (cases "j = k") auto
  ultimately show ?thesis using D(1-6) unfolding bridge_inv_def set_writer_sel by blast
qed

lemma inv_spool:
  "bridge_inv accs d \<Longrightarrow> grows (br_spool d) sp \<Longrightarrow> bridge_inv accs (d\<lparr>br_spool := sp\<rparr>)"
  by (rule inv_same_core) (simp_all add: same_core_def)

lemma inv_write:
  assumes inv: "bridge_inv accs d" and w: "writer_Write env k p d = (n, d')"
  shows "bridge_inv accs d'"
proof (cases "map_of (br_writers d) k")
  case None
  then show ?thesis using assms by (auto simp: writer_Write_def)
next
  case x: (Some x)
  have set: "bridge_inv accs (set_writer k x' d0)" if "bridge_inv accs d0" "br_writers d0 = br_writers d" "same_place x x'"
      "su_path (uw_spool x') = su_path (uw_spool x)" for x' d0
    using inv_set_writer [OF that(1), of k x x'] that x by simp
  show ?thesis
  proof (cases "uw_err x \<noteq> None \<or> map_of (uploads (br_spool d)) (su_upload (uw_spool x)) = None")
    case True
    then show ?thesis using w inv x by (auto simp: writer_Write_def split: option.splits)
  next
    case False
    then obtain u where u: "map_of (uploads (br_spool d)) (su_upload (uw_spool x)) = Some u" and e: "uw_err x = None" by auto
    obtain m f sp where c: "WriteChunk env (Some (su_upload (uw_spool x))) p (br_spool d) = ((m, f), sp)"
      by (metis prod.collapse)
    have sp: "bridge_inv accs (d\<lparr>br_spool := sp\<rparr>)"
      by (rule inv_spool [OF inv grows_Chunk [OF bridge_invD(3) [OF inv] c]])
    show ?thesis
      using w set [OF inv] set [OF sp]
      by (auto simp: writer_Write_def x u e c Let_def fail_writer_def same_place_def split: if_splits option.splits)
  qed
qed

section \<open>Closing keeps the invariant\<close>

lemma commit_attempts_inside:
  "commit_attempts net env client policy fr fs path attempt left w = (Inr (p, n), w') \<Longrightarrow> inside root path \<Longrightarrow> inside root p"
  by (induction left arbitrary: path attempt w)
    (auto dest: inside_retry split: sum.splits prod.splits option.splits if_splits)

lemma final_path_inside:
  assumes "inside root (su_path (uw_spool x))"
  shows "final_path s x fr = su_path (uw_spool x)"
proof -
  have "su_path (uw_spool x) \<noteq> ''''" using assms by (auto simp: inside_def IsAbs_iff)
  then show ?thesis by (simp add: final_path_def)
qed

lemma commit_inside:
  assumes "commitToWebDAV net env s x fr d w = (Inr (p, n), w')" and "inside root (su_path (uw_spool x))"
  shows "inside root p"
  using assms commit_attempts_inside [OF _ assms(2)] final_path_inside [OF assms(2)]
  by (auto simp: commitToWebDAV_def split: option.splits prod.splits)

text \<open>An upload leaves the table of its session and gives its slot back.\<close>

lemma untrack_session:
  "map_of (br_sessions d) (uw_session x) = Some s \<Longrightarrow>
     untrack x d = set_session (uw_session x) (s\<lparr>cd_uploads := adel (uw_id x) (cd_uploads s)\<rparr>) d"
  by (simp add: untrack_def)

lemma length_adel: "distinct (akeys m) \<Longrightarrow> map_of m k = Some v \<Longrightarrow> length m = Suc (length (adel k m))"
proof (induction m)
  case (Cons e m)
  then show ?case by (cases e) (auto simp: adel_notin map_of_None_akeys [symmetric] split: if_splits)
qed simp

lemma inv_untrack_release:
  assumes inv: "bridge_inv accs d" and acc: "accounts_ok accs" and x: "map_of (br_writers d) k = Some x"
    and s: "map_of (br_sessions d) (uw_session x) = Some s" and t: "map_of (cd_uploads s) (uw_id x) = Some k"
  shows "bridge_inv accs (release_slot (cd_account s) (untrack x d))"
proof -
  note D = bridge_invD [OF inv]
  let ?a = "cd_account s" and ?u = "cd_user s" and ?s' = "s\<lparr>cd_uploads := adel (uw_id x) (cd_uploads s)\<rparr>"
  let ?ss = "aput (uw_session x) ?s' (br_sessions d)"
  have S: "session_ok accs (br_ctx d) (br_writers d) (uw_session x) s" by (rule D(7) [OF s])
  then have au: "accs ?u = Some ?a" and tab: "table_ok (br_writers d) (uw_session x) s" by (auto simp: session_ok_def)
  then have ua: "Username ?a = ?u" and cap: "cap_of accs ?u = MaxConcurrentUploads (Upload_of ?a)"
    using acc by (auto simp: accounts_ok_def cap_of_def)
  have d: "distinct (akeys (cd_uploads s))" using tab by (simp add: table_ok_def)
  have len: "length (cd_uploads s) = Suc (length (cd_uploads ?s'))" using length_adel [OF d t] by simp
  have S': "session_ok accs (br_ctx d) (br_writers d) (uw_session x) ?s'"
    using S d by (auto simp: session_ok_def table_ok_def distinct_delete)
  have ss: "session_ok accs (br_ctx d) (br_writers d) r s0" if "map_of ?ss r = Some s0" for r s0
    using that S' D(7) by (cases "r = uw_session x") auto
  have w: "writer_ok ?ss (br_spool d) y" if "map_of (br_writers d) j = Some y" for j y
    by (rule writer_ok_sessions [OF D(8) [OF that] sessions_grow_set [OF s]]) simp_all
  have sl: "slots_inv (cap_of accs) (br_slots d)" "0 < cap_of accs u \<Longrightarrow> slots_used (br_slots d) u = open_uploads u (br_sessions d)" for u
    using D(6) by (auto simp: slots_ok_def)
  let ?sl = "releaseUploadSlot ?u (cap_of accs ?u) (br_slots d)"
  have cnt: "open_uploads u ?ss + (if ?u = u then 1 else 0) = open_uploads u (br_sessions d)" for u
    using open_uploads_set [OF D(5) s, of ?s' u] len by (simp split: if_splits)
  have "slots_used ?sl u = open_uploads u ?ss" if "0 < cap_of accs u" for u
  proof (cases "0 < cap_of accs ?u")
    case True
    show ?thesis using release_used [OF True, of ?u "br_slots d"] cnt [of u] sl(2) [OF that] by (auto split: if_splits)
  next
    case False
    then show ?thesis using that cnt [of u] sl(2) [OF that] by (auto simp: release_uncapped split: if_splits)
  qed
  then have "slots_ok accs ?sl ?ss" using slot_release_keeps [OF sl(1)] by (simp add: slots_ok_def)
  then show ?thesis
    unfolding bridge_inv_def untrack_session [OF s]
    using D(1-4) distinct_aput [OF D(5)] ss w by (simp add: release_slot_def ua cap)
qed

definition closes_to :: "nat \<Rightarrow> BridgeDriver \<Rightarrow> uploadWriter \<Rightarrow> BridgeDriver \<Rightarrow> bool" where
  "closes_to k d0 x d1 \<longleftrightarrow> map_of (br_writers d0) k = Some x \<and> same_core (untrack x d0) d1 \<and> grows (br_spool d0) (br_spool d1)"

lemma untrack_spool [simp]: "br_spool (untrack x d) = br_spool d"
  by (simp add: untrack_def split: option.split)

lemma closes_failed:
  "map_of (br_writers d0) k = Some x \<Longrightarrow> refs_ok (br_spool d0) \<Longrightarrow> closes_to k d0 x (upload_failed env reason x d0)"
  by (simp add: closes_to_def upload_failed_def recordUploadFailure_def same_core_def grows_refl)

lemma untrack_core:
  "br_sessions d' = br_sessions d \<Longrightarrow> br_transfers d' = br_transfers d \<Longrightarrow> br_writers d' = br_writers d \<Longrightarrow>
     br_accounts d' = br_accounts d \<Longrightarrow> br_ctx d' = br_ctx d \<Longrightarrow> br_slots d' = br_slots d \<Longrightarrow> br_cfg d' = br_cfg d \<Longrightarrow>
     same_core (untrack x d) (untrack x d')"
  by (auto simp: untrack_def same_core_def split: option.split)

lemma delete_spooled_sel [simp]:
  "br_sessions (delete_spooled env fr d) = br_sessions d" "br_transfers (delete_spooled env fr d) = br_transfers d"
  "br_writers (delete_spooled env fr d) = br_writers d" "br_accounts (delete_spooled env fr d) = br_accounts d"
  "br_ctx (delete_spooled env fr d) = br_ctx d" "br_slots (delete_spooled env fr d) = br_slots d"
  "br_cfg (delete_spooled env fr d) = br_cfg d" "br_uploadsSuccess (delete_spooled env fr d) = br_uploadsSuccess d"
  "br_totalBytes (delete_spooled env fr d) = br_totalBytes d"
  "br_spool (delete_spooled env fr d) = snd (DeleteByPath env (fr_path fr) (br_spool d))"
  by (simp_all add: delete_spooled_def)

lemma closes_done:
  assumes "map_of (br_writers d0) k = Some x" and "refs_ok (br_spool d0)"
  shows "closes_to k d0 x (upload_done env x fr d0)"
proof -
  have "same_core (untrack x d0) (upload_done env x fr d0)"
    unfolding upload_done_def Let_def by (rule untrack_core) simp_all
  moreover have "br_spool (upload_done env x fr d0) = snd (DeleteByPath env (fr_path fr) (br_spool d0))"
    by (simp add: upload_done_def Let_def)
  ultimately show ?thesis using assms grows_Delete by (simp add: closes_to_def)
qed

lemma closes_deleted:
  assumes "map_of (br_writers d0) k = Some x" and "refs_ok (br_spool d0)"
  shows "closes_to k d0 x (upload_failed env reason x (delete_spooled env fr d0))"
proof -
  have "closes_to k (delete_spooled env fr d0) x (upload_failed env reason x (delete_spooled env fr d0))"
    using assms grows_Delete by (intro closes_failed) (auto simp: grows_def)
  moreover have "same_core (untrack x d0) (untrack x (delete_spooled env fr d0))" by (rule untrack_core) simp_all
  ultimately show ?thesis
    using assms grows_Delete [OF assms(2)] by (auto simp: closes_to_def same_core_def intro: grows_trans)
qed

text \<open>Whatever way an upload ends, the driver is one that satisfies the invariant, with the upload
  taken out of its table.\<close>

lemma close_body_closes:
  assumes inv: "bridge_inv accs d" and x: "map_of (br_writers d) k = Some x"
    and s: "map_of (br_sessions d) (uw_session x) = Some s" and c: "close_body net env k x s u d w = (e, d1, w1)"
  shows "\<exists>d0 y. bridge_inv accs d0 \<and> same_place x y \<and> br_sessions d0 = br_sessions d
    \<and> grows (br_spool d) (br_spool d0) \<and> closes_to k d0 y d1"
proof -
  have r: "refs_ok (br_spool d)" by (rule bridge_invD(3) [OF inv])
  have plain: ?thesis if "grows (br_spool d) sp" "d1 = upload_failed env reason x (d\<lparr>br_spool := sp\<rparr>)" for sp reason
  proof -
    have "refs_ok sp" using that(1) by (simp add: grows_def)
    then have "closes_to k (d\<lparr>br_spool := sp\<rparr>) x d1"
      using closes_failed [of "d\<lparr>br_spool := sp\<rparr>" k x env reason] x that(2) by simp
    then show ?thesis using inv_spool [OF inv that(1)] that(1) by (force simp: same_place_def)
  qed
  show ?thesis
  proof (cases "uw_err x")
    case (Some err)
    obtain a sp where a: "AbortUpload env (Some (su_upload (uw_spool x))) (br_spool d) = (a, sp)" by fastforce
    have "d1 = upload_failed env ''aborted'' x (d\<lparr>br_spool := sp\<rparr>)" using c Some a by (simp add: close_body_def Let_def)
    then show ?thesis by (rule plain [OF grows_Abort [OF r a]])
  next
    case None
    note noerr = None
    show ?thesis
    proof (cases "up_received u = up_size u \<or> up_size u \<le> 0")
      case False
      obtain a sp where a: "AbortUpload env (Some (su_upload (uw_spool x))) (br_spool d) = (a, sp)" by fastforce
      have "d1 = upload_failed env ''incomplete'' x (d\<lparr>br_spool := sp\<rparr>)"
        using c None False a by (simp add: close_body_def Let_def)
      then show ?thesis by (rule plain [OF grows_Abort [OF r a]])
    next
      case True
      obtain f sp where f: "FinishUpload env (Some (su_upload (uw_spool x))) (br_spool d) = (f, sp)" by fastforce
      note g = grows_Finish [OF r f]
      show ?thesis
      proof (cases f)
        case (Inl e1)
        then have "d1 = upload_failed env ''finish_error'' x (d\<lparr>br_spool := sp\<rparr>)"
          using c None True f by (simp add: close_body_def Let_def)
        then show ?thesis by (rule plain [OF g])
      next
        case (Inr fr)
        let ?x1 = "x\<lparr>uw_spool := (uw_spool x)\<lparr>su_fileRef := Some fr\<rparr>\<rparr>"
        let ?d1 = "set_writer k ?x1 (d\<lparr>br_spool := sp\<rparr>)"
        have i1: "bridge_inv accs ?d1"
          by (rule inv_set_writer [OF inv_spool [OF inv g]]) (use x in \<open>simp_all add: same_place_def\<close>)
        have r1: "refs_ok (br_spool ?d1)" using g by (simp add: grows_def)
        obtain q w2 where q: "commitToWebDAV net env s ?x1 fr ?d1 w = (q, w2)" by fastforce
        show ?thesis
        proof (cases q)
          case (Inl e2)
          then have "closes_to k ?d1 ?x1 d1"
            using closes_deleted [of ?d1 k ?x1 env "''webdav_error''" fr] r1 c noerr True f Inr q
            by (simp add: close_body_def Let_def)
          with i1 g show ?thesis by (intro exI [of _ ?d1] exI [of _ ?x1]) (simp add: same_place_def)
        next
          case pn: (Inr pn)
          obtain p n where "pn = (p, n)" by (cases pn)
          note q = q [unfolded pn this]
          let ?x2 = "if n > 0 then ?x1\<lparr>uw_spool := (uw_spool ?x1)\<lparr>su_path := p\<rparr>\<rparr> else ?x1"
          have i2: "bridge_inv accs (set_writer k ?x2 ?d1)"
          proof (rule inv_set_writer [OF i1])
            fix s0
            assume "inside (Target_Root (Target (cd_account s0))) (su_path (uw_spool ?x1))"
            from commit_inside [OF q this] this
            show "inside (Target_Root (Target (cd_account s0))) (su_path (uw_spool ?x2))" by simp
          qed (simp_all add: same_place_def)
          have "closes_to k (set_writer k ?x2 ?d1) ?x2 d1"
            using closes_done [of "set_writer k ?x2 ?d1" k ?x2 env fr] r1 c noerr True f Inr q
            by (simp add: close_body_def Let_def)
          with i2 g show ?thesis
            by (intro exI [of _ "set_writer k ?x2 ?d1"] exI [of _ ?x2]) (simp add: same_place_def)
        qed
      qed
    qed
  qed
qed

lemma inv_close:
  assumes inv: "bridge_inv accs d" and acc: "accounts_ok accs" and t: "tracked k d"
    and c: "writer_Close net env k d w = (e, d', w')"
  shows "bridge_inv accs d'"
proof -
  obtain x s where x: "map_of (br_writers d) k = Some x" and s: "map_of (br_sessions d) (uw_session x) = Some s"
    and ti: "map_of (cd_uploads s) (uw_id x) = Some k" using t by (auto simp: tracked_def)
  obtain u where u: "map_of (uploads (br_spool d)) (su_upload (uw_spool x)) = Some u"
    using bridge_invD(8) [OF inv x] by (auto simp: writer_ok_def)
  obtain e1 d1 w1 where b: "close_body net env k x s u d w = (e1, d1, w1)" by (metis prod.collapse)
  have d': "d' = release_slot (cd_account s) d1" using c by (simp add: writer_Close_def x s u b)
  obtain d0 y where d0: "bridge_inv accs d0" "same_place x y" "br_sessions d0 = br_sessions d"
      "grows (br_spool d) (br_spool d0)" "closes_to k d0 y d1"
    using close_body_closes [OF inv x s b] by blast
  have y: "map_of (br_writers d0) k = Some y" "map_of (br_sessions d0) (uw_session y) = Some s"
    "map_of (cd_uploads s) (uw_id y) = Some k"
    using d0 s ti by (auto simp: closes_to_def same_place_def)
  note i = inv_untrack_release [OF d0(1) acc y]
  show ?thesis
    by (rule inv_same_core [OF i]) (use d0(5) in \<open>auto simp: d' closes_to_def same_core_def release_slot_def\<close>)
qed

end
