(* ===== verification/BridgeOpen.thy ===== *)
theory BridgeOpen
  imports BridgeInv
begin

text \<open>
  Opening a file for writing keeps the invariant of the driver: the identifier of the new upload is
  fresh in the table of its session, its path is strictly below the root of the account, and the
  slot that is taken is the one of the new upload, given back when the spool refuses to start it.
\<close>

section \<open>Upload identifiers\<close>

lemma takeWhile_itoa: "takeWhile is_digit (itoa n @ CHR ''-'' # s) = itoa n"
proof -
  have d: "\<forall>c\<in>set (itoa n). is_digit c" using itoa_digits [of n] by (simp add: list_all_iff)
  have "\<not> is_digit (CHR ''-'')" by (simp add: is_digit_def)
  then show ?thesis using d by (simp add: takeWhile_append)
qed

text \<open>Two identifiers of a session agree only if they are made from the same counter value.\<close>

lemma session_upload_id_inj:
  assumes "session_upload_id user n t = session_upload_id user m t'"
  shows "n = m"
proof -
  have "itoa (unat n) @ CHR ''-'' # itoa_int t = itoa (unat m) @ CHR ''-'' # itoa_int t'"
    using assms by (simp add: session_upload_id_def)
  then have "itoa (unat n) = itoa (unat m)" using takeWhile_itoa by metis
  then have "unat n = unat m" by (rule itoa_inj)
  then show ?thesis by (simp only: unsigned_word_eqI)
qed

lemma counter_up:
  fixes c :: uint64
  assumes "c \<noteq> - 1"
  shows "c < c + 1" and "n \<le> c \<Longrightarrow> n \<le> c + 1" and "0 < c + 1"
proof -
  have "c + 1 \<noteq> 0" using assms by (simp add: eq_neg_iff_add_eq_0)
  then show less: "c < c + 1" by (simp add: word_less_nat_alt unatSuc add.commute [of c])
  show "n \<le> c + 1" if "n \<le> c" using that less by simp
  show "0 < c + 1" using \<open>c + 1 \<noteq> 0\<close> by (simp add: word_gt_0)
qed

section \<open>Slots\<close>

lemma slots_refused:
  assumes "slots_ok accs sl ss" and "acquireUploadSlot u (cap_of accs u) sl = (Some e, sl')"
  shows "slots_ok accs sl' ss"
proof -
  have "0 < cap_of accs u" using assms(2) acquire_uncapped [of "cap_of accs u" u sl] by (cases "0 < cap_of accs u") auto
  then show ?thesis using assms acquire_capped [of "cap_of accs" sl u "Some e" sl'] by (auto simp: slots_ok_def)
qed

lemma slots_taken:
  assumes ok: "slots_ok accs sl ss" and a: "acquireUploadSlot u (cap_of accs u) sl = (None, sl')"
    and up: "\<And>v. open_uploads v ss' = open_uploads v ss + (if v = u then 1 else 0)"
  shows "slots_ok accs sl' ss'"
proof (cases "0 < cap_of accs u")
  case True
  then show ?thesis using ok a up acquire_capped [of "cap_of accs" sl u None sl'] by (auto simp: slots_ok_def)
next
  case False
  then have "sl' = sl" using a acquire_uncapped [of "cap_of accs u" u sl] by simp
  then show ?thesis using ok up False by (auto simp: slots_ok_def)
qed

lemma slots_given_back:
  assumes ok: "slots_ok accs sl ss" and a: "acquireUploadSlot u (cap_of accs u) sl = (None, sl')"
  shows "slots_ok accs (releaseUploadSlot u (cap_of accs u) sl') ss"
proof (cases "0 < cap_of accs u")
  case True
  have i: "slots_inv (cap_of accs) sl" using ok by (simp add: slots_ok_def)
  have "slots_used (releaseUploadSlot u (cap_of accs u) sl') = slots_used sl"
    using release_used [OF True, of u sl'] acquire_capped(3) [OF i True a] by (simp add: fun_eq_iff)
  then show ?thesis using ok slot_release_keeps [OF slot_acquire_keeps [OF i a]] by (simp add: slots_ok_def)
next
  case False
  then show ?thesis using ok a by (simp add: acquire_uncapped release_uncapped)
qed

section \<open>Opening\<close>

lemma inv_transfers: "bridge_inv accs d \<Longrightarrow> managers_ok accs (br_ctx d) tms \<Longrightarrow> bridge_inv accs (d\<lparr>br_transfers := tms\<rparr>)"
  by (simp add: bridge_inv_def)

lemma inv_slots: "bridge_inv accs d \<Longrightarrow> slots_ok accs sl (br_sessions d) \<Longrightarrow> bridge_inv accs (d\<lparr>br_slots := sl\<rparr>)"
  by (simp add: bridge_inv_def)

lemma managers_ok_put:
  assumes "managers_ok accs ctx tms" and "map_of tms u = Some tm" and "targetConfigs tm' = targetConfigs tm"
    and "tm_context tm' = tm_context tm"
  shows "managers_ok accs ctx (aput u tm' tms)"
  using assms by (auto simp: managers_ok_def GetTarget_def)

text \<open>A session whose table has changed, and nothing else that others look at.\<close>

lemma inv_set_session:
  assumes inv: "bridge_inv accs d" and s: "map_of (br_sessions d) r = Some s"
    and same: "cd_ctx s' = cd_ctx s" "cd_account s' = cd_account s" "cd_user s' = cd_user s"
    and tab: "table_ok (br_writers d) r s'" and len: "length (cd_uploads s') = length (cd_uploads s)"
  shows "bridge_inv accs (set_session r s' d)"
proof -
  note D = bridge_invD [OF inv]
  have s': "session_ok accs (br_ctx d) (br_writers d) r s'" using D(7) [OF s] same tab by (simp add: session_ok_def)
  have ss: "session_ok accs (br_ctx d) (br_writers d) q x" if "map_of (aput r s' (br_sessions d)) q = Some x" for q x
    using that s' D(7) by (cases "q = r") auto
  have w: "writer_ok (aput r s' (br_sessions d)) (br_spool d) y" if "map_of (br_writers d) j = Some y" for j y
    by (rule writer_ok_sessions [OF D(8) [OF that] sessions_grow_set [OF s same(1,2)]])
  have "open_uploads u (aput r s' (br_sessions d)) = open_uploads u (br_sessions d)" for u
    using open_uploads_set [OF D(5) s same(3), of u] len by (simp split: if_splits)
  then have "slots_ok accs (br_slots d) (aput r s' (br_sessions d))" using D(6) by (simp add: slots_ok_def)
  then show ?thesis using D(1-4) distinct_aput [OF D(5)] ss w unfolding bridge_inv_def set_session_sel by blast
qed

lemma table_ok_counter:
  assumes "table_ok ws r s" and "cd_counter s \<noteq> - 1"
  shows "table_ok ws r (s\<lparr>cd_counter := cd_counter s + 1\<rparr>)"
proof -
  have "\<exists>m t. 0 < m \<and> m \<le> cd_counter s + 1 \<and> i = session_upload_id (cd_user s) m t"
    if "map_of (cd_uploads s) i = Some k" for i k
    using assms(1) that counter_up(2) [OF assms(2)] unfolding table_ok_def by meson
  then show ?thesis using assms(1) by (simp add: table_ok_def)
qed

lemma inv_skip:
  assumes "bridge_inv accs d" and "map_of (br_sessions d) r = Some s" and "cd_counter s \<noteq> - 1"
  shows "bridge_inv accs (skip_uploadID t r d)"
proof -
  have "table_ok (br_writers d) r s" using bridge_invD(7) [OF assms(1,2)] by (simp add: session_ok_def)
  then have tab: "table_ok (br_writers d) r (s\<lparr>cd_counter := cd_counter s + 1\<rparr>)"
    using table_ok_counter assms(3) by blast
  have "bridge_inv accs (set_session r (s\<lparr>cd_counter := cd_counter s + 1\<rparr>) d)"
    by (rule inv_set_session [OF assms(1,2) _ _ _ tab]) simp_all
  then show ?thesis using assms(2) by (simp add: skip_uploadID_def generateSessionUploadID_def Let_def)
qed

text \<open>The new writer; \<open>sl\<close> are the slots with the one of the upload taken.\<close>

lemma inv_new_writer:
  assumes inv: "bridge_inv accs d" and s: "map_of (br_sessions d) r = Some s" and c: "cd_counter s \<noteq> - 1"
    and a: "acquireUploadSlot (cd_user s) (cap_of accs (cd_user s)) (br_slots d) = (None, sl)"
    and u: "map_of (uploads (br_spool d)) u = Some up" "up_ctx up = t # cd_ctx s" "up_size up = 0"
    and p: "inside (Target_Root (Target (cd_account s))) p"
    and n: "new_writer clock r u p (d\<lparr>br_slots := sl\<rparr>) = (k, d')"
  shows "bridge_inv accs d'"
proof -
  note D = bridge_invD [OF inv]
  let ?id = "session_upload_id (cd_user s) (cd_counter s + 1) clock" and ?k = "fresh_ref (br_writers d)"
  let ?x = "\<lparr>uw_session = r, uw_id = ?id,
     uw_spool = \<lparr>su_upload = u, su_fileRef = None, su_start = clock, su_lastChunk = clock, su_path = p\<rparr>, uw_err = None\<rparr>"
  let ?s = "s\<lparr>cd_counter := cd_counter s + 1, cd_uploads := aput ?id ?k (cd_uploads s)\<rparr>"
  have d': "d' = set_writer ?k ?x (set_session r ?s (d\<lparr>br_slots := sl\<rparr>))"
    using n s by (auto simp: new_writer_def generateSessionUploadID_def Let_def session_upload_id_def)
  have S: "session_ok accs (br_ctx d) (br_writers d) r s" by (rule D(7) [OF s])
  then have tab: "table_ok (br_writers d) r s" by (simp add: session_ok_def)
  have new: "map_of (cd_uploads s) ?id = None"
  proof (rule ccontr)
    assume "map_of (cd_uploads s) ?id \<noteq> None"
    then obtain j where "map_of (cd_uploads s) ?id = Some j" by blast
    then obtain m t where m: "m \<le> cd_counter s" "?id = session_upload_id (cd_user s) m t"
      using tab unfolding table_ok_def by meson
    from session_upload_id_inj [OF m(2)] m(1) counter_up(1) [OF c] show False by simp
  qed
  have old: "map_of (aput ?k ?x (br_writers d)) j = Some y" if "map_of (br_writers d) j = Some y" for j y
    using that fresh_ref_neq [OF that] by simp
  have keep: "session_ok accs (br_ctx d) (aput ?k ?x (br_writers d)) q y" if "session_ok accs (br_ctx d) (br_writers d) q y" for q y
    using that old unfolding session_ok_def table_ok_def by blast
  have tabs: "table_ok (aput ?k ?x (br_writers d)) r ?s"
  proof -
    have e: "(\<exists>y. map_of (aput ?k ?x (br_writers d)) j = Some y \<and> uw_session y = r \<and> uw_id y = i)
        \<and> (\<exists>m t. 0 < m \<and> m \<le> cd_counter s + 1 \<and> i = session_upload_id (cd_user s) m t)"
      if "map_of (aput ?id ?k (cd_uploads s)) i = Some j" for i j
    proof (cases "i = ?id")
      case True
      then show ?thesis using that counter_up(3) [OF c] by auto
    next
      case False
      then have "map_of (cd_uploads s) i = Some j" using that by simp
      moreover have "table_ok (aput ?k ?x (br_writers d)) r s" using keep [OF S] by (simp add: session_ok_def)
      ultimately show ?thesis using counter_up(2) [OF c] unfolding table_ok_def by meson
    qed
    have "distinct (akeys (cd_uploads s))" using tab by (simp add: table_ok_def)
    then show ?thesis unfolding table_ok_def using e by (simp add: distinct_update)
  qed
  have S': "session_ok accs (br_ctx d) (aput ?k ?x (br_writers d)) r ?s" using S tabs by (simp add: session_ok_def)
  have ss: "session_ok accs (br_ctx d) (aput ?k ?x (br_writers d)) q y" if "map_of (aput r ?s (br_sessions d)) q = Some y" for q y
    using that S' keep D(7) by (cases "q = r") auto
  have wx: "writer_ok (br_sessions d) (br_spool d) ?x" using s u p by (simp add: writer_ok_def)
  have w0: "writer_ok (br_sessions d) (br_spool d) y" if "map_of (aput ?k ?x (br_writers d)) j = Some y" for j y
    using that wx D(8) by (cases "j = ?k") auto
  have w: "writer_ok (aput r ?s (br_sessions d)) (br_spool d) y" if "map_of (aput ?k ?x (br_writers d)) j = Some y" for j y
    by (rule writer_ok_sessions [OF w0 [OF that] sessions_grow_set [OF s]]) simp_all
  have "length (cd_uploads ?s) = Suc (length (cd_uploads s))" using new by (simp add: aput_notin map_of_None_akeys)
  then have "open_uploads v (aput r ?s (br_sessions d)) = open_uploads v (br_sessions d) + (if v = cd_user s then 1 else 0)" for v
    using open_uploads_set [OF D(5) s, of ?s v] by auto
  then have sl: "slots_ok accs sl (aput r ?s (br_sessions d))" by (rule slots_taken [OF D(6) a])
  show ?thesis
    unfolding d' bridge_inv_def using D(1-4) distinct_aput [OF D(5)] ss w sl by (simp del: map_of_aput)
qed

lemma inv_open:
  assumes inv: "bridge_inv accs d" and acc: "accounts_ok accs" and m: "may_open r d"
    and path: "IsAbs path" "Clean path = path" and o: "handleUploadOpen net env r path d w = (k, d', w')"
  shows "bridge_inv accs d'"
proof -
  note D = bridge_invD [OF inv]
  obtain s where s: "map_of (br_sessions d) r = Some s" and c: "cd_counter s \<noteq> - 1" using m by (auto simp: may_open_def)
  let ?a = "cd_account s" and ?u = "cd_user s"
  have au: "accs ?u = Some ?a" using D(7) [OF s] by (simp add: session_ok_def)
  then have ua: "Username ?a = ?u" "IsAbs (Target_Root (Target ?a))" and cap: "cap_of accs ?u = MaxConcurrentUploads (Upload_of ?a)"
    using acc by (auto simp: accounts_ok_def cap_of_def)
  show ?thesis
  proof (cases "map_of (br_transfers d) ?u")
    case None
    then show ?thesis using o inv s by (simp add: handleUploadOpen_def transferManagerFor_def)
  next
    case (Some tm)
    note tm = this
    have g: "GetTarget (tr_userID (upload_request_of s path)) tm = Some (account_target ?a)"
      using D(2) Some au by (force simp: managers_ok_def upload_request_of_def)
    obtain res tm1 w1 where p: "ProcessUpload (manager_net net tm d) (now env) (upload_request_of s path) tm w = (res, tm1, w1)"
      by (metis prod.collapse)
    let ?d1 = "d\<lparr>br_transfers := aput ?u tm1 (br_transfers d)\<rparr>"
    have i1: "bridge_inv accs ?d1"
      using inv_transfers [OF inv managers_ok_put [OF D(2) Some]] ProcessUpload_keeps [OF p] by simp
    show ?thesis
    proof (cases "ts_success res")
      case False
      then show ?thesis using o i1 s Some p by (simp add: handleUploadOpen_def transferManagerFor_def)
    next
      case True
      note ok = this
      have "Base path \<noteq> ''/''"
        using slash_name_refused [OF _ p g] True by (auto simp: upload_request_of_def)
      then have "proper (tr_filename (upload_request_of s path))"
        using Base_clean_abs [OF path] by (simp add: upload_request_of_def)
      from ProcessUpload_inside [OF g _ this p True] ua(2)
      have inside: "inside (Target_Root (Target ?a)) (ts_targetPath res)" by (simp add: account_target_def)
      obtain e sl where a: "acquireUploadSlot ?u (cap_of accs ?u) (br_slots d) = (e, sl)" by fastforce
      then have a': "acquire_slot ?a ?d1 = (e, ?d1\<lparr>br_slots := sl\<rparr>)" by (simp add: acquire_slot_def ua cap)
      show ?thesis
      proof (cases e)
        case (Some err)
        have "bridge_inv accs (?d1\<lparr>br_slots := sl\<rparr>)"
          using inv_slots [OF i1] slots_refused [OF D(6) a [unfolded Some]] by simp
        then show ?thesis using o s tm p ok a' Some by (simp add: handleUploadOpen_def transferManagerFor_def)
      next
        case None
        obtain v sp where st: "StartUpload env (cd_ctx s) ?u (ts_filename res) (ts_targetPath res) (-1)
            (Upload_MaxSize (Upload_of ?a)) (br_spool d) = (v, sp)" by fastforce
        note gr = grows_Start [OF D(3) st]
        have i2: "bridge_inv accs (?d1\<lparr>br_spool := sp\<rparr>)" using inv_spool [OF i1] gr by simp
        show ?thesis
        proof (cases v)
          case (Inl err)
          have i3: "bridge_inv accs (skip_uploadID (now env) r (?d1\<lparr>br_spool := sp\<rparr>))"
            by (rule inv_skip [OF i2 _ c]) (simp add: s)
          have freed: "slots_ok accs (releaseUploadSlot ?u (cap_of accs ?u) sl)
              (br_sessions (skip_uploadID (now env) r (?d1\<lparr>br_spool := sp\<rparr>)))"
            using slots_given_back [OF bridge_invD(6) [OF i3], of ?u sl] a None s
            by (simp add: skip_uploadID_def set_session_def)
          have "d' = skip_uploadID (now env) r (?d1\<lparr>br_spool := sp\<rparr>)\<lparr>br_slots := releaseUploadSlot ?u (cap_of accs ?u) sl\<rparr>"
            using o s tm p ok a' None st Inl
            by (simp add: handleUploadOpen_def transferManagerFor_def release_slot_def ua cap skip_uploadID_def set_session_def)
          then show ?thesis using inv_slots [OF i3 freed] by simp
        next
          case (Inr ref)
          obtain up t where up: "map_of (uploads sp) ref = Some up" "up_ctx up = t # cd_ctx s" "up_size up = 0"
            using gr Inr by auto
          let ?d2 = "?d1\<lparr>br_spool := sp\<rparr>"
          obtain j d3 where n: "new_writer (now env) r ref (ts_targetPath res) (?d1\<lparr>br_slots := sl\<rparr>\<lparr>br_spool := sp\<rparr>) = (j, d3)"
            by fastforce
          have d': "d' = d3\<lparr>br_uploadsTotal := br_uploadsTotal d3 + 1\<rparr>"
            using o s tm p ok a' None st Inr n by (simp add: handleUploadOpen_def transferManagerFor_def)
          have swap: "?d2\<lparr>br_slots := sl\<rparr> = ?d1\<lparr>br_slots := sl\<rparr>\<lparr>br_spool := sp\<rparr>"
            by (rule BridgeDriver.equality) simp_all
          have nw: "new_writer (now env) r ref (ts_targetPath res) (?d2\<lparr>br_slots := sl\<rparr>) = (j, d3)"
            unfolding swap by (rule n)
          have "bridge_inv accs d3"
            by (rule inv_new_writer [OF i2 _ c _ _ up(2,3) inside nw]) (use s a None up in simp_all)
          then show ?thesis by (simp add: d' bridge_inv_def)
        qed
      qed
    qed
  qed
qed

end
