(* ===== verification/BridgeReach.thy ===== *)
theory BridgeReach
  imports BridgeOpen ConfigProps
begin

text \<open>
  The reachable states of the driver: a new driver on a validated configuration satisfies the
  invariant, every step keeps it, and with it what the driver promises in every state: uploads
  stay below the root of their account and within its cap, logins within the bound on concurrent
  verifications, and a session that is cancelled sends nothing more.
\<close>

section \<open>The accounts of a configuration\<close>

definition account_of :: "Config \<Rightarrow> string \<Rightarrow> AccountConfig option" where
  "account_of cfg u = find (\<lambda>a. Username a = u) (rev (Accounts cfg))"

lemma table_of_accounts:
  "map_of (foldl (\<lambda>m a. aput (Username a) (g a) m) [] as) u = map_option g (find (\<lambda>a. Username a = u) (rev as))"
  by (induction as rule: rev_induct) auto

lemma account_of_Some: "account_of cfg u = Some a \<Longrightarrow> Username a = u \<and> a \<in> set (Accounts cfg)"
  by (auto simp: account_of_def find_Some_iff in_set_conv_nth rev_nth) (metis diff_less length_greater_0_conv list.size(3) not_less0 zero_less_Suc)

lemma accounts_ok_valid: "config_valid env cfg \<Longrightarrow> accounts_ok (account_of cfg)"
  using account_of_Some by (force simp: accounts_ok_def config_valid_def account_valid_def list_all_iff)

section \<open>The invariant of the reachable states\<close>

text \<open>What no operation on sessions and uploads changes.\<close>

definition settled :: "BridgeDriver \<Rightarrow> BridgeDriver \<Rightarrow> bool" where
  "settled d d' \<longleftrightarrow> br_authSem d' = br_authSem d \<and> br_maxConnections d' = br_maxConnections d \<and> br_shutdown d' = br_shutdown d
     \<and> br_ctx d' = br_ctx d \<and> br_active d' = br_active d \<and> br_allowed d' = br_allowed d \<and> br_clients d' = br_clients d
     \<and> (br_metrics d = None \<longrightarrow> br_metrics d' = None)"

text \<open>States between which sessions keep their account and context, and contexts that are done stay done.\<close>

definition later :: "BridgeDriver \<Rightarrow> BridgeDriver \<Rightarrow> bool" where
  "later d d' \<longleftrightarrow> grows (br_spool d) (br_spool d') \<and> sessions_grow (br_sessions d) (br_sessions d') \<and> br_ctx d' = br_ctx d"

lemma sessions_grow_trans: "sessions_grow a b \<Longrightarrow> sessions_grow b c \<Longrightarrow> sessions_grow a c"
  unfolding sessions_grow_def by metis

lemma later_trans: "later a b \<Longrightarrow> later b c \<Longrightarrow> later a c"
  unfolding later_def using grows_trans sessions_grow_trans by metis

lemma later_same: "br_sessions d' = br_sessions d \<Longrightarrow> br_ctx d' = br_ctx d \<Longrightarrow> grows (br_spool d) (br_spool d') \<Longrightarrow> later d d'"
  by (simp add: later_def sessions_grow_def)

lemma later_core: "same_core d d' \<Longrightarrow> grows (br_spool d) (br_spool d') \<Longrightarrow> later d d'"
  by (rule later_same) (simp_all add: same_core_def)

lemma later_done: "later d d' \<Longrightarrow> ctx_done (ctxs (br_spool d)) c \<Longrightarrow> ctx_done (ctxs (br_spool d')) c"
  by (simp add: later_def grows_def)

section \<open>What each operation does to the rest of the driver\<close>

lemma connect_spool: "ClientConnected c addr d = (r, d') \<Longrightarrow> br_spool d' = br_spool d"
  by (auto simp: ClientConnected_def Let_def split: prod.splits bool.splits)

lemma enter_spool: "auth_enter t addr d = (e, d') \<Longrightarrow> br_spool d' = br_spool d"
  by (auto simp: auth_enter_def lockout_check_def Let_def split: if_splits prod.splits bool.splits option.splits)

lemma tick_spool [simp]: "br_spool (janitor_tick t d) = br_spool d"
  by (simp add: janitor_tick_def)

lemma disconnect_spool:
  "br_spool (ClientDisconnected c addr d) = (case Option.bind (map_of (br_clients d) c) (map_of (br_sessions d)) of
     None \<Rightarrow> br_spool d | Some s \<Rightarrow> (br_spool d)\<lparr>ctxs := cancel_ctx (cd_ctx s) (ctxs (br_spool d))\<rparr>)"
  by (simp add: ClientDisconnected_def cancel_session_def Let_def split: option.split)

lemma stop_spool:
  "br_spool (Shutdown d) = (if br_shutdown d then br_spool d
     else (br_spool d)\<lparr>ctxs := cancel_ctx (br_ctx d) (ctxs (br_spool d))\<rparr>)"
  by (simp add: Shutdown_def)

lemma write_settled: "writer_Write env k p d = (n, d') \<Longrightarrow> settled d d'"
  by (auto simp: writer_Write_def Let_def fail_writer_def set_writer_def settled_def
      split: option.splits if_splits prod.splits)

lemma skip_settled: "settled d (skip_uploadID t r d)"
  by (simp add: skip_uploadID_def set_session_def settled_def split: option.split)

lemma open_settled: "handleUploadOpen net env r path d w = (k, d', w') \<Longrightarrow> settled d d'"
  by (auto simp: handleUploadOpen_def Let_def acquire_slot_def release_slot_def skip_uploadID_def new_writer_def
      set_session_def set_writer_def settled_def split: option.splits if_splits prod.splits sum.splits)

lemma settled_trans: "settled a b \<Longrightarrow> settled b c \<Longrightarrow> settled a c"
  by (simp add: settled_def)

lemma untrack_settled: "settled d (untrack x d)"
  by (simp add: untrack_def set_session_def settled_def split: option.split)

lemma upload_ends_settled: "settled d (upload_failed env reason x d)" "settled d (upload_done env x fr d)"
  by (simp_all add: upload_failed_def recordUploadFailure_def upload_done_def delete_spooled_def emit_def Let_def
      untrack_def set_session_def settled_def split: option.split)

lemma settled_update:
  "settled d (d\<lparr>br_spool := sp\<rparr>)" "settled d (set_writer k x d)" "settled d (delete_spooled env fr d)"
  "settled d (release_slot a d)"
  by (simp_all add: settled_def set_writer_def delete_spooled_def release_slot_def)

lemma close_body_settled:
  assumes "close_body net env k x s u d w = (e, d', w')"
  shows "settled d d'"
proof -
  note ends = upload_ends_settled settled_update
  have f: "settled d (upload_failed env reason y (d\<lparr>br_spool := sp\<rparr>))" for reason y sp
    by (rule settled_trans [OF ends(3) ends(1)])
  have c: "settled d (upload_failed env reason y (delete_spooled env fr (set_writer k y (d\<lparr>br_spool := sp\<rparr>))))" for reason y sp fr
    by (rule settled_trans [OF settled_trans [OF settled_trans [OF ends(3) ends(4)] ends(5)] ends(1)])
  have k: "settled d (upload_done env z fr (set_writer k z (set_writer k y (d\<lparr>br_spool := sp\<rparr>))))" for y z sp fr
    by (rule settled_trans [OF settled_trans [OF settled_trans [OF ends(3) ends(4)] ends(4)] ends(2)])
  show ?thesis
    using assms f c k by (auto simp: close_body_def Let_def split: option.splits if_splits prod.splits sum.splits)
qed

lemma close_settled: "writer_Close net env k d w = (e, d', w') \<Longrightarrow> settled d d'"
  using close_body_settled settled_trans settled_update(4)
  by (fastforce simp: writer_Close_def settled_def split: option.splits prod.splits)

section \<open>Every step leads to a later state\<close>

text \<open>The invariant of a configuration of the transition system.\<close>

definition logins_ok :: "BridgeDriver \<Rightarrow> login list \<Rightarrow> bool" where
  "logins_ok d ls \<longleftrightarrow> br_authSem d = length ls \<and> length ls \<le> maxConcurrentVerifications"

definition stop_ok :: "BridgeDriver \<Rightarrow> bool" where
  "stop_ok d \<longleftrightarrow> (br_shutdown d \<longrightarrow> ctx_done (ctxs (br_spool d)) (br_ctx d))"

definition clients_ok :: "BridgeDriver \<Rightarrow> bool" where
  "clients_ok d \<longleftrightarrow> (\<forall>c r. map_of (br_clients d) c = Some r \<longrightarrow> map_of (br_sessions d) r \<noteq> None)"

definition reach_inv :: "Config \<Rightarrow> BridgeDriver \<times> login list \<times> 'w \<Rightarrow> bool" where
  "reach_inv cfg c = (case c of (d, ls, w) \<Rightarrow>
     accounts_ok (account_of cfg) \<and> bridge_inv (account_of cfg) d \<and> logins_ok d ls \<and> stop_ok d \<and> clients_ok d
     \<and> br_maxConnections d = MaxConnections (Server cfg) \<and> br_metrics d = None)"

lemma later_finish:
  assumes inv: "bridge_inv accs d" and f: "auth_finish IDKey sdk t t' c addr user pw d w = (r, d', w')"
  shows "later d d' \<and> br_shutdown d' = br_shutdown d"
proof -
  note D = bridge_invD [OF inv]
  obtain d1 where b: "auth_body IDKey sdk t t' c addr user pw d w = (r, d1, w')" and d': "d' = auth_leave d1"
    using f by (auto simp: auth_finish_def split: prod.splits)
  have "br_shutdown d' = br_shutdown d"
    using b by (auto simp: d' auth_leave_def auth_body_def new_session_def Let_def split: sum.splits prod.splits if_splits)
  moreover from b have "later d d'"
  proof (cases rule: auth_body_cases)
    case (failed e)
    then show ?thesis using later_core [of d d'] grows_refl [OF D(3)] by (simp add: d' same_core_def)
  next
    case (ok a drive cache ctx cs)
    then show ?thesis
      using grows_with_cancel [OF D(3) ok(6)] sessions_grow_new [OF fresh_ref_new] by (simp add: later_def d')
  qed
  ultimately show ?thesis by blast
qed

lemma later_set_session:
  "refs_ok (br_spool d) \<Longrightarrow> map_of (br_sessions d) r = Some s \<Longrightarrow> cd_ctx s' = cd_ctx s \<Longrightarrow> cd_account s' = cd_account s \<Longrightarrow>
     later d (set_session r s' d)"
  by (simp add: later_def grows_refl sessions_grow_set)

lemma later_open:
  assumes inv: "bridge_inv accs d" and o: "handleUploadOpen net env r path d w = (k, d', w')"
  shows "later d d'"
proof -
  note D = bridge_invD [OF inv]
  show ?thesis
  proof (cases "map_of (br_sessions d) r")
    case None
    then show ?thesis using o grows_refl [OF D(3)] by (auto simp: handleUploadOpen_def intro: later_same)
  next
    case (Some s)
    have g: "grows (br_spool d) sp" if "StartUpload env p u n t z m (br_spool d) = (v, sp)" for p u n t z m v sp
      using grows_Start [OF D(3) that] by blast
    have ss: "sessions_grow (br_sessions d) (aput r s' (br_sessions d))" if "cd_ctx s' = cd_ctx s" "cd_account s' = cd_account s" for s'
      by (rule sessions_grow_set [OF Some that])
    have same: "sessions_grow (br_sessions d) (br_sessions d)" by (simp add: sessions_grow_def)
    show ?thesis
      using o Some grows_refl [OF D(3)] same
      by (auto simp: handleUploadOpen_def Let_def acquire_slot_def release_slot_def skip_uploadID_def new_writer_def
          generateSessionUploadID_def set_session_def set_writer_def later_def
          dest: g intro!: ss split: option.splits if_splits prod.splits sum.splits)
  qed
qed

lemma later_write:
  assumes inv: "bridge_inv accs d" and w: "writer_Write env k p d = (n, d')"
  shows "later d d'"
proof -
  note D = bridge_invD [OF inv]
  have g: "grows (br_spool d) sp" if "WriteChunk env u p (br_spool d) = (v, sp)" for u v sp
    using grows_Chunk [OF D(3), of env u p "fst v" "snd v" sp] that by simp
  show ?thesis
    using w grows_refl [OF D(3)]
    by (auto simp: writer_Write_def Let_def fail_writer_def set_writer_def later_def sessions_grow_def
        dest: g split: option.splits if_splits prod.splits)
qed

lemma later_close:
  assumes inv: "bridge_inv accs d" and c: "writer_Close net env k d w = (e, d', w')"
  shows "later d d'"
proof (cases "\<exists>x s u. map_of (br_writers d) k = Some x \<and> map_of (br_sessions d) (uw_session x) = Some s
    \<and> map_of (uploads (br_spool d)) (su_upload (uw_spool x)) = Some u")
  case False
  then have "d' = d" using c by (auto simp: writer_Close_def split: option.splits)
  then show ?thesis using grows_refl [OF bridge_invD(3) [OF inv]] by (auto intro: later_same)
next
  case True
  then obtain x s u where x: "map_of (br_writers d) k = Some x" "map_of (br_sessions d) (uw_session x) = Some s"
    "map_of (uploads (br_spool d)) (su_upload (uw_spool x)) = Some u" by blast
  obtain e1 d1 w1 where b: "close_body net env k x s u d w = (e1, d1, w1)" by (metis prod.collapse)
  have d': "d' = release_slot (cd_account s) d1" using c by (simp add: writer_Close_def x b)
  obtain d0 y where d0: "bridge_inv accs d0" "same_place x y" "br_sessions d0 = br_sessions d"
      "grows (br_spool d) (br_spool d0)" "closes_to k d0 y d1"
    using close_body_closes [OF inv x(1,2) b] by blast
  have y: "map_of (br_sessions d0) (uw_session y) = Some s" using d0(2,3) x(2) by (simp add: same_place_def)
  have core: "same_core (untrack y d0) d1" "grows (br_spool d0) (br_spool d1)" using d0(5) by (auto simp: closes_to_def)
  have "br_sessions d1 = aput (uw_session y) (s\<lparr>cd_uploads := adel (uw_id y) (cd_uploads s)\<rparr>) (br_sessions d0)"
    using core(1) by (simp add: same_core_def untrack_session [OF y])
  moreover have "sessions_grow (br_sessions d0) (aput (uw_session y) (s\<lparr>cd_uploads := adel (uw_id y) (cd_uploads s)\<rparr>) (br_sessions d0))"
    by (rule sessions_grow_set [OF y]) simp_all
  moreover have "br_ctx d1 = br_ctx d" using close_body_settled [OF b] by (simp add: settled_def)
  ultimately show ?thesis using d0(3) grows_trans [OF d0(4) core(2)] by (simp add: later_def d' release_slot_def)
qed

lemma bstep_later:
  assumes "bstep IDKey sdk net c c'" and "c = (d, ls, w)" and "c' = (d', ls', w')" and inv: "bridge_inv accs d"
  shows "later d d'"
  using assms(1-3)
proof (cases rule: bstep.cases)
  case (Connect c addr d0 r d1)
  then show ?thesis using assms(2,3) later_core [OF same_core_connect] connect_spool grows_refl [OF bridge_invD(3) [OF inv]] by auto
next
  case (Disconnect d0 ls0 w0 c addr)
  have "grows (br_spool d) (br_spool (ClientDisconnected c addr d))"
    using grows_refl grows_cancel bridge_invD(3) [OF inv] by (simp add: disconnect_spool split: option.split)
  then show ?thesis using Disconnect assms(2,3) later_core [OF same_core_disconnect] by auto
next
  case (Refuse t addr d0 e d1)
  then show ?thesis using assms(2,3) later_core [OF same_core_enter] enter_spool grows_refl [OF bridge_invD(3) [OF inv]] by auto
next
  case (Enter t addr d0 d1)
  then show ?thesis using assms(2,3) later_core [OF same_core_enter] enter_spool grows_refl [OF bridge_invD(3) [OF inv]] by auto
next
  case (Finish conn addr user pw ls0 t t' d0 w0 r d1 w1)
  then have "auth_finish IDKey sdk t t' conn addr user pw d w = (r, d', w')" using assms(2,3) by simp
  from later_finish [OF inv this] show ?thesis by blast
next
  case (Open r d0 path env w0 k d1 w1)
  then show ?thesis using assms(2,3) later_open [OF inv] by auto
next
  case (Write env k p d0 n d1)
  then show ?thesis using assms(2,3) later_write [OF inv] by auto
next
  case (Close k d0 env w0 e d1 w1)
  then show ?thesis using assms(2,3) later_close [OF inv] by auto
next
  case (Tick d0 ls0 w0 t)
  then show ?thesis using assms(2,3) later_core [OF same_core_tick] grows_refl [OF bridge_invD(3) [OF inv]] by auto
next
  case (Stop d0 ls0 w0)
  have "grows (br_spool d) (br_spool (Shutdown d))"
    using grows_refl grows_cancel bridge_invD(3) [OF inv] by (simp add: stop_spool)
  then show ?thesis using Stop assms(2,3) later_core [OF same_core_stop] by auto
qed

section \<open>Every step keeps the invariant\<close>

lemma enter_rest:
  assumes "auth_enter t addr d = (e, d')"
  shows "br_authSem d' = (if e = None then Suc (br_authSem d) else br_authSem d) \<and> (e = None \<longrightarrow> br_authSem d < maxConcurrentVerifications)
    \<and> br_maxConnections d' = br_maxConnections d \<and> br_metrics d' = br_metrics d \<and> br_shutdown d' = br_shutdown d"
  using assms by (auto simp: auth_enter_def lockout_check_def Let_def
      split: if_splits prod.splits bool.splits option.splits)

lemma emit_metrics: "br_metrics d = None \<Longrightarrow> br_metrics (emit ms d) = None"
  by (simp add: emit_def)

lemma finish_rest:
  assumes "auth_finish IDKey sdk t t' c addr user pw d w = (r, d', w')"
  shows "br_authSem d' = br_authSem d - 1 \<and> br_maxConnections d' = br_maxConnections d \<and> br_shutdown d' = br_shutdown d
    \<and> (br_metrics d = None \<longrightarrow> br_metrics d' = None)"
  using assms by (auto simp: auth_finish_def auth_leave_def auth_body_def record_attempt_def emit_def new_session_def Let_def
      split: sum.splits prod.splits if_splits)

lemma connect_rest:
  "ClientConnected c addr d = (r, d') \<Longrightarrow> br_authSem d' = br_authSem d \<and> br_maxConnections d' = br_maxConnections d
     \<and> br_shutdown d' = br_shutdown d \<and> (br_metrics d = None \<longrightarrow> br_metrics d' = None)"
  by (auto simp: ClientConnected_def emit_def Let_def split: prod.splits bool.splits)

lemma disconnect_rest:
  "br_authSem (ClientDisconnected c addr d) = br_authSem d" "br_maxConnections (ClientDisconnected c addr d) = br_maxConnections d"
  "br_shutdown (ClientDisconnected c addr d) = br_shutdown d"
  "br_metrics d = None \<Longrightarrow> br_metrics (ClientDisconnected c addr d) = None"
  by (simp_all add: ClientDisconnected_def cancel_session_def emit_def Let_def split: option.split)

lemma tick_rest:
  "br_authSem (janitor_tick t d) = br_authSem d" "br_maxConnections (janitor_tick t d) = br_maxConnections d"
  "br_shutdown (janitor_tick t d) = br_shutdown d" "br_metrics (janitor_tick t d) = br_metrics d"
  by (simp_all add: janitor_tick_def)

lemma stop_rest:
  "br_authSem (Shutdown d) = br_authSem d" "br_maxConnections (Shutdown d) = br_maxConnections d"
  "br_metrics (Shutdown d) = br_metrics d"
  by (simp_all add: Shutdown_def)

lemma bridge_inv_step:
  assumes "bstep IDKey sdk net c c'" and "c = (d, ls, w)" and "c' = (d', ls', w')"
    and inv: "bridge_inv accs d" and acc: "accounts_ok accs"
  shows "bridge_inv accs d'"
proof -
  have g: "grows (br_spool d) (br_spool d')" using bstep_later [OF assms(1-4)] by (simp add: later_def)
  from assms(1-3) show ?thesis
  proof (cases rule: bstep.cases)
    case (Finish conn addr user pw ls0 t t' d0 w0 r d1 w1)
    then have "auth_finish IDKey sdk t t' conn addr user pw d w = (r, d', w')" using assms(2,3) by simp
    then show ?thesis by (rule inv_finish [OF inv])
  next
    case (Open r d0 path env w0 k d1 w1)
    then have m: "may_open r d" and o: "handleUploadOpen net env r path d w = (k, d', w')" using assms(2,3) by simp_all
    show ?thesis by (rule inv_open [OF inv acc m Open(4,5) o])
  next
    case (Close k d0 env w0 e d1 w1)
    then have "tracked k d" "writer_Close net env k d w = (e, d', w')" using assms(2,3) by simp_all
    then show ?thesis by (rule inv_close [OF inv acc])
  qed (use assms(2,3) inv_same_core [OF inv _ g] inv_write [OF inv] same_core_connect same_core_enter
      same_core_disconnect same_core_tick same_core_stop in auto)
qed

lemma rest_step:
  assumes "bstep IDKey sdk net c c'" and "c = (d, ls, w)" and "c' = (d', ls', w')" and l: "logins_ok d ls"
  shows "logins_ok d' ls' \<and> br_maxConnections d' = br_maxConnections d \<and> (br_metrics d = None \<longrightarrow> br_metrics d' = None)
    \<and> (br_shutdown d' \<longrightarrow> br_shutdown d \<or> d' = Shutdown d)"
  using assms(1-3)
proof (cases rule: bstep.cases)
  case (Connect c addr d0 r d1)
  then show ?thesis using assms(2,3) l connect_rest [of c addr d r d'] by (simp add: logins_ok_def)
next
  case (Disconnect d0 ls0 w0 c addr)
  then show ?thesis using assms(2,3) l by (simp add: logins_ok_def disconnect_rest)
next
  case (Refuse t addr d0 e d1)
  then show ?thesis using assms(2,3) l enter_rest [of t addr d "Some e" d'] by (simp add: logins_ok_def)
next
  case (Enter t addr d0 d1)
  then show ?thesis using assms(2,3) l enter_rest [of t addr d None d'] by (auto simp: logins_ok_def)
next
  case (Finish conn addr user pw ls0 t t' d0 w0 r d1 w1)
  then have "auth_finish IDKey sdk t t' conn addr user pw d w = (r, d', w')" "length ls' = length ls - 1"
    using assms(2,3) by (simp_all add: length_remove1)
  with finish_rest [OF this(1)] l show ?thesis by (auto simp: logins_ok_def)
next
  case (Open r d0 path env w0 k d1 w1)
  then show ?thesis using assms(2,3) l open_settled [of net env r path d w k d' w'] by (simp add: logins_ok_def settled_def)
next
  case (Write env k p d0 n d1)
  then show ?thesis using assms(2,3) l write_settled [of env k p d n d'] by (simp add: logins_ok_def settled_def)
next
  case (Close k d0 env w0 e d1 w1)
  then show ?thesis using assms(2,3) l close_settled [of net env k d w e d' w'] by (simp add: logins_ok_def settled_def)
next
  case (Tick d0 ls0 w0 t)
  then show ?thesis using assms(2,3) l by (simp add: logins_ok_def tick_rest)
next
  case (Stop d0 ls0 w0)
  then show ?thesis using assms(2,3) l by (simp add: logins_ok_def stop_rest)
qed

lemma clients_grow:
  "clients_ok d \<Longrightarrow> sessions_grow (br_sessions d) (br_sessions d') \<Longrightarrow>
     (\<And>c r. map_of (br_clients d') c = Some r \<Longrightarrow> map_of (br_clients d) c = Some r \<or> map_of (br_sessions d') r \<noteq> None) \<Longrightarrow>
     clients_ok d'"
  unfolding clients_ok_def sessions_grow_def by (metis option.exhaust option.simps(3))

lemma finish_clients:
  assumes "auth_finish IDKey sdk t t' conn addr user pw d w = (r, d', w')" and "map_of (br_clients d') c = Some q"
  shows "map_of (br_clients d) c = Some q \<or> map_of (br_sessions d') q \<noteq> None"
proof -
  obtain d1 where b: "auth_body IDKey sdk t t' conn addr user pw d w = (r, d1, w')" and d': "d' = auth_leave d1"
    using assms(1) by (auto simp: auth_finish_def split: prod.splits)
  from b show ?thesis
  proof (cases rule: auth_body_cases)
    case (failed e)
    then show ?thesis using assms(2) by (simp add: d')
  next
    case (ok a drive cache ctx cs)
    then show ?thesis using assms(2) by (auto simp: d' split: if_splits)
  qed
qed

lemma connect_clients: "ClientConnected c addr d = (r, d') \<Longrightarrow> br_clients d' = br_clients d"
  by (auto simp: ClientConnected_def emit_def Let_def split: prod.splits bool.splits)

lemma enter_clients: "auth_enter t addr d = (e, d') \<Longrightarrow> br_clients d' = br_clients d"
  by (auto simp: auth_enter_def lockout_check_def Let_def split: if_splits prod.splits bool.splits option.splits)

lemma clients_step:
  assumes "bstep IDKey sdk net c c'" and "c = (d, ls, w)" and "c' = (d', ls', w')"
    and l: "later d d'" and ok: "clients_ok d"
  shows "clients_ok d'"
proof (rule clients_grow [OF ok])
  show "sessions_grow (br_sessions d) (br_sessions d')" using l by (simp add: later_def)
  fix q r assume q: "map_of (br_clients d') q = Some r"
  from assms(1-3) show "map_of (br_clients d) q = Some r \<or> map_of (br_sessions d') r \<noteq> None"
  proof (cases rule: bstep.cases)
    case (Connect conn addr d0 x d1)
    then show ?thesis using q assms(2,3) connect_clients by auto
  next
    case (Disconnect d0 ls0 w0 conn addr)
    then have "d' = ClientDisconnected conn addr d" using assms(2,3) by simp
    then have "br_clients d' = adel conn (br_clients d)"
      by (simp add: ClientDisconnected_def Let_def)
    then show ?thesis using q by (auto split: if_splits)
  next
    case (Refuse t addr d0 e d1)
    then show ?thesis using q assms(2,3) enter_clients by auto
  next
    case (Enter t addr d0 d1)
    then show ?thesis using q assms(2,3) enter_clients by auto
  next
    case (Finish conn addr user pw ls0 t t' d0 w0 x d1 w1)
    then have "auth_finish IDKey sdk t t' conn addr user pw d w = (x, d', w')" using assms(2,3) by simp
    from finish_clients [OF this q] show ?thesis .
  next
    case (Open x d0 path env w0 k d1 w1)
    then have "settled d d'" using assms(2,3) open_settled by auto
    then show ?thesis using q by (simp add: settled_def)
  next
    case (Write env k p d0 n d1)
    then have "settled d d'" using assms(2,3) write_settled by auto
    then show ?thesis using q by (simp add: settled_def)
  next
    case (Close k d0 env w0 e d1 w1)
    then have "settled d d'" using assms(2,3) close_settled by auto
    then show ?thesis using q by (simp add: settled_def)
  qed (use q assms(2,3) in \<open>auto simp: janitor_tick_def Shutdown_def split: if_splits\<close>)
qed

lemma stop_done: "br_ctx d \<noteq> [] \<Longrightarrow> stop_ok d \<Longrightarrow> stop_ok (Shutdown d)"
  by (simp add: stop_ok_def Shutdown_def ctx_done_cancel_self)

lemma reach_inv_step:
  assumes i: "reach_inv cfg c" and st: "bstep IDKey sdk net c c'"
  shows "reach_inv cfg c'"
proof -
  obtain d ls w d' ls' w' where c: "c = (d, ls, w)" "c' = (d', ls', w')" by (metis prod.collapse)
  have I: "accounts_ok (account_of cfg)" "bridge_inv (account_of cfg) d" "logins_ok d ls" "stop_ok d"
      "clients_ok d" "br_maxConnections d = MaxConnections (Server cfg)" "br_metrics d = None"
    using i by (auto simp: reach_inv_def c)
  note R = rest_step [OF st c I(3)] and L = bstep_later [OF st c I(2)]
  have "stop_ok d'"
  proof (cases "br_shutdown d")
    case True
    then have "ctx_done (ctxs (br_spool d')) (br_ctx d)" using I(4) later_done [OF L] by (simp add: stop_ok_def)
    then show ?thesis using L by (simp add: stop_ok_def later_def)
  next
    case False
    then show ?thesis using R stop_done [OF bridge_invD(4) [OF I(2)] I(4)] by (auto simp: stop_ok_def)
  qed
  then show ?thesis using bridge_inv_step [OF st c I(2,1)] clients_step [OF st c L I(5)] R I by (simp add: reach_inv_def c)
qed

interpretation bridge: relation_system "bstep IDKey sdk net" "reach_inv cfg"
  for IDKey :: id_key and sdk :: "'w sdk" and net :: "'w net" and cfg
  by unfold_locales (rule reach_inv_step)

section \<open>The new driver\<close>

lemma NewBridgeDriver_sel:
  "map_of (br_accounts (NewBridgeDriver cfg sp)) = account_of cfg"
  "map_of (br_transfers (NewBridgeDriver cfg sp)) u
     = map_option (account_manager (br_ctx (NewBridgeDriver cfg sp)) (WebDAVURL (OCIS_of cfg))) (account_of cfg u)"
  "br_sessions (NewBridgeDriver cfg sp) = []" "br_writers (NewBridgeDriver cfg sp) = []" "br_slots (NewBridgeDriver cfg sp) = []"
  "br_authSem (NewBridgeDriver cfg sp) = 0" "br_metrics (NewBridgeDriver cfg sp) = None" "br_shutdown (NewBridgeDriver cfg sp) = False"
  "br_maxConnections (NewBridgeDriver cfg sp) = MaxConnections (Server cfg)" "br_ctx (NewBridgeDriver cfg sp) \<noteq> []"
  "br_clients (NewBridgeDriver cfg sp) = []"
  "uploads (br_spool (NewBridgeDriver cfg sp)) = uploads sp" "next_ref (br_spool (NewBridgeDriver cfg sp)) = next_ref sp"
  by (auto simp: NewBridgeDriver_def Let_def with_cancel_def table_of_accounts account_of_def fun_eq_iff option.map_ident)

lemma account_manager_target:
  "GetTarget (Username a) (account_manager ctx url a) = Some (account_target a)" "tm_context (account_manager ctx url a) = ctx"
  by (simp_all add: account_manager_def GetTarget_def AddTarget_def NewTransferManagerWithWebDAV_def)

lemma reach_inv_new:
  assumes "config_valid env cfg" and "refs_ok sp"
  shows "reach_inv cfg (NewBridgeDriver cfg sp, [], w)"
proof -
  have m: "managers_ok (account_of cfg) (br_ctx (NewBridgeDriver cfg sp)) (br_transfers (NewBridgeDriver cfg sp))"
    using account_of_Some account_manager_target by (fastforce simp: managers_ok_def NewBridgeDriver_sel(2))
  have "bridge_inv (account_of cfg) (NewBridgeDriver cfg sp)"
    using m assms(2) by (simp add: bridge_inv_def NewBridgeDriver_sel refs_ok_def slots_ok_def slots_inv_empty slots_used_def open_uploads_def)
  then show ?thesis
    using accounts_ok_valid [OF assms(1)] by (simp add: reach_inv_def NewBridgeDriver_sel logins_ok_def stop_ok_def clients_ok_def)
qed

end
