(* ===== verification/BridgeExample.thy ===== *)
theory BridgeExample
  imports BridgeReach
begin

text \<open>
  One FTP session on a small configuration, step by step: a printer connects, logs in, uploads
  \<open>/a.pdf\<close> and closes it. The properties of the driver are applied to it.
\<close>

definition demo_sdk :: "int list sdk" where
  "demo_sdk = \<lparr>GetDrive = (\<lambda>_ _ i w. (Inr (Some (sdk_of i ''Scans'')), w)), ListMyDrives = (\<lambda>_ _ w. (Inr None, w)),
     with_path = (\<lambda>b s. Some (b @ s))\<rparr>"

definition demo_addr :: string where
  "demo_addr = ''10.0.0.9:2000''"

definition demo_drive :: Drive where
  "demo_drive = convertDrive demo_sdk (sdk_of ''d1'' ''Scans'')"

definition demo_config :: Config where
  "demo_config = the_config\<lparr>HTTP := HTTP the_config\<lparr>HTTP_Auth := HTTP_Auth (HTTP the_config)\<lparr>Auth_Password := ''s3cret''\<rparr>\<rparr>,
     Spool_of := Spool_of the_config\<lparr>Directory := ''/spool'', MaxTotalSize := 1000, MaxSize := 1000\<rparr>\<rparr>"

definition demo_new :: BridgeDriver where
  "demo_new = NewBridgeDriver demo_config (new_spool ''/spool'' 1000 [] ctx_init)"

definition demo_connected :: BridgeDriver where
  "demo_connected = snd (ClientConnected 1 demo_addr demo_new)"

definition demo_entered :: BridgeDriver where
  "demo_entered = snd (auth_enter 0 demo_addr demo_connected)"

definition demo_session :: BridgeDriver where
  "demo_session = auth_leave (record_attempt 0 (extractClientIP demo_addr) True
     (snd (new_session 1 ''scanner'' the_account demo_drive
        (demo_entered\<lparr>br_driveCache := storeDriveResolution 0 ''scanner'' demo_drive []\<rparr>))))"

definition demo_open :: BridgeDriver where
  "demo_open = fst (snd (handleUploadOpen scripted (example_env 1 7) 0 ''/a.pdf'' demo_session [404, 200]))"

definition demo_written :: BridgeDriver where
  "demo_written = snd (writer_Write (example_env 2 7) 0 ''hello'' demo_open)"

definition demo_closed :: BridgeDriver where
  "demo_closed = fst (snd (writer_Close scripted (example_env 3 7) 0 demo_written [200, 201]))"

lemma demo_password: "VerifyPassword toy_key (PasswordHash the_account) ''hunter2'' = Inr True"
  using parse_printed [of 64 3 4 "''0123456789abcdef''" "''hunter2012345678''"]
  by (simp add: example_texts VerifyPassword_def the_account_def an_account_def toy_key_def)

lemma demo1: "fst (ClientConnected 1 demo_addr demo_new) = Inr ''220 ocis-ftp-bridge ready''"
  by code_simp

lemma demo2: "fst (auth_enter 0 demo_addr demo_connected) = None"
  by code_simp

lemma demo4: "fst (handleUploadOpen scripted (example_env 1 7) 0 ''/a.pdf'' demo_session [404, 200]) = Inr 0"
  "snd (snd (handleUploadOpen scripted (example_env 1 7) 0 ''/a.pdf'' demo_session [404, 200])) = []"
proof -
  let ?o = "handleUploadOpen scripted (example_env 1 7) 0 ''/a.pdf'' demo_session [404, 200]"
  have "(case ?o of (r, d, w) \<Rightarrow> (r, w)) = (Inr 0, [])" by code_simp
  then show "fst ?o = Inr 0" "snd (snd ?o) = []" by (simp_all add: case_prod_beta)
qed

lemma demo5: "fst (writer_Write (example_env 2 7) 0 ''hello'' demo_open) = (5, None)"
  by code_simp

lemma demo_writer: "map_option (\<lambda>x. (uw_session x, uw_id x, su_upload (uw_spool x))) (map_of (br_writers demo_written) 0)
    = Some (0, ''scanner-1-1'', 0)"
  by code_simp

lemma demo6: "tracked 0 demo_written" "may_open 0 demo_session" "IsAbs ''/a.pdf''" "Clean ''/a.pdf'' = ''/a.pdf''"
proof -
  show "IsAbs ''/a.pdf''" "Clean ''/a.pdf'' = ''/a.pdf''" by code_simp+
  have "map_option (\<lambda>s. map_of (cd_uploads s) ''scanner-1-1'') (map_of (br_sessions demo_written) 0) = Some (Some 0)"
    by code_simp
  then show "tracked 0 demo_written" using demo_writer by (auto simp: tracked_def)
  have "map_option cd_counter (map_of (br_sessions demo_session) 0) = Some 0" by code_simp
  then show "may_open 0 demo_session" by (auto simp: may_open_def)
qed

lemma demo7: "fst (writer_Close scripted (example_env 3 7) 0 demo_written [200, 201]) = None"
  by code_simp

lemma demo_login:
  "auth_finish toy_key demo_sdk 0 0 1 demo_addr ''scanner'' ''hunter2'' demo_entered w = (Inr 0, demo_session, w)"
proof -
  have e: "br_accounts demo_entered = [(''scanner'', the_account)]" "br_driveCache demo_entered = []"
    "br_metrics demo_entered = None" "br_sessions demo_entered = []"
    by code_simp+
  have a: "PasswordHash the_account \<noteq> ''''" "OCIS_Username (OCIS the_account) = ''bridge''" "AppToken the_account = ''tok''"
    "Target_DriveID (Target the_account) = ''d1''" "Username the_account = ''scanner''"
    by (simp_all add: the_account_def an_account_def)
  have u: "authenticateUser toy_key ''scanner'' ''hunter2'' (br_accounts demo_entered) = Inr the_account"
    using a(1) by (simp add: authenticateUser_def e demo_password)
  have r: "resolveDriveForAccount demo_sdk g 0 0 the_account [] w = (Inr demo_drive, storeDriveResolution 0 ''scanner'' demo_drive [], w)" for g
    by (simp add: resolveDriveForAccount_def cachedDriveResolution_def resolveDriveFresh_def Let_def a ResolveDrive_def
        NewLibreGraphClient_def demo_sdk_def demo_drive_def)
  show ?thesis
    using u a r
    by (simp add: auth_finish_def auth_body_def Let_def e demo_session_def new_session_def fresh_ref_def emit_def
        record_attempt_def auth_leave_def with_cancel_def split: prod.split)
qed

section \<open>The session as a run of the transition system\<close>

abbreviation demo_step :: "BridgeDriver \<times> login list \<times> int list \<Rightarrow> BridgeDriver \<times> login list \<times> int list \<Rightarrow> bool" where
  "demo_step \<equiv> bstep toy_key demo_sdk scripted"

lemma split_run: "fst x = a \<Longrightarrow> x = (a, snd x)"
  by (cases x) simp

lemma demo_connect: "demo_step (demo_new, ls, w) (demo_connected, ls, w)"
  by (rule bstep.Connect [of 1 demo_addr demo_new "fst (ClientConnected 1 demo_addr demo_new)"]) (simp add: demo_connected_def)

lemma demo_enter: "demo_step (demo_connected, [], w) (demo_entered, [(1, demo_addr, ''scanner'', ''hunter2'')], w)"
proof -
  have "auth_enter 0 demo_addr demo_connected = (None, demo_entered)" using split_run [OF demo2] by (simp add: demo_entered_def)
  then show ?thesis by (rule bstep.Enter)
qed

lemma demo_finish: "demo_step (demo_entered, [(1, demo_addr, ''scanner'', ''hunter2'')], w) (demo_session, [], w)"
  using bstep.Finish [OF _ demo_login, of "[(1, demo_addr, ''scanner'', ''hunter2'')]"] by simp

lemma demo_opens: "demo_step (demo_session, [], [404, 200]) (demo_open, [], [])"
proof -
  have "handleUploadOpen scripted (example_env 1 7) 0 ''/a.pdf'' demo_session [404, 200] = (Inr 0, demo_open, [])"
    using demo4 by (simp add: demo_open_def prod_eq_iff)
  from bstep.Open [OF demo6(2-4) this] show ?thesis .
qed

lemma demo_writes: "demo_step (demo_open, [], w) (demo_written, [], w)"
proof -
  have "writer_Write (example_env 2 7) 0 ''hello'' demo_open = ((5, None), demo_written)"
    using split_run [OF demo5] by (simp add: demo_written_def)
  then show ?thesis by (rule bstep.Write)
qed

lemma demo_run: "demo_step\<^sup>*\<^sup>* (demo_new, [], [404, 200]) (demo_written, [], [])"
  using demo_connect demo_enter demo_finish demo_opens demo_writes
  by (meson rtranclp.rtrancl_into_rtrancl rtranclp.rtrancl_refl)

end
