(* ===== verification/BridgeProps.thy ===== *)
theory BridgeProps
  imports BridgeExample
begin

text \<open>
  What the FTP driver promises in every state it can reach from a validated configuration, whatever
  the clients, the network, the disk and the janitor do, and in whatever order.
\<close>

section \<open>Reachable states\<close>

definition reaches ::
  "id_key \<Rightarrow> 'w sdk \<Rightarrow> 'w net \<Rightarrow> Config \<Rightarrow> BridgeDriver \<times> login list \<times> 'w \<Rightarrow> bool"
where
  "reaches IDKey sdk net cfg c \<longleftrightarrow> (\<exists>env sp w. config_valid env cfg \<and> uploads sp = []
     \<and> (bstep IDKey sdk net)\<^sup>*\<^sup>* (NewBridgeDriver cfg sp, [], w) c)"

lemma reaches_inv:
  assumes "reaches IDKey sdk net cfg c"
  shows "reach_inv cfg c"
proof -
  obtain env sp w where v: "config_valid env cfg" "uploads sp = []"
    "(bstep IDKey sdk net)\<^sup>*\<^sup>* (NewBridgeDriver cfg sp, [], w) c"
    using assms by (auto simp: reaches_def)
  have "reach_inv cfg (NewBridgeDriver cfg sp, [], w)"
    by (rule reach_inv_new [OF v(1)]) (simp add: refs_ok_def v(2))
  with v(3) show ?thesis by (rule bridge.inv_reached)
qed

lemma reaches_more: "reaches IDKey sdk net cfg c \<Longrightarrow> (bstep IDKey sdk net)\<^sup>*\<^sup>* c c' \<Longrightarrow> reaches IDKey sdk net cfg c'"
  unfolding reaches_def by (meson rtranclp_trans)

lemma reaches_bridge:
  assumes "reaches IDKey sdk net cfg (d, ls, w)"
  shows "bridge_inv (account_of cfg) d" "accounts_ok (account_of cfg)" "logins_ok d ls" "stop_ok d" "clients_ok d"
  using reaches_inv [OF assms] by (simp_all add: reach_inv_def)

lemma demo_config_valid: "config_valid an_environment demo_config"
  using the_config_valid by (simp add: config_valid_def demo_config_def auth_valid_def IsAbs_def)

lemma demo_reaches: "reaches toy_key demo_sdk scripted demo_config (demo_written, [], [])"
  unfolding reaches_def
  by (intro exI conjI, rule demo_config_valid, rule_tac [2] demo_run [unfolded demo_new_def]) (simp add: new_spool_def)

section \<open>Uploads stay in their account\<close>

text \<open>C1. In every reachable state, every upload belongs to a session of a configured account, and the
  path it is bound for is clean, absolute and strictly below the root of that account.\<close>

theorem uploads_stay_in_account:
  assumes "reaches IDKey sdk net cfg (d, ls, w)" and "map_of (br_writers d) k = Some x"
  shows "\<exists>s. map_of (br_sessions d) (uw_session x) = Some s \<and> cd_account s \<in> set (Accounts cfg)
    \<and> Username (cd_account s) = cd_user s \<and> inside (Target_Root (Target (cd_account s))) (su_path (uw_spool x))"
proof -
  note D = bridge_invD [OF reaches_bridge(1) [OF assms(1)]]
  obtain s where s: "map_of (br_sessions d) (uw_session x) = Some s"
    "inside (Target_Root (Target (cd_account s))) (su_path (uw_spool x))"
    using D(8) [OF assms(2)] by (auto simp: writer_ok_def)
  have "account_of cfg (cd_user s) = Some (cd_account s)" using D(7) [OF s(1)] by (simp add: session_ok_def)
  then show ?thesis using s account_of_Some by blast
qed

theorem uploads_stay_in_account_witness:
  "\<exists>x s. map_of (br_writers demo_written) 0 = Some x \<and> map_of (br_sessions demo_written) (uw_session x) = Some s
     \<and> inside (Target_Root (Target (cd_account s))) (su_path (uw_spool x))"
proof -
  obtain x where x: "map_of (br_writers demo_written) 0 = Some x" using demo6(1) by (auto simp: tracked_def)
  then show ?thesis using uploads_stay_in_account [OF demo_reaches x] by blast
qed

section \<open>Upload slots\<close>

text \<open>C7. In every reachable state, the slots in use of an account with a cap are exactly the uploads
  its sessions have open, over all connections, and at most the cap. (The states are those between
  operations: while an open is on its way, its slot is taken before its upload is in the table.)\<close>

theorem open_uploads_within_cap:
  assumes "reaches IDKey sdk net cfg (d, ls, w)" and "account_of cfg u = Some a"
    and "0 < MaxConcurrentUploads (Upload_of a)"
  shows "slots_used (br_slots d) u = open_uploads u (br_sessions d)
    \<and> int (open_uploads u (br_sessions d)) \<le> MaxConcurrentUploads (Upload_of a)"
proof -
  have ok: "slots_ok (account_of cfg) (br_slots d) (br_sessions d)"
    by (rule bridge_invD(6) [OF reaches_bridge(1) [OF assms(1)]])
  have c: "cap_of (account_of cfg) u = MaxConcurrentUploads (Upload_of a)" using assms(2) by (simp add: cap_of_def)
  have "slots_used (br_slots d) u \<le> nat (cap_of (account_of cfg) u)"
    using ok slots_capped by (simp add: slots_ok_def)
  moreover have "slots_used (br_slots d) u = open_uploads u (br_sessions d)"
    using ok assms(3) c by (simp add: slots_ok_def)
  ultimately show ?thesis using c assms(3) by simp
qed

theorem open_uploads_within_cap_witness:
  "slots_used (br_slots demo_written) ''scanner'' = 1 \<and> open_uploads ''scanner'' (br_sessions demo_written) = 1"
proof -
  have a: "account_of demo_config ''scanner'' = Some the_account"
    by (simp add: account_of_def demo_config_def the_config_def the_account_def an_account_def)
  have "0 < MaxConcurrentUploads (Upload_of the_account)" by (simp add: the_account_def an_account_def)
  from open_uploads_within_cap [OF demo_reaches a this]
  have "slots_used (br_slots demo_written) ''scanner'' = open_uploads ''scanner'' (br_sessions demo_written)" by blast
  moreover have "slots_used (br_slots demo_written) ''scanner'' = 1" by code_simp
  ultimately show ?thesis by simp
qed

section \<open>Concurrent password checks\<close>

text \<open>C21. In every reachable state, the logins that hold a slot of the verification semaphore are
  those between their two parts, and there are at most four of them.\<close>

theorem verifications_bounded:
  assumes "reaches IDKey sdk net cfg (d, ls, w)"
  shows "br_authSem d = length ls \<and> length ls \<le> 4"
  using reaches_bridge(3) [OF assms] by (simp add: logins_ok_def maxConcurrentVerifications_def)

theorem verifications_bounded_witness: "br_authSem demo_written = 0"
  using verifications_bounded [OF demo_reaches] by simp

end
