(* ===== verification/BridgeCommits.thy ===== *)
theory BridgeCommits
  imports BridgeProps WebdavProps
begin

text \<open>
  The end of an upload: when closing a file reports success, the server has accepted the whole of
  it, at a path of the account; when its session has ended, nothing is sent any more.
\<close>

section \<open>What a commit sends\<close>

text \<open>The URL that a path is uploaded to.\<close>

definition put_url :: "'w net \<Rightarrow> webdavClient \<Rightarrow> string \<Rightarrow> string option" where
  "put_url net c path =
     (case normalizePath path of
        Inl e \<Rightarrow> None
      | Inr np \<Rightarrow> Option.bind (full_url net c np) (parse_url net))"

lemma attempts_url:
  "attempts (logged net) c url sz ow np k left le b (w, log) = ((None, b'), (w', log')) \<Longrightarrow>
     (1 < k \<longrightarrow> le \<noteq> None) \<Longrightarrow> \<exists>url'. parse_url net url = Some url' \<and> log' \<noteq> [] \<and> rq_url (fst (last log')) = url'"
proof (induction left arbitrary: k le b w log)
  case (Suc left)
  obtain x w1 log1 where p: "prepare (logged net) k le b (w, log) = (x, (w1, log1))"
    by (metis prod.collapse)
  show ?case
  proof (cases x)
    case (Inl e1)
    with Suc.prems p have "e1 = None" by simp
    with p Inl Suc.prems(2) show ?thesis
      by (auto simp: prepare_def split: if_splits option.splits prod.splits bool.splits)
  next
    case (Inr b1)
    obtain e2 b2 w2 log2 where d: "doUpload (logged net) c url b1 sz ow np (w1, log1) = ((e2, b2), (w2, log2))"
      by (metis prod.collapse)
    show ?thesis
    proof (cases e2)
      case None
      then have "log' = log2" using Suc.prems(1) p Inr d by simp
      moreover have "\<exists>url' r. parse_url net url = Some url' \<and> log2 = log1 @ [(upload_request c url' b1 sz ow, r)]"
        using d None by (auto simp: doUpload_def logged_def split: option.splits prod.splits sum.splits)
      ultimately show ?thesis by (auto simp: upload_request_def)
    next
      case (Some e3)
      then have "attempts (logged net) c url sz ow np (Suc k) left (Some e3) b2 (w2, log2) = ((None, b'), (w', log'))"
        using Suc.prems(1) p Inr d by (simp split: if_splits)
      then show ?thesis by (rule Suc.IH) simp
    qed
  qed
qed simp

lemma UploadStream_url:
  assumes "UploadStream (logged net) c path (Some b) sz ow (w, log0) = ((None, b'), (w', log'))"
  shows "\<exists>url. put_url net c path = Some url \<and> log' \<noteq> [] \<and> rq_url (fst (last log')) = url"
proof -
  obtain np url where np: "normalizePath path = Inr np" "full_url (logged net) c np = Some url"
    using assms by (auto simp: UploadStream_def split: if_splits sum.splits option.splits prod.splits)
  obtain e2 b2 w2 where a: "attempts (logged net) c url sz ow np 1 3 None b (w, log0) = ((e2, b2), w2)"
    by (metis prod.collapse)
  then have "attempts (logged net) c url sz ow np 1 3 None b (w, log0) = ((None, b2), (w', log'))"
    using assms np by (auto simp: UploadStream_def uploadMaxAttempts_def split: if_splits)
  from attempts_url [OF this] obtain url' where "parse_url net url = Some url'" "log' \<noteq> []" "rq_url (fst (last log')) = url'"
    by auto
  moreover have "full_url net c np = Some url" using np(2) by (simp add: full_url_def logged_def)
  ultimately show ?thesis using np(1) by (simp add: put_url_def)
qed

text \<open>The last request of a successful commit.\<close>

definition delivered :: "'w net \<Rightarrow> webdavClient \<Rightarrow> string \<Rightarrow> int \<Rightarrow> bool \<Rightarrow> string \<Rightarrow> exchange \<Rightarrow> bool" where
  "delivered net c content sz ow path x \<longleftrightarrow>
     whole_put c content sz ow (fst x) \<and> Some (rq_url (fst x)) = put_url net c path \<and> accepted_by_server (snd x)"

lemma open_spooled_Inr: "open_spooled env p fs = Inr b \<Longrightarrow> content_of fs p = Some (bd_content b) \<and> fresh_body b"
  by (auto simp: open_spooled_def spooled_body_def content_of_def fresh_body_def split: option.splits)

lemma commit_delivers:
  "commit_attempts (logged net) env c pol fr fs path a left (w, log) = (Inr (p, n), (w', log')) \<Longrightarrow>
     \<exists>content. content_of fs (fr_path fr) = Some content \<and> log' \<noteq> []
       \<and> delivered net c content (fr_size fr) (pol = CollisionPolicyOverwrite) p (last log')
       \<and> (pol \<noteq> CollisionPolicyRename \<longrightarrow> p = path)"
proof (induction left arbitrary: path a w log)
  case (Suc left)
  obtain b where b: "open_spooled env (fr_path fr) fs = Inr b"
    using Suc.prems by (auto split: sum.splits)
  note B = open_spooled_Inr [OF b]
  obtain e b1 w1 log1 where u: "UploadStream (logged net) c path (Some b) (fr_size fr) (pol = CollisionPolicyOverwrite) (w, log)
      = ((e, b1), (w1, log1))" by (metis prod.collapse)
  show ?case
  proof (cases e)
    case None
    then have r: "p = path" "log' = log1" using Suc.prems b u by auto
    obtain new where new: "log1 = log @ new" "new \<noteq> []" "accepted_by_server (snd (last new))"
        "\<forall>x\<in>set new. whole_put c (bd_content b) (fr_size fr) (pol = CollisionPolicyOverwrite) (fst x)"
      using UploadStream_logged [OF u] B None by auto
    have "last log1 = last new" "last new \<in> set new" using new by simp_all
    then show ?thesis
      using UploadStream_url [OF u [unfolded None]] new B by (auto simp: r delivered_def)
  next
    case (Some e1)
    then have "pol = CollisionPolicyRename"
      "commit_attempts (logged net) env c pol fr fs (retry_path path a) (Suc a) left (w1, log1) = (Inr (p, n), (w', log'))"
      using Suc.prems b u by (auto split: if_splits)
    then show ?thesis using Suc.IH by blast
  qed
qed simp

text \<open>Under a context that is done, nothing is sent and nothing is delivered.\<close>

lemma silent_commit:
  "commit_attempts (with_ctx True net) env c pol fr fs path a left w = (r, w') \<Longrightarrow> w' = w \<and> (\<exists>e. r = Inl e)"
proof (induction left arbitrary: path a w)
  case (Suc left)
  show ?case
  proof (cases "open_spooled env (fr_path fr) fs")
    case (Inr b)
    obtain e b1 w1 where u: "UploadStream (with_ctx True net) c path (Some b) (fr_size fr) (pol = CollisionPolicyOverwrite) w
        = ((e, b1), w1)" by (metis prod.collapse)
    from silent_UploadStream [OF u] obtain e1 where "e = Some e1" "w1 = w" by blast
    then show ?thesis using Suc u Inr by (auto split: if_splits)
  qed (use Suc.prems in auto)
qed auto

lemma commit_under_session:
  assumes "commit_attempts (session_net net s d) env c pol fr fs path a left w = (r, w')"
  obtains (silent) e where "r = Inl e" and "w' = w"
  | (live) "commit_attempts net env c pol fr fs path a left w = (r, w')"
  using assms unfolding session_net_def
  by (cases "ctx_done (ctxs (br_spool d)) (cd_ctx s)") (auto dest: silent_commit)

lemma move_file_present: "move_file env tmp final fs = (None, fs') \<Longrightarrow> content_of fs tmp \<noteq> None"
  by (auto simp: move_file_def Rename_def copyFile_def content_of_def Let_def split: option.splits if_splits prod.splits)

text \<open>The spooled file holds what the temporary file held.\<close>

lemma finished_content:
  assumes ok: "refs_ok s" and e: "env_ok env" and u: "map_of (uploads s) r = Some u"
    and fin: "FinishUpload env (Some r) s = (Inr fr, s')"
  shows "content_of (files s') (fr_path fr) = content_of (files s) (up_temp u) \<and> fr_size fr = up_received u"
  using fin
proof (rule FinishUpload_Inr, goal_cases)
  case (1 r0 v dir fs1 fs2)
  then have v: "v = u" "r0 = r" using u by simp_all
  obtain d n where tp: "up_temp u = temp_path d n" using ok u unfolding refs_ok_def by blast
  have ne: "up_temp u \<noteq> fr_path fr"
    using file_path_not_temp [OF Abs_path_abs [OF e 1(6)], of "up_user u" env u d n] 1(7) by (simp add: v tp)
  obtain c where c: "content_of (files s) (up_temp u) = Some c"
    using move_file_present [OF 1(8)] by (auto simp: v)
  have "content_of fs1 (fr_path fr) = Some c"
    using move_file_content [OF 1(8) _] ne c by (simp add: v)
  then have "content_of fs2 (fr_path fr) = Some c" using Chmod_content [OF 1(9)] by simp
  then show ?case using c 1(7,10) v by simp
qed

section \<open>Success means delivered\<close>

lemma close_None:
  assumes c: "writer_Close net env k d w = (None, d', w')" and x: "map_of (br_writers d) k = Some x"
    and s: "map_of (br_sessions d) (uw_session x) = Some s"
    and u: "map_of (uploads (br_spool d)) (su_upload (uw_spool x)) = Some u" and sz: "up_size u = 0"
  obtains fr sp p n where "uw_err x = None" and "FinishUpload env (Some (su_upload (uw_spool x))) (br_spool d) = (Inr fr, sp)"
    and "commitToWebDAV net env s (x\<lparr>uw_spool := (uw_spool x)\<lparr>su_fileRef := Some fr\<rparr>\<rparr>) fr
       (set_writer k (x\<lparr>uw_spool := (uw_spool x)\<lparr>su_fileRef := Some fr\<rparr>\<rparr>) (d\<lparr>br_spool := sp\<rparr>)) w = (Inr (p, n), w')"
    and "br_uploadsSuccess d' = br_uploadsSuccess d + 1"
proof -
  obtain d1 where b: "close_body net env k x s u d w = (None, d1, w')" and d': "d' = release_slot (cd_account s) d1"
    using c by (auto simp: writer_Close_def x s u split: prod.splits)
  have e: "uw_err x = None" using b by (auto simp: close_body_def Let_def split: option.splits)
  obtain f sp where f: "FinishUpload env (Some (su_upload (uw_spool x))) (br_spool d) = (f, sp)" by fastforce
  obtain fr where fr: "f = Inr fr" using b by (cases f) (auto simp: close_body_def Let_def e sz f)
  let ?x1 = "x\<lparr>uw_spool := (uw_spool x)\<lparr>su_fileRef := Some fr\<rparr>\<rparr>"
  let ?d1 = "set_writer k ?x1 (d\<lparr>br_spool := sp\<rparr>)"
  obtain q w2 where q: "commitToWebDAV net env s ?x1 fr ?d1 w = (q, w2)" by fastforce
  obtain p n where pn: "q = Inr (p, n)" "w2 = w'"
    using b by (cases q) (auto simp: close_body_def Let_def e sz f fr q)
  have "d1 = upload_done env (if n > 0 then ?x1\<lparr>uw_spool := (uw_spool ?x1)\<lparr>su_path := p\<rparr>\<rparr> else ?x1) fr
      (set_writer k (if n > 0 then ?x1\<lparr>uw_spool := (uw_spool ?x1)\<lparr>su_path := p\<rparr>\<rparr> else ?x1) ?d1)"
    using b by (simp add: close_body_def Let_def e sz f fr q pn)
  then have "br_uploadsSuccess d' = br_uploadsSuccess d + 1"
    by (simp add: d' release_slot_def upload_done_def Let_def untrack_def split: option.split)
  with that [OF e] f fr q pn show ?thesis by blast
qed

lemma close_delivers:
  assumes r: "reaches IDKey sdk net cfg (d, ls, v)"
    and c: "writer_Close (logged net') env k d (w, []) = (None, d', (w', log))"
  obtains x s u fr sp content p where "map_of (br_writers d) k = Some x" and "map_of (br_sessions d) (uw_session x) = Some s"
    and "map_of (uploads (br_spool d)) (su_upload (uw_spool x)) = Some u" and "uw_err x = None"
    and "FinishUpload env (Some (su_upload (uw_spool x))) (br_spool d) = (Inr fr, sp)"
    and "content_of (files sp) (fr_path fr) = Some content" and "log \<noteq> []"
    and "inside (Target_Root (Target (cd_account s))) p"
    and "delivered net' (cd_client s) content (fr_size fr)
         (CollisionPolicy_of (Upload_of (cd_account s)) = CollisionPolicyOverwrite) p (last log)"
    and "CollisionPolicy_of (Upload_of (cd_account s)) \<noteq> CollisionPolicyRename \<longrightarrow> p = su_path (uw_spool x)"
    and "br_uploadsSuccess d' = br_uploadsSuccess d + 1"
proof -
  note D = bridge_invD [OF reaches_bridge(1) [OF r]]
  obtain x where x: "map_of (br_writers d) k = Some x" using c by (auto simp: writer_Close_def split: option.splits)
  obtain s u where s: "map_of (br_sessions d) (uw_session x) = Some s" and u: "map_of (uploads (br_spool d)) (su_upload (uw_spool x)) = Some u"
    and sz: "up_size u = 0" and ins: "inside (Target_Root (Target (cd_account s))) (su_path (uw_spool x))"
    using D(8) [OF x] by (auto simp: writer_ok_def)
  from c x s u sz show thesis
  proof (rule close_None)
    fix fr sp p n
    let ?x1 = "x\<lparr>uw_spool := (uw_spool x)\<lparr>su_fileRef := Some fr\<rparr>\<rparr>"
    assume e: "uw_err x = None" and f: "FinishUpload env (Some (su_upload (uw_spool x))) (br_spool d) = (Inr fr, sp)"
      and q: "commitToWebDAV (logged net') env s ?x1 fr (set_writer k ?x1 (d\<lparr>br_spool := sp\<rparr>)) (w, []) = (Inr (p, n), (w', log))"
      and n: "br_uploadsSuccess d' = br_uploadsSuccess d + 1"
    have fp: "final_path s ?x1 fr = su_path (uw_spool x)" using final_path_inside [of _ ?x1 s fr] ins by simp
    obtain w1 log1 where "commit_attempts (session_net (logged net') s (set_writer k ?x1 (d\<lparr>br_spool := sp\<rparr>))) env
        (cd_client s) (CollisionPolicy_of (Upload_of (cd_account s))) fr (files sp)
        (su_path (uw_spool x)) 0 maxCommitAttempts (w1, log1) = (Inr (p, n), (w', log))"
      using q by (auto simp: commitToWebDAV_def fp split: option.splits prod.splits)
    then have a: "commit_attempts (logged net') env (cd_client s) (CollisionPolicy_of (Upload_of (cd_account s))) fr (files sp)
        (su_path (uw_spool x)) 0 maxCommitAttempts (w1, log1) = (Inr (p, n), (w', log))"
      by (cases rule: commit_under_session) simp_all
    have ip: "inside (Target_Root (Target (cd_account s))) p" by (rule commit_inside [OF q]) (simp add: ins)
    from commit_delivers [OF a] that [OF x s u e f] ip n show thesis by blast
  qed
qed

text \<open>C2. When closing an uploaded file reports success, the writes to it had all succeeded, and the
  last request the server accepted with a 2xx status is a PUT of exactly what the upload's temporary
  file held, with the credentials of the session, at the URL of a path strictly below the root of the
  account, conditional unless the policy is to overwrite; the path is the one the upload was opened
  for, unless the policy is to rename. The upload is counted as one success.\<close>

theorem success_means_delivered:
  assumes r: "reaches IDKey sdk net cfg (d, ls, v)" and env: "env_ok env"
    and c: "writer_Close (logged net') env k d (w, []) = (None, d', (w', log))"
  shows "\<exists>x s u content p. map_of (br_writers d) k = Some x \<and> map_of (br_sessions d) (uw_session x) = Some s
    \<and> map_of (uploads (br_spool d)) (su_upload (uw_spool x)) = Some u \<and> uw_err x = None
    \<and> content_of (files (br_spool d)) (up_temp u) = Some content \<and> log \<noteq> []
    \<and> inside (Target_Root (Target (cd_account s))) p
    \<and> delivered net' (cd_client s) content (up_received u)
         (CollisionPolicy_of (Upload_of (cd_account s)) = CollisionPolicyOverwrite) p (last log)
    \<and> (CollisionPolicy_of (Upload_of (cd_account s)) \<noteq> CollisionPolicyRename \<longrightarrow> p = su_path (uw_spool x))
    \<and> br_uploadsSuccess d' = br_uploadsSuccess d + 1"
  using r c
proof (rule close_delivers)
  fix x s u fr sp content p
  assume *: "map_of (br_writers d) k = Some x" "map_of (br_sessions d) (uw_session x) = Some s"
    "map_of (uploads (br_spool d)) (su_upload (uw_spool x)) = Some u" "uw_err x = None" "log \<noteq> []"
    "inside (Target_Root (Target (cd_account s))) p"
    and f: "FinishUpload env (Some (su_upload (uw_spool x))) (br_spool d) = (Inr fr, sp)"
      "content_of (files sp) (fr_path fr) = Some content"
    and dl: "delivered net' (cd_client s) content (fr_size fr)
         (CollisionPolicy_of (Upload_of (cd_account s)) = CollisionPolicyOverwrite) p (last log)"
    and rest: "CollisionPolicy_of (Upload_of (cd_account s)) \<noteq> CollisionPolicyRename \<longrightarrow> p = su_path (uw_spool x)"
      "br_uploadsSuccess d' = br_uploadsSuccess d + 1"
  note F = finished_content [OF bridge_invD(3) [OF reaches_bridge(1) [OF r]] env *(3) f(1)]
  have "content_of (files (br_spool d)) (up_temp u) = Some content"
    "delivered net' (cd_client s) content (up_received u)
       (CollisionPolicy_of (Upload_of (cd_account s)) = CollisionPolicyOverwrite) p (last log)"
    using F f(2) dl by simp_all
  with * rest show ?thesis by blast
qed

theorem success_means_delivered_witness:
  "\<exists>rq r w'. last (snd (snd (snd (writer_Close (logged scripted) (example_env 3 7) 0 demo_written ([200, 201], []))))) = (rq, r)
     \<and> rq_body rq = Some ''hello'' \<and> accepted_by_server r \<and> rq_auth rq = (''bridge'', ''tok'')"
proof -
  let ?c = "writer_Close (logged scripted) (example_env 3 7) 0 demo_written ([200, 201], [])"
  obtain e d' w' log where c: "?c = (e, d', (w', log))" by (metis prod.collapse)
  have "fst ?c = None" by code_simp
  then have "?c = (None, d', (w', log))" using c by simp
  from success_means_delivered [OF demo_reaches example_env_ok this]
  obtain x s u content p ow where o: "map_of (br_writers demo_written) 0 = Some x"
      "map_of (br_sessions demo_written) (uw_session x) = Some s"
      "map_of (uploads (br_spool demo_written)) (su_upload (uw_spool x)) = Some u"
      "content_of (files (br_spool demo_written)) (up_temp u) = Some content"
      "delivered scripted (cd_client s) content (up_received u) ow p (last log)" by blast
  have "map_option (\<lambda>s. (username (cd_client s), token (cd_client s))) (map_of (br_sessions demo_written) 0) = Some (''bridge'', ''tok'')"
    "map_option (\<lambda>u. (up_received u, content_of (files (br_spool demo_written)) (up_temp u))) (map_of (uploads (br_spool demo_written)) 0)
       = Some (5, Some ''hello'')"
    by code_simp+
  then have "username (cd_client s) = ''bridge''" "token (cd_client s) = ''tok''" "up_received u = 5" "content = ''hello''"
    using demo_writer o(1-4) by auto
  with o(5) show ?thesis by (cases "last log") (simp add: c delivered_def whole_put_def)
qed

section \<open>A session that has ended\<close>

lemma dead_upload:
  assumes inv: "bridge_inv accs d" and x: "map_of (br_writers d) k = Some x"
    and s: "map_of (br_sessions d) (uw_session x) = Some s" and dn: "ctx_done (ctxs (br_spool d)) (cd_ctx s)"
  shows "(\<exists>e d'. writer_Write env k p d = ((0, Some e), d') \<and> br_spool d' = br_spool d)
    \<and> (\<exists>e d'. writer_Close net env k d w = (Some e, d', w))"
proof -
  obtain u t where u: "map_of (uploads (br_spool d)) (su_upload (uw_spool x)) = Some u" "up_ctx u = t # cd_ctx s" "up_size u = 0"
    using bridge_invD(8) [OF inv x] s by (auto simp: writer_ok_def)
  have dn': "ctx_done (ctxs (br_spool d)) (up_ctx u)" using dn by (simp add: u(2) ctx_done_def)
  have "\<exists>e d'. writer_Write env k p d = ((0, Some e), d') \<and> br_spool d' = br_spool d"
    using x u dn' by (cases "uw_err x") (auto simp: writer_Write_def fail_writer_def)
  moreover have "\<exists>e d'. writer_Close net env k d w = (Some e, d', w)"
  proof (cases "uw_err x")
    case None
    have "FinishUpload env (Some (su_upload (uw_spool x))) (br_spool d) = (Inl Spool.ErrUploadCancelled, br_spool d)"
      using u dn' by (simp add: FinishUpload_def)
    then show ?thesis using x s u None by (simp add: writer_Close_def close_body_def Let_def)
  next
    case (Some e)
    then show ?thesis using x s u by (simp add: writer_Close_def close_body_def Let_def)
  qed
  ultimately show ?thesis by blast
qed

lemma reached_later:
  assumes "(bstep IDKey sdk net)\<^sup>*\<^sup>* c c'" and "reach_inv cfg c"
  shows "later (fst c) (fst c')"
  using assms(1)
proof (induction rule: rtranclp_induct)
  case base
  obtain d ls w where c: "c = (d, ls, w)" by (metis prod.collapse)
  have "refs_ok (br_spool d)" using assms(2) bridge_invD(3) by (auto simp: reach_inv_def c)
  then show ?case using later_same [of d d] grows_refl by (simp add: c)
next
  case (step y z)
  obtain d ls w d' ls' w' where c: "y = (d, ls, w)" "z = (d', ls', w')" by (metis prod.collapse)
  have "reach_inv cfg y" by (rule bridge.inv_reached [OF step(1) assms(2)])
  then have "bridge_inv (account_of cfg) d" by (simp add: reach_inv_def c)
  from bstep_later [OF step(2) c this] step(3) later_trans show ?case by (fastforce simp: c)
qed

lemma ended_upload:
  assumes r: "reaches IDKey sdk net cfg (d1, ls1, w1)"
    and stop: "d2 = Shutdown d1 \<or> (\<exists>c addr. d2 = ClientDisconnected c addr d1 \<and> map_of (br_clients d1) c = Some (uw_session x))"
    and run: "(bstep IDKey sdk net)\<^sup>*\<^sup>* (d2, ls1, w1) (d, ls, w)" and x: "map_of (br_writers d) k = Some x"
  shows "(\<exists>e d'. writer_Write env k p d = ((0, Some e), d') \<and> br_spool d' = br_spool d)
    \<and> (\<exists>e d'. writer_Close net' env k d v = (Some e, d', v))"
proof -
  have st: "bstep IDKey sdk net (d1, ls1, w1) (d2, ls1, w1)" using stop bstep.Stop bstep.Disconnect by metis
  have r2: "reaches IDKey sdk net cfg (d2, ls1, w1)" by (rule reaches_more [OF r]) (use st in blast)
  have rd: "reaches IDKey sdk net cfg (d, ls, w)" by (rule reaches_more [OF r2 run])
  have l: "later d2 d" using reached_later [OF run reaches_inv [OF r2]] by simp
  note D = bridge_invD [OF reaches_bridge(1) [OF rd]]
  obtain s where s: "map_of (br_sessions d) (uw_session x) = Some s" using D(8) [OF x] by (auto simp: writer_ok_def)
  have "ctx_done (ctxs (br_spool d)) (cd_ctx s)"
    using stop
  proof (elim disjE exE conjE)
    assume "d2 = Shutdown d1"
    then have "br_shutdown d2" by (simp add: Shutdown_def)
    then have "ctx_done (ctxs (br_spool d2)) (br_ctx d2)" using reaches_bridge(4) [OF r2] by (simp add: stop_ok_def)
    then have "ctx_done (ctxs (br_spool d)) (br_ctx d)" using later_done [OF l] l by (simp add: later_def)
    moreover obtain t where "cd_ctx s = t # br_ctx d" using D(7) [OF s] by (auto simp: session_ok_def)
    ultimately show ?thesis by (simp add: ctx_done_def)
  next
    fix c addr
    assume d2: "d2 = ClientDisconnected c addr d1" and c: "map_of (br_clients d1) c = Some (uw_session x)"
    obtain s1 where s1: "map_of (br_sessions d1) (uw_session x) = Some s1"
      using reaches_bridge(5) [OF r] c unfolding clients_ok_def by blast
    have ne: "cd_ctx s1 \<noteq> []" using bridge_invD(7) [OF reaches_bridge(1) [OF r] s1] by (auto simp: session_ok_def)
    have "ctx_done (ctxs (br_spool d2)) (cd_ctx s1)"
      using c s1 ne by (simp add: d2 disconnect_spool ctx_done_cancel_self)
    then have dn: "ctx_done (ctxs (br_spool d)) (cd_ctx s1)" by (rule later_done [OF l])
    have "br_sessions d2 = br_sessions d1" using same_core_disconnect by (simp add: d2 same_core_def)
    then have "cd_ctx s = cd_ctx s1" using l s1 s by (fastforce simp: later_def sessions_grow_def)
    with dn show ?thesis by simp
  qed
  then show ?thesis by (rule dead_upload [OF reaches_bridge(1) [OF rd] x s])
qed

text \<open>A shutdown is for good, and after it opening a file sends nothing and no login begins.\<close>

lemma shutdown_step:
  assumes "bstep IDKey sdk net c c'" and "br_shutdown (fst c)"
  shows "br_shutdown (fst c')"
  using assms
proof (cases rule: bstep.cases)
  case (Connect c addr d r d' ls w)
  then show ?thesis using assms(2) connect_rest by force
next
  case (Disconnect d ls w c addr)
  then show ?thesis using assms(2) by (simp add: disconnect_rest)
next
  case (Refuse t addr d e d' ls w)
  then show ?thesis using assms(2) enter_rest by force
next
  case (Enter t addr d d' ls w c user pw)
  then show ?thesis using assms(2) enter_rest by force
next
  case (Finish c addr user pw ls t t' d w r d' w')
  then show ?thesis using assms(2) finish_rest by force
next
  case (Open r d path env w k d' w' ls)
  then show ?thesis using assms(2) open_settled by (force simp: settled_def)
next
  case (Write env k p d n d' ls w)
  then show ?thesis using assms(2) write_settled [of env k p d n d'] by (simp add: settled_def)
next
  case (Close k d env w e d' w' ls)
  then show ?thesis using assms(2) close_settled by (force simp: settled_def)
next
  case (Tick d ls w t)
  then show ?thesis using assms(2) by (simp add: tick_rest)
next
  case (Stop d ls w)
  then show ?thesis by (simp add: Shutdown_def)
qed

lemma shutdown_stays: "(bstep IDKey sdk net)\<^sup>*\<^sup>* c c' \<Longrightarrow> br_shutdown (fst c) \<Longrightarrow> br_shutdown (fst c')"
  by (induction rule: rtranclp_induct) (auto intro: shutdown_step)

lemma shutdown_silent:
  assumes r: "reaches IDKey sdk net cfg (d, ls, w)" and sh: "br_shutdown d"
  shows "snd (snd (handleUploadOpen net' env q path d v)) = v" and "fst (auth_enter t addr d) \<noteq> None"
proof -
  note R = reaches_bridge [OF r]
  have dn: "ctx_done (ctxs (br_spool d)) (br_ctx d)" using R(4) sh by (simp add: stop_ok_def)
  show "snd (snd (handleUploadOpen net' env q path d v)) = v"
  proof (cases "map_of (br_sessions d) q")
    case None
    then show ?thesis by (simp add: handleUploadOpen_def)
  next
    case (Some s)
    note s = this
    show ?thesis
    proof (cases "map_of (br_transfers d) (cd_user s)")
      case None
      then show ?thesis using s by (simp add: handleUploadOpen_def transferManagerFor_def)
    next
      case (Some tm)
      then have "tm_context tm = br_ctx d" using bridge_invD(2) [OF R(1)] by (simp add: managers_ok_def)
      then have n: "manager_net net' tm d = with_ctx True net'" using dn by (simp add: manager_net_def)
      obtain res tm1 v1 where p: "ProcessUpload (with_ctx True net') (now env) (upload_request_of s path) tm v = (res, tm1, v1)"
        by (metis prod.collapse)
      from silent_ProcessUpload [OF p] have "v1 = v" .
      then show ?thesis using s Some p n
        by (auto simp: handleUploadOpen_def transferManagerFor_def Let_def
            split: if_splits option.splits sum.splits prod.splits)
    qed
  qed
  show "fst (auth_enter t addr d) \<noteq> None" using sh by (auto simp: auth_enter_def Let_def split: prod.split)
qed

text \<open>C9. Once the driver has been shut down, or the client of a session has disconnected, no upload
  of the session is ever written or committed: whatever happens in between, a write accepts nothing and
  leaves the spool alone, and closing the file reports an error without any request to the server.\<close>

theorem ended_session_sends_nothing:
  assumes r: "reaches IDKey sdk net cfg (d1, ls1, w1)"
    and stop: "d2 = Shutdown d1 \<or> (\<exists>c addr. d2 = ClientDisconnected c addr d1 \<and> map_of (br_clients d1) c = Some (uw_session x))"
    and run: "(bstep IDKey sdk net)\<^sup>*\<^sup>* (d2, ls1, w1) (d, ls, w)" and x: "map_of (br_writers d) k = Some x"
  shows "(\<exists>e d'. writer_Write env k p d = ((0, Some e), d') \<and> br_spool d' = br_spool d)
    \<and> (\<exists>e d'. writer_Close net' env k d v = (Some e, d', v))"
  by (rule ended_upload [OF r stop run x])

theorem ended_session_sends_nothing_witness:
  "\<exists>e d'. writer_Close scripted (example_env 9 7) 0 (ClientDisconnected 1 demo_addr demo_written) [200, 201] = (Some e, d', [200, 201])"
proof -
  obtain x where x: "map_of (br_writers demo_written) 0 = Some x" using demo6(1) by (auto simp: tracked_def)
  have "uw_session x = 0" using demo_writer x by simp
  moreover have "map_of (br_clients demo_written) 1 = Some 0" by code_simp
  ultimately have s: "map_of (br_clients demo_written) 1 = Some (uw_session x)" by simp
  have x': "map_of (br_writers (ClientDisconnected 1 demo_addr demo_written)) 0 = Some x"
    using x same_core_disconnect by (simp add: same_core_def)
  have "ClientDisconnected 1 demo_addr demo_written = Shutdown demo_written \<or>
    (\<exists>c addr. ClientDisconnected 1 demo_addr demo_written = ClientDisconnected c addr demo_written
       \<and> map_of (br_clients demo_written) c = Some (uw_session x))" using s by blast
  then show ?thesis by (rule conjunct2 [OF ended_session_sends_nothing [OF demo_reaches _ rtranclp.rtrancl_refl x']])
qed

end
