(* ===== verification/BridgeContent.thy ===== *)
theory BridgeContent
  imports BridgeCommits SpoolContent
begin

text \<open>
  End to end: the bytes a client writes to a file are the bytes that the server accepts when the file is closed,
  whatever the other sessions do in between.
\<close>

section \<open>Runs that remember what was written\<close>

text \<open>The names a machine draws for an upload have not been drawn before: the random part of its temporary
  file, and its identifier, which is a digest.\<close>

definition fresh_names :: "'w net \<Rightarrow> os_env \<Rightarrow> nat \<Rightarrow> string \<Rightarrow> BridgeDriver \<Rightarrow> 'w \<Rightarrow> bool" where
  "fresh_names net env r path d w \<longleftrightarrow> fresh_temps env (br_spool d) \<and>
     (case map_of (br_sessions d) r of
        None \<Rightarrow> True
      | Some s \<Rightarrow>
          (case transferManagerFor (cd_user s) d of
             None \<Rightarrow> True
           | Some tm \<Rightarrow>
               (let res = fst (ProcessUpload (manager_net net tm d) (now env) (upload_request_of s path) tm w)
                in fresh_id (generateUploadID env (cd_user s) (ts_filename res) (ts_targetPath res)) (br_spool d))))"

text \<open>The bytes counted by the spool and the chunk do not add up to \<open>2 ^ 64\<close>.\<close>

definition room_for :: "nat \<Rightarrow> string \<Rightarrow> BridgeDriver \<Rightarrow> bool" where
  "room_for k p d \<longleftrightarrow>
     (case map_of (br_writers d) k of None \<Rightarrow> True | Some x \<Rightarrow> write_fits (Some (su_upload (uw_spool x))) p (br_spool d))"

text \<open>The runs of the driver, with the data that each open file has accepted: \<open>g k\<close> for the upload \<open>k\<close>.\<close>

inductive written ::
  "id_key \<Rightarrow> 'w sdk \<Rightarrow> 'w net \<Rightarrow> Config \<Rightarrow> (nat \<Rightarrow> string) \<Rightarrow> BridgeDriver \<times> login list \<times> 'w \<Rightarrow> bool"
  for IDKey :: id_key and sdk :: "'w sdk" and net :: "'w net" and cfg :: Config
where
  New: "config_valid env cfg \<Longrightarrow> spool_inv sp \<Longrightarrow> uploads sp = [] \<Longrightarrow>
     written IDKey sdk net cfg (\<lambda>_. '''') (NewBridgeDriver cfg sp, [], w)"
| Open: "written IDKey sdk net cfg g (d, ls, w) \<Longrightarrow> may_open r d \<Longrightarrow> IsAbs path \<Longrightarrow> Clean path = path \<Longrightarrow>
     fresh_names net env r path d w \<Longrightarrow> handleUploadOpen net env r path d w = (k, d', w') \<Longrightarrow>
     written IDKey sdk net cfg g (d', ls, w')"
| Write: "written IDKey sdk net cfg g (d, ls, w) \<Longrightarrow> room_for k p d \<Longrightarrow> writer_Write env k p d = ((n, e), d') \<Longrightarrow>
     written IDKey sdk net cfg (if e = None then g(k := g k @ p) else g) (d', ls, w)"
| Close: "written IDKey sdk net cfg g (d, ls, w) \<Longrightarrow> tracked k d \<Longrightarrow> env_ok env \<Longrightarrow>
     writer_Close net env k d w = (e, d', w') \<Longrightarrow> written IDKey sdk net cfg g (d', ls, w')"
| Other: "written IDKey sdk net cfg g (d, ls, w) \<Longrightarrow> bstep IDKey sdk net (d, ls, w) (d', ls', w') \<Longrightarrow>
     br_spool d' = (br_spool d)\<lparr>ctxs := cs\<rparr> \<Longrightarrow> br_writers d' = br_writers d \<Longrightarrow>
     written IDKey sdk net cfg g (d', ls', w')"

lemma written_reaches: "written IDKey sdk net cfg g c \<Longrightarrow> reaches IDKey sdk net cfg c"
proof (induction rule: written.induct)
  case (New env sp w)
  then show ?case unfolding reaches_def by blast
next
  case (Open g d ls w r path env k d' w')
  show ?case by (rule reaches_more [OF Open.IH r_into_rtranclp]) (rule bstep.Open [OF Open(2,3,4) Open(6)])
next
  case (Write g d ls w k p env n e d')
  show ?case by (rule reaches_more [OF Write.IH r_into_rtranclp]) (rule bstep.Write [OF Write(3)])
next
  case (Close g d ls w k env e d' w')
  show ?case by (rule reaches_more [OF Close.IH r_into_rtranclp]) (rule bstep.Close [OF Close(2,4)])
next
  case (Other g d ls w d' ls' w' cs)
  show ?case by (rule reaches_more [OF Other.IH r_into_rtranclp]) (rule Other(2))
qed

text \<open>Nothing else is left out: any other step of the driver is remembered too.\<close>

lemma other_same:
  assumes "same_core d d'" and "br_spool d' = br_spool d"
  shows "br_spool d' = (br_spool d)\<lparr>ctxs := ctxs (br_spool d)\<rparr> \<and> br_writers d' = br_writers d"
  using assms by (simp add: same_core_def)

lemma step_is_remembered:
  assumes r: "written IDKey sdk net cfg g (d, ls, w)" and st: "bstep IDKey sdk net (d, ls, w) (d', ls', w')"
  shows "(\<exists>g'. written IDKey sdk net cfg g' (d', ls', w'))
    \<or> (\<exists>env r path k. handleUploadOpen net env r path d w = (k, d', w') \<and> \<not> fresh_names net env r path d w)
    \<or> (\<exists>env k p x. writer_Write env k p d = (x, d') \<and> \<not> room_for k p d)
    \<or> (\<exists>env k e. writer_Close net env k d w = (e, d', w') \<and> \<not> env_ok env)"
proof -
  have other: ?thesis if "br_spool d' = (br_spool d)\<lparr>ctxs := cs\<rparr> \<and> br_writers d' = br_writers d" for cs
    using written.Other [OF r st] that by blast
  from st show ?thesis
  proof (cases rule: bstepE [consumes 1, case_names Connect Disconnect Refuse Enter Finish Open Write Close Tick Stop])
    case (Connect c addr r)
    then show ?thesis by (intro other [OF other_same [OF same_core_connect connect_spool]])
  next
    case (Disconnect c addr)
    have w: "br_writers d' = br_writers d" using same_core_disconnect Disconnect by (simp add: same_core_def)
    show ?thesis
    proof (cases "Option.bind (map_of (br_clients d) c) (map_of (br_sessions d))")
      case None
      then show ?thesis using other [of "ctxs (br_spool d)"] w Disconnect by (simp add: disconnect_spool)
    next
      case (Some s)
      then show ?thesis using other [of "cancel_ctx (cd_ctx s) (ctxs (br_spool d))"] w Disconnect by (simp add: disconnect_spool)
    qed
  next
    case (Refuse t addr e)
    then show ?thesis by (intro other [OF other_same [OF same_core_enter enter_spool]])
  next
    case (Enter t addr c user pw)
    show ?thesis by (rule other [OF other_same [OF same_core_enter enter_spool]]) (rule Enter)+
  next
    case (Finish c addr user pw t t' r1)
    then obtain d1 where b: "auth_body IDKey sdk t t' c addr user pw d w = (r1, d1, w')" and d': "d' = auth_leave d1"
      by (auto simp: auth_finish_def split: prod.splits)
    have l: "br_spool d' = br_spool d1" "br_writers d' = br_writers d1" by (simp_all add: d' auth_leave_def)
    from b show ?thesis
    proof (cases rule: auth_body_cases)
      case (failed e)
      show ?thesis using other_same [OF failed(2,3)] by (intro other [of "ctxs (br_spool d)"]) (simp add: l)
    next
      case (ok a drive cache ctx cs)
      then show ?thesis using other [of cs] l by simp
    qed
  next
    case (Open r1 path env k)
    then show ?thesis using written.Open [OF r] by blast
  next
    case (Write env k p n)
    then obtain m e where n: "n = (m, e)" by fastforce
    with Write show ?thesis using written.Write [OF r] by blast
  next
    case (Close k env e)
    then show ?thesis using written.Close [OF r] by blast
  next
    case (Tick t)
    have "br_spool d' = (br_spool d)\<lparr>ctxs := ctxs (br_spool d)\<rparr> \<and> br_writers d' = br_writers d"
      unfolding Tick by (rule other_same [OF same_core_tick tick_spool])
    then show ?thesis by (rule other)
  next
    case Stop
    have w: "br_writers d' = br_writers d" using same_core_stop Stop by (simp add: same_core_def)
    show ?thesis
      using other [of "if br_shutdown d then ctxs (br_spool d) else cancel_ctx (br_ctx d) (ctxs (br_spool d))"] w Stop
      by (simp add: stop_spool split: if_splits)
  qed
qed

section \<open>The invariant\<close>

definition held :: "(nat \<Rightarrow> string) \<Rightarrow> BridgeDriver \<Rightarrow> bool" where
  "held g d \<longleftrightarrow> content_inv (br_spool d)
     \<and> (\<forall>k x. map_of (br_writers d) k = Some x \<longrightarrow> uw_err x = None \<longrightarrow> follows (su_upload (uw_spool x)) (g k) (br_spool d))
     \<and> (\<forall>k. map_of (br_writers d) k = None \<longrightarrow> g k = '''')
     \<and> (\<forall>k x. map_of (br_writers d) k = Some x \<longrightarrow> su_upload (uw_spool x) < next_ref (br_spool d))
     \<and> (\<forall>j k x y. map_of (br_writers d) j = Some x \<longrightarrow> map_of (br_writers d) k = Some y \<longrightarrow>
          su_upload (uw_spool x) = su_upload (uw_spool y) \<longrightarrow> j = k)"

lemma heldD:
  assumes "held g d"
  shows "content_inv (br_spool d)"
    "map_of (br_writers d) k = Some x \<Longrightarrow> uw_err x = None \<Longrightarrow> follows (su_upload (uw_spool x)) (g k) (br_spool d)"
    "map_of (br_writers d) k = None \<Longrightarrow> g k = ''''"
    "map_of (br_writers d) k = Some x \<Longrightarrow> su_upload (uw_spool x) < next_ref (br_spool d)"
    "map_of (br_writers d) j = Some x \<Longrightarrow> map_of (br_writers d) k = Some y \<Longrightarrow> su_upload (uw_spool x) = su_upload (uw_spool y) \<Longrightarrow> j = k"
  using assms unfolding held_def by blast+

text \<open>A step that replaces the upload \<open>k\<close> by one at the same place.\<close>

lemma held_set:
  assumes h: "held g d" and x: "map_of (br_writers d) k = Some x"
    and w: "map_of (br_writers d') = (map_of (br_writers d))(k \<mapsto> x')" and sp: "su_upload (uw_spool x') = su_upload (uw_spool x)"
    and c: "content_inv (br_spool d')" and n: "next_ref (br_spool d) \<le> next_ref (br_spool d')"
    and own: "uw_err x' = None \<Longrightarrow> follows (su_upload (uw_spool x)) c' (br_spool d')"
    and others: "\<And>r c. r \<noteq> su_upload (uw_spool x) \<Longrightarrow> follows r c (br_spool d) \<Longrightarrow> follows r c (br_spool d')"
  shows "held (g(k := c')) d'"
proof -
  note H = heldD [OF h]
  have get: "\<exists>z. map_of (br_writers d) j = Some z \<and> su_upload (uw_spool y) = su_upload (uw_spool z) \<and> (j \<noteq> k \<longrightarrow> y = z)"
    if "map_of (br_writers d') j = Some y" for j y
    using that x sp by (cases "j = k") (auto simp: w)
  show ?thesis unfolding held_def
  proof (intro conjI allI impI)
    fix j y assume y: "map_of (br_writers d') j = Some y" "uw_err y = None"
    show "follows (su_upload (uw_spool y)) ((g(k := c')) j) (br_spool d')"
    proof (cases "j = k")
      case True
      then have "y = x'" using y(1) by (simp add: w)
      then show ?thesis using own y(2) sp True by simp
    next
      case False
      then have z: "map_of (br_writers d) j = Some y" using y(1) by (simp add: w)
      have "su_upload (uw_spool y) \<noteq> su_upload (uw_spool x)" using H(5) [OF z x] False by blast
      then show ?thesis using others H(2) [OF z y(2)] False by simp
    qed
  next
    fix j assume "map_of (br_writers d') j = None"
    then show "(g(k := c')) j = ''''" using H(3) [of j] by (auto simp: w split: if_splits)
  next
    fix j y assume "map_of (br_writers d') j = Some y"
    from get [OF this] H(4) n show "su_upload (uw_spool y) < next_ref (br_spool d')" by (metis order_less_le_trans)
  next
    fix i j y z assume "map_of (br_writers d') i = Some y" "map_of (br_writers d') j = Some z"
      and "su_upload (uw_spool y) = su_upload (uw_spool z)"
    then show "i = j" using get H(5) by metis
  qed (rule c)
qed

text \<open>A step that leaves the table of uploads alone.\<close>

lemma held_same:
  assumes h: "held g d" and w: "br_writers d' = br_writers d" and c: "content_inv (br_spool d')"
    and n: "next_ref (br_spool d) \<le> next_ref (br_spool d')"
    and f: "\<And>r c. follows r c (br_spool d) \<Longrightarrow> follows r c (br_spool d')"
  shows "held g d'"
  unfolding held_def w
proof (intro conjI allI impI)
  fix k x assume "map_of (br_writers d) k = Some x"
  from heldD(4) [OF h this] n show "su_upload (uw_spool x) < next_ref (br_spool d')" by simp
qed (use c f heldD [OF h] in blast)+

section \<open>Contexts and deleted files\<close>

lemma content_inv_frame:
  assumes c: "content_inv s" and u: "uploads s' = uploads s" "activeUploads s' = activeUploads s" "next_ref s' = next_ref s"
    "currentUsage s' = currentUsage s" "maxTotalSize s' = maxTotalSize s"
    and d: "\<And>x. ctx_done (ctxs s) x \<Longrightarrow> ctx_done (ctxs s') x"
  shows "content_inv s'"
proof -
  have r: "received s' = received s" by (simp add: received_def u fun_eq_iff)
  have "upload_ok s' r v" if "upload_ok s r v" for r v using that d by (auto simp: upload_ok_def u)
  then show ?thesis
    using c by (simp add: content_inv_def spool_inv_def active_ok_def ids_unique_def temps_ok_def u r)
qed

lemma held_ctxs:
  assumes h: "held g d" and s: "br_spool d' = (br_spool d)\<lparr>ctxs := cs\<rparr>" and w: "br_writers d' = br_writers d"
    and d: "\<And>x. ctx_done (ctxs (br_spool d)) x \<Longrightarrow> ctx_done cs x"
  shows "held g d'"
  using h w
proof (rule held_same)
  show "content_inv (br_spool d')" by (rule content_inv_frame [OF heldD(1) [OF h]]) (simp_all add: s d)
qed (simp_all add: s follows_def split: option.splits)

lemma held_delete:
  assumes c: "content_inv s" and e: "env_ok env" and p: "p = JoinPath [user_dir dir user, generateFileID env0 u0]" "IsAbs dir"
  shows "content_inv (snd (DeleteByPath env p s))" and "next_ref (snd (DeleteByPath env p s)) = next_ref s"
    and "follows r x s \<Longrightarrow> follows r x (snd (DeleteByPath env p s))"
proof -
  let ?s = "snd (DeleteByPath env p s)"
  have a: "IsAbs p" "Clean p = p" unfolding p(1) using JoinPath_Clean JoinPath_abs p(2) by (simp_all add: user_dir_def)
  have q: "Abs_path env p = Inr p" using a by (simp add: Abs_path_rooted)
  have sel: "uploads ?s = uploads s" "activeUploads ?s = activeUploads s" "next_ref ?s = next_ref s" "ctxs ?s = ctxs s"
    "currentUsage ?s = currentUsage s" "maxTotalSize ?s = maxTotalSize s"
    by (auto simp: DeleteByPath_def split: if_splits sum.splits prod.splits option.splits os_error.splits)
  have oc: "only_changes {p} (files s) (files ?s)"
    using only_changes_ops(3)
    by (auto simp: DeleteByPath_def q split: if_splits sum.splits prod.splits option.splits os_error.splits)
  show "content_inv ?s" by (rule content_inv_frame [OF c]) (simp_all add: sel)
  show "next_ref ?s = next_ref s" by (rule sel)
  show "follows r x ?s" if f: "follows r x s"
  proof (rule follows_frame [OF f _ oc])
    fix u assume "map_of (uploads s) r = Some u"
    then obtain d n where "up_temp u = temp_path d n" using c unfolding content_inv_def temps_ok_def by metis
    then show "up_temp u \<notin> {p}" using file_path_not_temp [OF p(2)] by (metis p(1) singletonD)
  qed (simp add: sel)
qed

section \<open>What the operations do to the spool\<close>

lemma open_effect:
  assumes o: "handleUploadOpen net env r path d w = (res, d', w')" and f: "fresh_names net env r path d w"
  shows "(br_spool d' = br_spool d \<and> br_writers d' = br_writers d)
    \<or> (\<exists>cx user name target mx y. StartUpload env cx user name target (-1) mx (br_spool d) = (y, br_spool d')
        \<and> fresh_id (generateUploadID env user name target) (br_spool d)
        \<and> (case y of Inl e \<Rightarrow> br_writers d' = br_writers d
           | Inr u \<Rightarrow> \<exists>x. br_writers d' = aput (fresh_ref (br_writers d)) x (br_writers d) \<and> uw_err x = None \<and> su_upload (uw_spool x) = u))"
proof (cases "map_of (br_sessions d) r")
  case None
  then show ?thesis using o by (simp add: handleUploadOpen_def)
next
  case (Some s)
  note s = this
  show ?thesis
  proof (cases "transferManagerFor (cd_user s) d")
    case None
    then show ?thesis using o s by (simp add: handleUploadOpen_def)
  next
    case (Some tm)
    obtain t tm1 w1 where p: "ProcessUpload (manager_net net tm d) (now env) (upload_request_of s path) tm w = (t, tm1, w1)"
      by (metis prod.collapse)
    let ?d1 = "d\<lparr>br_transfers := aput (cd_user s) tm1 (br_transfers d)\<rparr>"
    obtain e d2 where a: "acquire_slot (cd_account s) ?d1 = (e, d2)" by fastforce
    have d2: "br_spool d2 = br_spool d" "br_writers d2 = br_writers d" "br_sessions d2 = br_sessions d"
      using a by (auto simp: acquire_slot_def split: prod.splits)
    obtain y sp where st: "StartUpload env (cd_ctx s) (cd_user s) (ts_filename t) (ts_targetPath t) (-1)
        (Upload_MaxSize (Upload_of (cd_account s))) (br_spool d) = (y, sp)" by fastforce
    have fr: "fresh_id (generateUploadID env (cd_user s) (ts_filename t) (ts_targetPath t)) (br_spool d)"
      using f s Some p by (simp add: fresh_names_def)
    note O = o [unfolded handleUploadOpen_def s option.case Some p prod.case Let_def a d2(1) st]
    consider "\<not> ts_success t" | "ts_success t" "e \<noteq> None" | "ts_success t" "e = None" by blast
    then show ?thesis
    proof cases
      case 1
      then show ?thesis using O by auto
    next
      case 2
      then show ?thesis using O d2 by auto
    next
      case 3
      show ?thesis
      proof (cases y)
        case (Inl err)
        then have "d' = release_slot (cd_account s) (skip_uploadID (now env) r (d2\<lparr>br_spool := sp\<rparr>))" using O 3 by simp
        then have "br_spool d' = sp" "br_writers d' = br_writers d"
          by (simp_all add: release_slot_def skip_uploadID_def set_session_def d2 split: option.split)
        then show ?thesis using st fr Inl by fastforce
      next
        case (Inr u)
        obtain k d3 where n: "new_writer (now env) r u (ts_targetPath t) (d2\<lparr>br_spool := sp\<rparr>) = (k, d3)" by fastforce
        have "d' = d3\<lparr>br_uploadsTotal := br_uploadsTotal d3 + 1\<rparr>" using O 3 Inr n by simp
        moreover have "\<exists>x. br_writers d3 = aput (fresh_ref (br_writers d)) x (br_writers d) \<and> uw_err x = None
            \<and> su_upload (uw_spool x) = u \<and> br_spool d3 = sp"
          using n s d2 by (auto simp: new_writer_def set_writer_def set_session_def Let_def split: prod.splits)
        ultimately show ?thesis using st fr Inr by fastforce
      qed
    qed
  qed
qed

lemma write_effect:
  assumes "writer_Write env k p d = ((n, e), d')"
  shows "(d' = d \<and> e \<noteq> None)
    \<or> (\<exists>x x'. map_of (br_writers d) k = Some x \<and> map_of (br_writers d') = (map_of (br_writers d))(k \<mapsto> x')
        \<and> su_upload (uw_spool x') = su_upload (uw_spool x) \<and> uw_err x = None \<and> uw_err x' = e
        \<and> ((br_spool d' = br_spool d \<and> e \<noteq> None)
           \<or> WriteChunk env (Some (su_upload (uw_spool x))) p (br_spool d) = ((n, e), br_spool d')))"
  using assms
  by (auto simp: writer_Write_def fail_writer_def set_writer_def Let_def fun_eq_iff split: option.splits prod.splits if_splits)

lemma next_ref_ops:
  "next_ref (snd (WriteChunk env r p s)) = next_ref s" "next_ref (snd (FinishUpload env r s)) = next_ref s"
  "next_ref (snd (AbortUpload env r s)) = next_ref s"
  by (auto simp: WriteChunk_def FinishUpload_def AbortUpload_def Let_def split: option.split prod.split sum.split)

lemma close_effect:
  assumes x: "map_of (br_writers d) k = Some x" and s: "map_of (br_sessions d) (uw_session x) = Some s"
    and u: "map_of (uploads (br_spool d)) (su_upload (uw_spool x)) = Some u" and c: "writer_Close net env k d w = (e, d', w')"
  shows "\<exists>x'. map_of (br_writers d') = (map_of (br_writers d))(k \<mapsto> x')
    \<and> su_upload (uw_spool x') = su_upload (uw_spool x) \<and> uw_err x' = uw_err x
    \<and> ((\<exists>a. AbortUpload env (Some (su_upload (uw_spool x))) (br_spool d) = (a, br_spool d'))
       \<or> (\<exists>a. FinishUpload env (Some (su_upload (uw_spool x))) (br_spool d) = (Inl a, br_spool d'))
       \<or> (\<exists>fr sp. FinishUpload env (Some (su_upload (uw_spool x))) (br_spool d) = (Inr fr, sp)
            \<and> br_spool d' = snd (DeleteByPath env (fr_path fr) sp)))"
proof -
  obtain e1 d1 w1 where b: "close_body net env k x s u d w = (e1, d1, w1)" by (metis prod.collapse)
  have d': "br_writers d' = br_writers d1" "br_spool d' = br_spool d1" using c x s u b by (auto simp: writer_Close_def release_slot_def)
  have failed: "br_writers (upload_failed env reason y d0) = br_writers d0" "br_spool (upload_failed env reason y d0) = br_spool d0" for reason y d0
    by (simp_all add: upload_failed_def recordUploadFailure_def untrack_def set_session_def split: option.split)
  have dn: "br_writers (upload_done env y fr d0) = br_writers d0"
    "br_spool (upload_done env y fr d0) = snd (DeleteByPath env (fr_path fr) (br_spool d0))" for y fr d0
    by (simp_all add: upload_done_def untrack_def set_session_def Let_def split: option.split)
  have set: "map_of (br_writers (set_writer k y d0)) = (map_of (br_writers d0))(k \<mapsto> y)" "br_spool (set_writer k y d0) = br_spool d0" for y d0
    by (simp_all add: set_writer_def fun_eq_iff)
  have id: "map_of (br_writers d) = (map_of (br_writers d))(k \<mapsto> x)" using x by (simp add: fun_upd_idem)
  obtain a sp where a: "AbortUpload env (Some (su_upload (uw_spool x))) (br_spool d) = (a, sp)" by fastforce
  obtain f spf where f: "FinishUpload env (Some (su_upload (uw_spool x))) (br_spool d) = (f, spf)" by fastforce
  note B = b [unfolded close_body_def Let_def a f]
  show ?thesis
  proof (cases "uw_err x \<noteq> None \<or> \<not> (up_received u = up_size u \<or> up_size u \<le> 0)")
    case True
    then have "\<exists>reason. d1 = upload_failed env reason x (d\<lparr>br_spool := sp\<rparr>)"
      using B by (cases "uw_err x") auto
    then show ?thesis using id a d' failed by auto
  next
    case False
    show ?thesis
    proof (cases f)
      case (Inl err)
      then have "\<exists>reason. d1 = upload_failed env reason x (d\<lparr>br_spool := spf\<rparr>)" using B False by auto
      then show ?thesis using id f Inl d' failed by auto
    next
      case (Inr fr)
      let ?x1 = "x\<lparr>uw_spool := (uw_spool x)\<lparr>su_fileRef := Some fr\<rparr>\<rparr>"
      let ?d1 = "set_writer k ?x1 (d\<lparr>br_spool := spf\<rparr>)"
      obtain q w2 where q: "commitToWebDAV net env s ?x1 fr ?d1 w = (q, w2)" by fastforce
      show ?thesis
      proof (cases q)
        case (Inl err)
        then have "d1 = upload_failed env ''webdav_error'' ?x1 (delete_spooled env fr ?d1)" using B False Inr q by auto
        then have "map_of (br_writers d') = (map_of (br_writers d))(k \<mapsto> ?x1)" "br_spool d' = snd (DeleteByPath env (fr_path fr) spf)"
          using d' failed set by (simp_all add: delete_spooled_def)
        then show ?thesis using f Inr by (intro exI [of _ ?x1]) auto
      next
        case q2: (Inr pn)
        obtain p n where pn: "pn = (p, n)" by fastforce
        let ?x2 = "if n > 0 then ?x1\<lparr>uw_spool := (uw_spool ?x1)\<lparr>su_path := p\<rparr>\<rparr> else ?x1"
        have "d1 = upload_done env ?x2 fr (set_writer k ?x2 ?d1)" using B False Inr q q2 pn by auto
        then have "map_of (br_writers d') = (map_of (br_writers d))(k \<mapsto> ?x2)" "br_spool d' = snd (DeleteByPath env (fr_path fr) spf)"
          using d' dn set by simp_all
        then show ?thesis using f Inr by (intro exI [of _ ?x2]) auto
      qed
    qed
  qed
qed

section \<open>The invariant holds in every run\<close>

lemma held_new:
  assumes "spool_inv sp" and "uploads sp = []"
  shows "held (\<lambda>_. '''') (NewBridgeDriver cfg sp)"
proof -
  have s: "\<exists>cs. br_spool (NewBridgeDriver cfg sp) = sp\<lparr>ctxs := cs\<rparr>" "br_writers (NewBridgeDriver cfg sp) = []"
    by (auto simp: NewBridgeDriver_def Let_def with_cancel_def split: prod.split)
  have "received (sp\<lparr>ctxs := cs\<rparr>) = received sp" for cs by (simp add: received_def fun_eq_iff)
  then have "content_inv (sp\<lparr>ctxs := cs\<rparr>)" for cs
    using assms by (simp add: content_inv_def spool_inv_def active_ok_def ids_unique_def temps_ok_def)
  then show ?thesis using s by (auto simp: held_def)
qed

lemma held_open:
  assumes h: "held g d" and o: "handleUploadOpen net env r path d w = (res, d', w')" and f: "fresh_names net env r path d w"
  shows "held g d'"
proof -
  note H = heldD [OF h]
  let ?s = "br_spool d"
  have inv: "temps_ok ?s" "spool_inv ?s" "fresh_temps env ?s" using H(1) f by (simp_all add: content_inv_def fresh_names_def)
  show ?thesis using open_effect [OF o f]
  proof (elim disjE exE conjE)
    assume "br_spool d' = ?s" "br_writers d' = br_writers d"
    then show ?thesis using h by (simp add: held_def)
  next
    fix cx user name target mx y
    assume st: "StartUpload env cx user name target (-1) mx ?s = (y, br_spool d')"
      and fr: "fresh_id (generateUploadID env user name target) ?s"
      and c: "case y of Inl e \<Rightarrow> br_writers d' = br_writers d
        | Inr u \<Rightarrow> \<exists>x. br_writers d' = aput (fresh_ref (br_writers d)) x (br_writers d) \<and> uw_err x = None \<and> su_upload (uw_spool x) = u"
    have ci: "content_inv (br_spool d')"
      using content_step_keeps [OF H(1), of "Start env cx user name target (-1) mx"] fr inv(3) st by simp
    have fol: "follows q c (br_spool d')" if "follows q c ?s" for q c by (rule follows_Start [OF inv(1,2) that inv(3) st])
    show ?thesis
    proof (cases y)
      case (Inl e)
      then have "next_ref (br_spool d') = next_ref ?s" using StartUpload_Inl st by (metis spool.select_convs(6) spool.surjective spool.update_convs(7))
      then show ?thesis using held_same [OF h _ ci _ fol] c Inl by simp
    next
      case (Inr u)
      have nr: "u = next_ref ?s" "next_ref (br_spool d') = Suc u" using st [unfolded Inr] by (auto elim: StartUpload_Inr)
      obtain x where x: "br_writers d' = aput (fresh_ref (br_writers d)) x (br_writers d)" "su_upload (uw_spool x) = u"
        using c Inr by auto
      have lt: "su_upload (uw_spool z) < u" if "map_of (br_writers d) j = Some z" for j z using H(4) [OF that] nr by simp
      have "map_of (uploads ?s) u = None" using spool_invD(5) [OF inv(2)] nr by (metis not_None_eq order_less_irrefl)
      then have own: "follows u (g (fresh_ref (br_writers d))) (br_spool d')" using fol H(3) [OF fresh_ref_new] by (simp add: follows_def)
      show ?thesis unfolding held_def x map_of_aput fun_upd_apply
      proof (intro conjI allI impI ci)
        fix k z assume "(if k = fresh_ref (br_writers d) then Some x else map_of (br_writers d) k) = Some z" "uw_err z = None"
        then show "follows (su_upload (uw_spool z)) (g k) (br_spool d')" using own x(2) fol H(2) by (auto split: if_splits)
      next
        fix k z assume "(if k = fresh_ref (br_writers d) then Some x else map_of (br_writers d) k) = Some z"
        then show "su_upload (uw_spool z) < next_ref (br_spool d')" using lt nr x(2) by (fastforce split: if_splits)
      next
        fix i j y z
        assume "(if i = fresh_ref (br_writers d) then Some x else map_of (br_writers d) i) = Some y"
          "(if j = fresh_ref (br_writers d) then Some x else map_of (br_writers d) j) = Some z"
          "su_upload (uw_spool y) = su_upload (uw_spool z)"
        then show "i = j" using lt x(2) H(5) by (fastforce split: if_splits)
      qed (use H(3) in \<open>auto split: if_splits\<close>)
    qed
  qed
qed

lemma held_write:
  assumes h: "held g d" and r: "room_for k p d" and w: "writer_Write env k p d = ((n, e), d')"
  shows "held (if e = None then g(k := g k @ p) else g) d'"
proof -
  note H = heldD [OF h]
  let ?s = "br_spool d"
  show ?thesis using write_effect [OF w]
  proof (elim disjE conjE exE)
    fix x x'
    assume x: "map_of (br_writers d) k = Some x" "map_of (br_writers d') = (map_of (br_writers d))(k \<mapsto> x')"
        "su_upload (uw_spool x') = su_upload (uw_spool x)" "uw_err x = None" "uw_err x' = e"
    have g: "g = g(k := g k)" by simp
    {
      assume "br_spool d' = ?s" "e \<noteq> None"
      then show ?thesis using held_set [OF h x(1-3), of "g k"] H(1) x(5) by auto
    next
      assume c: "WriteChunk env (Some (su_upload (uw_spool x))) p ?s = ((n, e), br_spool d')"
      let ?r = "su_upload (uw_spool x)"
      have fit: "write_fits (Some ?r) p ?s" using r x(1) by (simp add: room_for_def)
      have ci: "content_inv (br_spool d')" using content_step_keeps [OF H(1), of "Chunk env (Some ?r) p"] fit c by simp
      have t: "temps_ok ?s" "spool_inv ?s" using H(1) by (simp_all add: content_inv_def)
      have others: "follows q c (br_spool d')" if "q \<noteq> ?r" "follows q c ?s" for q c
        using follows_Chunk [OF t that(2) fit, of env] that(1) c by (simp add: untorn1_def accepted1_def)
      have own: "follows ?r (g k @ p) (br_spool d')" if "e = None"
        using follows_Chunk [OF t H(2) [OF x(1,4)] fit, of env] c that by (simp add: untorn1_def accepted1_def)
      have "next_ref (br_spool d') = next_ref ?s" using next_ref_ops(1) c by (metis snd_conv)
      note S = held_set [OF h x(1-3) ci _ _ others]
      show ?thesis using S [of "g k @ p"] S [of "g k"] own \<open>next_ref _ = _\<close> x(5) by (cases e) simp_all
    }
  qed (use h in auto)
qed

lemma held_close:
  assumes h: "held g d" and e: "env_ok env" and c: "writer_Close net env k d w = (x, d', w')"
  shows "held g d'"
proof (cases "\<exists>y s u. map_of (br_writers d) k = Some y \<and> map_of (br_sessions d) (uw_session y) = Some s
    \<and> map_of (uploads (br_spool d)) (su_upload (uw_spool y)) = Some u")
  case False
  then have "d' = d" using c by (auto simp: writer_Close_def split: option.splits)
  then show ?thesis using h by simp
next
  case True
  then obtain y s u where y: "map_of (br_writers d) k = Some y" "map_of (br_sessions d) (uw_session y) = Some s"
    "map_of (uploads (br_spool d)) (su_upload (uw_spool y)) = Some u" by blast
  note H = heldD [OF h]
  let ?s = "br_spool d" and ?r = "su_upload (uw_spool y)"
  have t: "temps_ok ?s" using H(1) by (simp add: content_inv_def)
  obtain y' where y': "map_of (br_writers d') = (map_of (br_writers d))(k \<mapsto> y')" "su_upload (uw_spool y') = ?r" "uw_err y' = uw_err y"
    and op: "(\<exists>a. AbortUpload env (Some ?r) ?s = (a, br_spool d')) \<or> (\<exists>a. FinishUpload env (Some ?r) ?s = (Inl a, br_spool d'))
       \<or> (\<exists>fr sp. FinishUpload env (Some ?r) ?s = (Inr fr, sp) \<and> br_spool d' = snd (DeleteByPath env (fr_path fr) sp))"
    using close_effect [OF y c] by blast
  have "content_inv (br_spool d') \<and> next_ref (br_spool d') = next_ref ?s \<and> (\<forall>q c. follows q c ?s \<longrightarrow> follows q c (br_spool d'))"
    using op
  proof (elim disjE exE conjE)
    fix a assume a: "AbortUpload env (Some ?r) ?s = (a, br_spool d')"
    have "content_inv (br_spool d')" using content_step_keeps [OF H(1), of "Abort env (Some ?r)"] a by simp
    moreover have "next_ref (br_spool d') = next_ref ?s" using next_ref_ops(3) a by (metis snd_conv)
    ultimately show ?thesis using follows_Abort [OF t _ a] by blast
  next
    fix a assume a: "FinishUpload env (Some ?r) ?s = (Inl a, br_spool d')"
    have "content_inv (br_spool d')" using content_step_keeps [OF H(1), of "Finish env (Some ?r)"] a e by simp
    moreover have "next_ref (br_spool d') = next_ref ?s" using next_ref_ops(2) a by (metis snd_conv)
    ultimately show ?thesis using follows_Finish [OF t _ e a] by blast
  next
    fix fr sp assume a: "FinishUpload env (Some ?r) ?s = (Inr fr, sp)" and d': "br_spool d' = snd (DeleteByPath env (fr_path fr) sp)"
    have ci: "content_inv sp" using content_step_keeps [OF H(1), of "Finish env (Some ?r)"] a e by simp
    from a obtain dir v where p: "fr_path fr = JoinPath [user_dir dir (up_user v), generateFileID env v]" "IsAbs dir"
      by (rule FinishUpload_Inr) (use Abs_path_abs [OF e] in auto)
    note D = held_delete [OF ci e p, folded d']
    have "next_ref sp = next_ref ?s" using next_ref_ops(2) a by (metis snd_conv)
    with D show ?thesis using follows_Finish [OF t _ e a] by simp
  qed
  then have "held (g(k := g k)) d'" using H(2) [OF y(1)] y'(3) by (intro held_set [OF h y(1) y'(1,2)]) auto
  then show ?thesis by simp
qed

lemma held_written:
  assumes "written IDKey sdk net cfg g c"
  shows "held g (fst c)"
  using assms
proof (induction rule: written.induct)
  case (New env sp w)
  then show ?case using held_new by simp
next
  case (Open g d ls w r path env k d' w')
  then show ?case using held_open [OF _ Open(6,5)] by simp
next
  case (Write g d ls w k p env n e d')
  then show ?case using held_write [OF _ Write(2,3)] by simp
next
  case (Close g d ls w k env e d' w')
  then show ?case using held_close [OF _ Close(3,4)] by simp
next
  case (Other g d ls w d' ls' w' cs)
  have "later d d'"
    using bstep_later [OF Other(2) refl refl] reaches_bridge(1) [OF written_reaches [OF Other(1)]] by blast
  from later_done [OF this] have "ctx_done (ctxs (br_spool d)) x \<Longrightarrow> ctx_done cs x" for x using Other(3) by simp
  then show ?case using held_ctxs [OF _ Other(3,4)] Other.IH by simp
qed

section \<open>What the server gets is what the client wrote\<close>

text \<open>C3. End to end, in every run of the driver in which the machine draws fresh names and the byte counters do not
  wrap: when closing a file reports success, the last request the server accepted is a PUT of exactly the data
  that the writes to this file had accepted, in their order and none of it missing, whatever other sessions
  wrote meanwhile; it goes to a path strictly below the root of the account, which is the one the file was
  opened for unless the policy is to rename.\<close>

theorem delivered_is_what_was_written:
  assumes r: "written IDKey sdk net cfg g (d, ls, v)" and env: "env_ok env"
    and c: "writer_Close (logged net') env k d (w, []) = (None, d', (w', log))"
  shows "\<exists>x s p. map_of (br_writers d) k = Some x \<and> map_of (br_sessions d) (uw_session x) = Some s \<and> log \<noteq> []
    \<and> inside (Target_Root (Target (cd_account s))) p
    \<and> delivered net' (cd_client s) (g k) (int (length (g k)))
         (CollisionPolicy_of (Upload_of (cd_account s)) = CollisionPolicyOverwrite) p (last log)
    \<and> (CollisionPolicy_of (Upload_of (cd_account s)) \<noteq> CollisionPolicyRename \<longrightarrow> p = su_path (uw_spool x))"
  using written_reaches [OF r] c
proof (rule close_delivers)
  fix x s u fr sp content p
  assume *: "map_of (br_writers d) k = Some x" "map_of (br_sessions d) (uw_session x) = Some s" "log \<noteq> []"
      "inside (Target_Root (Target (cd_account s))) p" and e: "uw_err x = None"
    and f: "FinishUpload env (Some (su_upload (uw_spool x))) (br_spool d) = (Inr fr, sp)"
      "content_of (files sp) (fr_path fr) = Some content"
    and dl: "delivered net' (cd_client s) content (fr_size fr)
         (CollisionPolicy_of (Upload_of (cd_account s)) = CollisionPolicyOverwrite) p (last log)"
    and rest: "CollisionPolicy_of (Upload_of (cd_account s)) \<noteq> CollisionPolicyRename \<longrightarrow> p = su_path (uw_spool x)"
  have h: "held g d" using held_written [OF r] by simp
  have t: "temps_ok (br_spool d)" using heldD(1) [OF h] by (simp add: content_inv_def)
  note F = FinishUpload_content [OF t env heldD(2) [OF h *(1) e] f(1)]
  have "delivered net' (cd_client s) (g k) (int (length (g k)))
      (CollisionPolicy_of (Upload_of (cd_account s)) = CollisionPolicyOverwrite) p (last log)"
    using dl F(1,2) f(2) by simp
  with * rest show ?thesis by blast
qed

text \<open>The session of the example, as a run that remembers what was written.\<close>

lemma demo_other:
  assumes "written toy_key demo_sdk scripted demo_config g (d, ls, w)" and "demo_step (d, ls, w) (d', ls', w')"
    and "br_spool d' = (br_spool d)\<lparr>ctxs := ctxs (br_spool d')\<rparr>" and "br_writers d' = br_writers d"
  shows "written toy_key demo_sdk scripted demo_config g (d', ls', w')"
  using assms by (rule written.Other)

lemma demo_unwritten: "written toy_key demo_sdk scripted demo_config (\<lambda>_. '''') (demo_session, [], [404, 200])"
proof -
  have 0: "written toy_key demo_sdk scripted demo_config (\<lambda>_. '''') (demo_new, [], [404, 200])"
    unfolding demo_new_def by (rule written.New [OF demo_config_valid spool_inv_new]) (simp add: new_spool_def)
  have s: "br_spool demo_connected = (br_spool demo_new)\<lparr>ctxs := ctxs (br_spool demo_connected)\<rparr>"
    "br_writers demo_connected = br_writers demo_new"
    "br_spool demo_entered = (br_spool demo_connected)\<lparr>ctxs := ctxs (br_spool demo_entered)\<rparr>"
    "br_writers demo_entered = br_writers demo_connected"
    "br_spool demo_session = (br_spool demo_entered)\<lparr>ctxs := ctxs (br_spool demo_session)\<rparr>"
    "br_writers demo_session = br_writers demo_entered"
    by code_simp+
  show ?thesis
    by (rule demo_other [OF demo_other [OF demo_other [OF 0 demo_connect s(1,2)] demo_enter s(3,4)] demo_finish s(5,6)])
qed

lemma demo_remembered: "written toy_key demo_sdk scripted demo_config ((\<lambda>_. '''')(0 := ''hello'')) (demo_written, [], [])"
proof -
  have o: "handleUploadOpen scripted (example_env 1 7) 0 ''/a.pdf'' demo_session [404, 200] = (Inr 0, demo_open, [])"
    using demo4 by (simp add: demo_open_def prod_eq_iff)
  have f: "fresh_names scripted (example_env 1 7) 0 ''/a.pdf'' demo_session [404, 200]" by code_simp
  have 1: "written toy_key demo_sdk scripted demo_config (\<lambda>_. '''') (demo_open, [], [])"
    by (rule written.Open [OF demo_unwritten demo6(2-4) f o])
  have r: "room_for 0 ''hello'' demo_open" by code_simp
  have w: "writer_Write (example_env 2 7) 0 ''hello'' demo_open = ((5, None), demo_written)"
    using split_run [OF demo5] by (simp add: demo_written_def)
  from written.Write [OF 1 r w] show ?thesis by simp
qed

theorem delivered_is_what_was_written_witness:
  "\<exists>d' w' log rq r. writer_Close (logged scripted) (example_env 3 7) 0 demo_written ([200, 201], []) = (None, d', (w', log))
     \<and> last log = (rq, r) \<and> rq_body rq = Some ''hello'' \<and> accepted_by_server r"
proof -
  let ?c = "writer_Close (logged scripted) (example_env 3 7) 0 demo_written ([200, 201], [])"
  obtain e d' w' log where c: "?c = (e, d', (w', log))" by (metis prod.collapse)
  have "fst ?c = None" by code_simp
  then have n: "?c = (None, d', (w', log))" using c by simp
  from delivered_is_what_was_written [OF demo_remembered example_env_ok this]
  obtain c ow p where "delivered scripted c ''hello'' 5 ow p (last log)"
    by simp blast
  with n show ?thesis by (cases "last log") (simp add: delivered_def whole_put_def)
qed

end
