(* ===== verification/BridgeProgress.thy ===== *)
theory BridgeProgress
  imports BridgeCommits
begin

text \<open>
  That uploads end and make room: closing an upload takes a bounded number of requests, and, however it
  ends, gives its slot back.
\<close>

section \<open>Requests of a commit\<close>

definition methods :: "exchange list \<Rightarrow> string list" where
  "methods log = map (\<lambda>x. rq_method (fst x)) log"

text \<open>The log \<open>log'\<close> is \<open>log\<close> followed by at most \<open>n\<close> requests of method \<open>m\<close>.\<close>

definition sends :: "string \<Rightarrow> nat \<Rightarrow> exchange list \<Rightarrow> exchange list \<Rightarrow> bool" where
  "sends m n log log' \<longleftrightarrow> (\<exists>i \<le> n. methods log' = methods log @ replicate i m)"

lemma sends_none: "sends m n log log"
  by (auto simp: sends_def)

lemma sends_trans:
  assumes "sends m i a b" and "sends m j b c"
  shows "sends m (i + j) a c"
proof -
  obtain x y where "x \<le> i" "methods b = methods a @ replicate x m" "y \<le> j" "methods c = methods b @ replicate y m"
    using assms unfolding sends_def by blast
  then have "x + y \<le> i + j" "methods c = methods a @ replicate (x + y) m" by (simp_all add: replicate_add)
  then show ?thesis unfolding sends_def by blast
qed

lemma sends_more: "sends m i a b \<Longrightarrow> i \<le> j \<Longrightarrow> sends m j a b"
  unfolding sends_def using order_trans by blast

lemma control_sends: "sends m 1 (snd st) (snd (snd (control_op (logged net) c m adjust hs path st)))"
proof -
  obtain w log where st: "st = (w, log)" by fastforce
  obtain r w' log' where c: "control_op (logged net) c m adjust hs path (w, log) = (r, (w', log'))"
    by (metis prod.collapse)
  then have "log' = log \<or> (\<exists>x. log' = log @ [x] \<and> rq_method (fst x) = m)"
    by (auto simp: control_op_def full_url_def logged_def plain_request_def Let_def
        split: if_splits sum.splits option.splits prod.splits)
  then have "sends m 1 log log'"
  proof
    assume "\<exists>x. log' = log @ [x] \<and> rq_method (fst x) = m"
    then have "methods log' = methods log @ replicate 1 m" by (auto simp: methods_def)
    then show ?thesis unfolding sends_def by blast
  qed (simp add: sends_none)
  then show ?thesis by (simp add: st c)
qed

lemma mkcol_sends:
  "CreateDirectory (logged net) c path st = (r, st') \<Longrightarrow> sends ''MKCOL'' 1 (snd st) (snd st')"
  using mkcol_state [of "logged net" c path st]
    control_sends [of "''MKCOL''" st net c "\<lambda>np. if HasSuffix np ''/'' then np else np @ ''/''" "[]" path] by simp

lemma existence_sends:
  "CheckPathExistence (logged net) c path st = (r, st') \<Longrightarrow> sends ''HEAD'' 1 (snd st) (snd st')"
  using existence_state [of "logged net" c path st] control_sends [of "''HEAD''" st net c "\<lambda>np. np" "[]" path] by simp

lemma mkcol_all_sends:
  "mkcol_all (logged net) c ps st = (r, st') \<Longrightarrow> sends ''MKCOL'' (length ps) (snd st) (snd st')"
proof (induction ps arbitrary: st)
  case (Cons p ps)
  obtain e st1 where m: "CreateDirectory (logged net) c p st = (e, st1)"
    by (cases "CreateDirectory (logged net) c p st")
  note one = mkcol_sends [OF m]
  show ?case
  proof (cases e)
    case None
    then have "mkcol_all (logged net) c ps st1 = (r, st')" using Cons.prems m by simp
    from sends_trans [OF one Cons.IH [OF this]] show ?thesis by simp
  next
    case (Some x)
    then show ?thesis using Cons.prems m sends_more [OF one, of "length (p # ps)"] by simp
  qed
qed (simp add: sends_none)

lemma commit_sends:
  "commit_attempts (logged net) env c pol fr fs path a left (w, log) = (r, (w', log')) \<Longrightarrow> sends ''PUT'' (3 * left) log log'"
proof (induction left arbitrary: path a w log)
  case (Suc left)
  show ?case
  proof (cases "open_spooled env (fr_path fr) fs")
    case (Inr b)
    obtain e b1 w1 log1 where u: "UploadStream (logged net) c path (Some b) (fr_size fr) (pol = CollisionPolicyOverwrite) (w, log)
        = ((e, b1), (w1, log1))" by (metis prod.collapse)
    obtain new where new: "log1 = log @ new" "length new \<le> 3"
      "\<forall>x \<in> set new. whole_put c (bd_content b) (fr_size fr) (pol = CollisionPolicyOverwrite) (fst x)"
      using UploadStream_logged [OF u] open_spooled_Inr [OF Inr] by auto
    have "methods new = replicate (length new) ''PUT''"
      using new(3) by (auto simp: methods_def whole_put_def map_replicate_const [symmetric] intro!: map_cong)
    then have s: "sends ''PUT'' 3 log log1" using new(1,2) by (auto simp: sends_def methods_def)
    consider "log' = log1"
      | "commit_attempts (logged net) env c pol fr fs (retry_path path a) (Suc a) left (w1, log1) = (r, (w', log'))"
      using Suc.prems Inr u by (cases e) (auto split: if_splits)
    then show ?thesis
    proof cases
      case 1
      then show ?thesis using sends_more [OF s] by simp
    next
      case 2
      from sends_trans [OF s Suc.IH [OF this]] show ?thesis by simp
    qed
  qed (use Suc.prems in \<open>auto simp: sends_none\<close>)
qed (auto simp: sends_none)

section \<open>Closing ends\<close>

text \<open>A check of the parent, then its missing ancestors from the root down.\<close>

lemma ensure_sends:
  assumes p: "IsAbs p" "Clean p = p" "clean_comps p \<noteq> []"
    and e: "EnsureParentDirectories (logged net) tm p st = (r, st')"
  shows "\<exists>mid. sends ''HEAD'' (min 1 (length (clean_comps p) - 1)) (snd st) mid
    \<and> sends ''MKCOL'' (length (clean_comps p) - 1) mid (snd st')"
proof (cases "tm_client tm")
  case None
  then show ?thesis using e sends_none by (auto simp: EnsureParentDirectories_def)
next
  case (Some c)
  define ds where "ds = butlast (clean_comps p)"
  have pr: "\<And>x. x \<in> set (clean_comps p) \<Longrightarrow> proper x" using p clean_comps_proper by blast
  have cp: "clean_comps p = ds @ [last (clean_comps p)]" using p(3) by (simp add: ds_def)
  have len: "length (clean_comps p) - 1 = length ds" by (simp add: ds_def)
  have "p = render True (clean_comps p)" using p(1,2) Clean_abs by metis
  then have d: "Dir p = render True ds"
    using Dir_render [of ds "last (clean_comps p)"] pr cp by (metis)
  have prd: "\<And>x. x \<in> set ds \<Longrightarrow> proper x" using pr in_set_butlastD unfolding ds_def by fast
  show ?thesis
  proof (cases "ds = []")
    case True
    then have "Dir p = ''/''" using d by (simp add: render_def)
    then show ?thesis using e Some sends_none by (auto simp: EnsureParentDirectories_def)
  next
    case False
    then have top: "Dir p \<noteq> ''.'' \<and> Dir p \<noteq> ''/''" using d render_not_dot render_root_iff [OF prd] by simp
    obtain b x st1 where x: "CheckPathExistence (logged net) c (Dir p) st = ((b, x), st1)" by (metis prod.collapse)
    have one: "min 1 (length ds) = 1" using False by (cases ds) simp_all
    note l1 = existence_sends [OF x]
    have "st' = st1 \<or> createParentDirectoriesRecursive (logged net) (Some c) (Dir p) st1 = (r, st')"
      using e Some top x by (cases b; cases x) (auto simp: EnsureParentDirectories_def)
    then show ?thesis
    proof
      assume "createParentDirectoriesRecursive (logged net) (Some c) (Dir p) st1 = (r, st')"
      then have "mkcol_all (logged net) c (chain ds) st1 = (r, st')"
        unfolding d using create_parents_chain [OF False prd, of "logged net" c st1] by simp
      from mkcol_all_sends [OF this] have "sends ''MKCOL'' (length ds) (snd st1) (snd st')" by (simp add: chain_def del: upt_Suc)
      then show ?thesis using l1 unfolding len one by blast
    qed (use l1 sends_none in \<open>unfold len one, blast\<close>)
  qed
qed

lemma close_sessions:
  assumes inv: "bridge_inv accs d" and x: "map_of (br_writers d) k = Some x"
    and s: "map_of (br_sessions d) (uw_session x) = Some s" and c: "writer_Close net env k d w = (e, d', w')"
  shows "br_sessions d' = aput (uw_session x) (s\<lparr>cd_uploads := adel (uw_id x) (cd_uploads s)\<rparr>) (br_sessions d)"
proof -
  obtain u where u: "map_of (uploads (br_spool d)) (su_upload (uw_spool x)) = Some u"
    using bridge_invD(8) [OF inv x] by (auto simp: writer_ok_def)
  obtain e1 d1 w1 where b: "close_body net env k x s u d w = (e1, d1, w1)" by (metis prod.collapse)
  have d': "d' = release_slot (cd_account s) d1" using c by (simp add: writer_Close_def x s u b)
  obtain d0 y where d0: "same_place x y" "br_sessions d0 = br_sessions d" "closes_to k d0 y d1"
    using close_body_closes [OF inv x s b] by blast
  have "br_sessions d1 = br_sessions (untrack y d0)" using d0(3) by (simp add: closes_to_def same_core_def)
  then show ?thesis using d0(1,2) s by (simp add: d' release_slot_def untrack_def same_place_def)
qed

text \<open>C12. Closing an upload that a session has open always ends the same way for its session, whether it
  succeeds, is refused, fails to commit or was aborted: the upload is no longer open, and, since its
  slot has been given back, the account is not refused another one for want of a slot.\<close>

theorem closed_upload_frees_slot:
  assumes r: "reaches IDKey sdk net cfg (d, ls, v)" and t: "tracked k d" and x: "map_of (br_writers d) k = Some x"
    and s: "map_of (br_sessions d) (uw_session x) = Some s" and c: "writer_Close net' env k d w = (e, d', w')"
  shows "\<not> tracked k d' \<and> Suc (open_uploads (cd_user s) (br_sessions d')) = open_uploads (cd_user s) (br_sessions d)
    \<and> fst (acquire_slot (cd_account s) d') = None"
proof -
  note R = reaches_bridge [OF r]
  note D = bridge_invD [OF R(1)]
  have ti: "map_of (cd_uploads s) (uw_id x) = Some k" using t x s by (auto simp: tracked_def)
  let ?s' = "s\<lparr>cd_uploads := adel (uw_id x) (cd_uploads s)\<rparr>"
  have ss: "br_sessions d' = aput (uw_session x) ?s' (br_sessions d)" by (rule close_sessions [OF R(1) x s c])
  have S: "session_ok (account_of cfg) (br_ctx d) (br_writers d) (uw_session x) s" by (rule D(7) [OF s])
  then have au: "account_of cfg (cd_user s) = Some (cd_account s)" and tab: "table_ok (br_writers d) (uw_session x) s"
    by (auto simp: session_ok_def)
  then have ua: "Username (cd_account s) = cd_user s"
    and cap: "cap_of (account_of cfg) (cd_user s) = MaxConcurrentUploads (Upload_of (cd_account s))"
    using R(2) by (auto simp: accounts_ok_def cap_of_def)
  have "distinct (akeys (cd_uploads s))" using tab by (simp add: table_ok_def)
  from length_adel [OF this ti] open_uploads_set [OF D(5) s, of ?s' "cd_user s"]
  have less: "Suc (open_uploads (cd_user s) (br_sessions d')) = open_uploads (cd_user s) (br_sessions d)" by (simp add: ss)
  have i': "bridge_inv (account_of cfg) d'" by (rule inv_close [OF R(1,2) t c])
  have free: "fst (acquireUploadSlot (cd_user s) (cap_of (account_of cfg) (cd_user s)) (br_slots d')) = None"
  proof (cases "0 < cap_of (account_of cfg) (cd_user s)")
    case True
    have used: "slots_used (br_slots d') (cd_user s) = open_uploads (cd_user s) (br_sessions d')"
      "slots_used (br_slots d) (cd_user s) = open_uploads (cd_user s) (br_sessions d)"
      and inv: "slots_inv (cap_of (account_of cfg)) (br_slots d)" "slots_inv (cap_of (account_of cfg)) (br_slots d')"
      using bridge_invD(6) [OF i'] D(6) True by (auto simp: slots_ok_def)
    have "slots_used (br_slots d') (cd_user s) < nat (cap_of (account_of cfg) (cd_user s))"
      using slots_capped [OF inv(1), of "cd_user s"] used less by linarith
    then show ?thesis
      using acquire_capped(2) [OF inv(2) True] by (cases "acquireUploadSlot (cd_user s) (cap_of (account_of cfg) (cd_user s)) (br_slots d')") simp
  next
    case False
    then show ?thesis by (simp add: acquire_uncapped)
  qed
  have "\<not> tracked k d'"
  proof
    assume "tracked k d'"
    then obtain y s1 where y: "map_of (br_writers d') k = Some y" "map_of (br_sessions d') (uw_session y) = Some s1"
      "map_of (cd_uploads s1) (uw_id y) = Some k" by (auto simp: tracked_def)
    show False
    proof (cases "uw_session y = uw_session x")
      case True
      then have "map_of (cd_uploads s) (uw_id y) = Some k" "uw_id y \<noteq> uw_id x"
        using y(2,3) by (auto simp: ss map_of_adel split: if_splits)
      moreover from this(1) have "\<exists>z. map_of (br_writers d) k = Some z \<and> uw_id z = uw_id y"
        using tab unfolding table_ok_def by blast
      ultimately show False using x by simp
    next
      case False
      then have "map_of (br_sessions d) (uw_session y) = Some s1" using y(2) by (simp add: ss)
      then have "table_ok (br_writers d) (uw_session y) s1" using D(7) by (auto simp: session_ok_def)
      then have "\<exists>z. map_of (br_writers d) k = Some z \<and> uw_session z = uw_session y"
        using y(3) unfolding table_ok_def by blast
      then show False using x False by simp
    qed
  qed
  moreover have "fst (acquire_slot (cd_account s) d') = None"
    using free by (auto simp: acquire_slot_def ua cap split: prod.split)
  ultimately show ?thesis using less by simp
qed

theorem closed_upload_frees_slot_witness:
  "\<not> tracked 0 demo_closed \<and> fst (acquire_slot the_account demo_closed) = None"
proof -
  obtain x s where x: "map_of (br_writers demo_written) 0 = Some x" "map_of (br_sessions demo_written) (uw_session x) = Some s"
    using demo6(1) by (auto simp: tracked_def)
  obtain w' where c: "writer_Close scripted (example_env 3 7) 0 demo_written [200, 201] = (None, demo_closed, w')"
    using demo7 by (metis demo_closed_def prod.collapse)
  have "map_option (\<lambda>x. map_option cd_account (map_of (br_sessions demo_written) (uw_session x))) (map_of (br_writers demo_written) 0)
      = Some (Some the_account)" by code_simp
  then have "cd_account s = the_account" using x by simp
  then show ?thesis using closed_upload_frees_slot [OF demo_reaches demo6(1) x c] by simp
qed

section \<open>The number of requests\<close>

lemma commit_whole_sends:
  assumes p: "IsAbs (su_path (uw_spool x))" "Clean (su_path (uw_spool x)) = su_path (uw_spool x)"
      "clean_comps (su_path (uw_spool x)) \<noteq> []"
    and c: "commitToWebDAV (logged net) env s x fr d st = (r, st')"
    and n: "n = length (clean_comps (su_path (uw_spool x))) - 1"
  shows "\<exists>a b. sends ''HEAD'' (min 1 n) (snd st) a \<and> sends ''MKCOL'' n a b \<and> sends ''PUT'' 9 b (snd st')"
proof (cases "transferManagerFor (cd_user s) d")
  case None
  then have "st' = st" using c by (simp add: commitToWebDAV_def)
  then show ?thesis using sends_none by blast
next
  case (Some tm)
  let ?mnet = "manager_net (logged net) tm d"
  have f: "final_path s x fr = su_path (uw_spool x)" using p(1) by (auto simp: final_path_def IsAbs_def)
  obtain e st1 where e: "EnsureParentDirectories ?mnet tm (su_path (uw_spool x)) st = (e, st1)"
    by (cases "EnsureParentDirectories ?mnet tm (su_path (uw_spool x)) st")
  have "\<exists>a. sends ''HEAD'' (min 1 n) (snd st) a \<and> sends ''MKCOL'' n a (snd st1)"
  proof (cases "ctx_done (ctxs (br_spool d)) (tm_context tm)")
    case True
    then have "st1 = st" using e silent_ensure [of "logged net" tm "su_path (uw_spool x)" st] by (simp add: manager_net_def)
    then show ?thesis using sends_none by blast
  next
    case False
    then show ?thesis using e ensure_sends [OF p] by (simp add: manager_net_def n)
  qed
  then obtain a where a: "sends ''HEAD'' (min 1 n) (snd st) a" "sends ''MKCOL'' n a (snd st1)" by blast
  have "sends ''PUT'' 9 (snd st1) (snd st')"
  proof (cases e)
    case None
    obtain w1 log1 where st1: "st1 = (w1, log1)" by fastforce
    obtain w' log' where st': "st' = (w', log')" by fastforce
    have "commit_attempts (session_net (logged net) s d) env (cd_client s) (CollisionPolicy_of (Upload_of (cd_account s))) fr
        (files (br_spool d)) (su_path (uw_spool x)) 0 maxCommitAttempts (w1, log1) = (r, (w', log'))"
      using c Some None e by (simp add: commitToWebDAV_def f st1 st')
    then show ?thesis
    proof (cases rule: commit_under_session)
      case (silent err)
      then show ?thesis by (simp add: st1 st' sends_none)
    next
      case live
      from commit_sends [OF this] show ?thesis by (simp add: st1 st' maxCommitAttempts_def)
    qed
  next
    case err: (Some err)
    then have "st' = st1" using c Some e by (simp add: commitToWebDAV_def f)
    then show ?thesis by (simp add: sends_none)
  qed
  with a show ?thesis by blast
qed

text \<open>C13. Closing an upload ends: whatever the server answers and whatever fails, the requests it sends are,
  in this order, at most one HEAD, at most one MKCOL for every directory on the way to the file, and at
  most nine PUTs; for a file in the root directory there is no HEAD either.\<close>

theorem close_requests_bounded:
  assumes r: "reaches IDKey sdk net cfg (d, ls, v)" and x: "map_of (br_writers d) k = Some x"
    and c: "writer_Close (logged net') env k d (w, []) = (e, d', (w', log))"
  shows "\<exists>heads mkcols puts. map (\<lambda>x. rq_method (fst x)) log
        = replicate heads ''HEAD'' @ replicate mkcols ''MKCOL'' @ replicate puts ''PUT''
      \<and> heads \<le> min 1 (length (clean_comps (su_path (uw_spool x))) - 1)
      \<and> mkcols \<le> length (clean_comps (su_path (uw_spool x))) - 1 \<and> puts \<le> 9"
proof -
  note R = reaches_bridge [OF r]
  note D = bridge_invD [OF R(1)]
  let ?n = "length (clean_comps (su_path (uw_spool x))) - 1"
  obtain s where s: "map_of (br_sessions d) (uw_session x) = Some s"
    and ins: "inside (Target_Root (Target (cd_account s))) (su_path (uw_spool x))"
    using D(8) [OF x] by (auto simp: writer_ok_def)
  obtain u where u: "map_of (uploads (br_spool d)) (su_upload (uw_spool x)) = Some u"
    using D(8) [OF x] by (auto simp: writer_ok_def)
  have p: "IsAbs (su_path (uw_spool x))" "Clean (su_path (uw_spool x)) = su_path (uw_spool x)"
      "clean_comps (su_path (uw_spool x)) \<noteq> []"
    using ins by (auto simp: inside_def strict_prefix_def)
  obtain d1 where b: "close_body (logged net') env k x s u d (w, []) = (e, d1, (w', log))"
    using c by (auto simp: writer_Close_def x s u split: prod.splits)
  have "\<exists>a b. sends ''HEAD'' (min 1 ?n) [] a \<and> sends ''MKCOL'' ?n a b \<and> sends ''PUT'' 9 b log"
  proof (cases "log = []")
    case False
    then obtain fr sp q where q: "commitToWebDAV (logged net') env s (x\<lparr>uw_spool := (uw_spool x)\<lparr>su_fileRef := Some fr\<rparr>\<rparr>) fr
        (set_writer k (x\<lparr>uw_spool := (uw_spool x)\<lparr>su_fileRef := Some fr\<rparr>\<rparr>) (d\<lparr>br_spool := sp\<rparr>)) (w, []) = (q, (w', log))"
      using b by (auto simp: close_body_def Let_def split: option.splits if_splits sum.splits prod.splits)
    show ?thesis using commit_whole_sends [OF _ _ _ q, of ?n] p by simp
  qed (use sends_none in blast)
  then show ?thesis unfolding sends_def methods_def by force
qed

theorem close_requests_bounded_witness:
  "\<exists>e d' w' log. writer_Close (logged scripted) (example_env 3 7) 0 demo_written ([404, 503, 503], []) = (e, d', (w', log))
     \<and> length log \<le> 12"
proof -
  obtain x where x: "map_of (br_writers demo_written) 0 = Some x" using demo6(1) by (auto simp: tracked_def)
  have "map_option (\<lambda>x. length (clean_comps (su_path (uw_spool x)))) (map_of (br_writers demo_written) 0) = Some 3" by code_simp
  then have n: "length (clean_comps (su_path (uw_spool x))) = 3" using x by simp
  obtain e d' w' log where c: "writer_Close (logged scripted) (example_env 3 7) 0 demo_written ([404, 503, 503], []) = (e, d', (w', log))"
    by (metis prod.collapse)
  from close_requests_bounded [OF demo_reaches x c] n obtain heads mkcols puts
    where m: "map (\<lambda>x. rq_method (fst x)) log = replicate heads ''HEAD'' @ replicate mkcols ''MKCOL'' @ replicate puts ''PUT''"
      "heads \<le> 1" "mkcols \<le> 2" "puts \<le> 9" by auto
  have "length log = heads + mkcols + puts" using arg_cong [OF m(1), of length] by simp
  with m(2-4) c show ?thesis by auto
qed

end
