(* ===== verification/BridgeLogins.thy ===== *)
theory BridgeLogins
  imports BridgeExample
begin

text \<open>
  Who can log in, what a failed login tells, and what the limit on connections really bounds.
\<close>

section \<open>The outcome of a login\<close>

text \<open>C8. A login that gets past the limits succeeds exactly if the account exists, the password verifies
  against its hash, it has credentials for oCIS and its drive is resolved. It then adds one session, of
  that account and with no uploads, which the connection refers to.\<close>

theorem login_outcome:
  assumes "auth_finish IDKey sdk t t' c addr user pw d w = (r, d', w')"
  shows "(is_ok r \<longleftrightarrow> (\<exists>a. map_of (br_accounts d) user = Some a \<and> PasswordHash a \<noteq> ''''
      \<and> VerifyPassword IDKey (PasswordHash a) pw = Inr True \<and> OCIS_Username (OCIS a) \<noteq> '''' \<and> AppToken a \<noteq> ''''
      \<and> is_ok (fst (resolveDriveForAccount sdk (GraphURL (OCIS_of (br_cfg d))) t t' a (br_driveCache d) w))))
    \<and> (\<forall>i. r = Inr i \<longrightarrow> map_of (br_sessions d) i = None \<and> map_of (br_clients d') c = Some i
        \<and> (\<exists>s. br_sessions d' = aput i s (br_sessions d) \<and> map_of (br_accounts d) user = Some (cd_account s)
              \<and> cd_user s = user \<and> cd_uploads s = []))"
proof -
  obtain d1 where b: "auth_body IDKey sdk t t' c addr user pw d w = (r, d1, w')" and d': "d' = auth_leave d1"
    using assms by (auto simp: auth_finish_def split: prod.splits)
  let ?ok = "\<lambda>a. map_of (br_accounts d) user = Some a \<and> PasswordHash a \<noteq> ''''
      \<and> VerifyPassword IDKey (PasswordHash a) pw = Inr True \<and> OCIS_Username (OCIS a) \<noteq> '''' \<and> AppToken a \<noteq> ''''
      \<and> is_ok (fst (resolveDriveForAccount sdk (GraphURL (OCIS_of (br_cfg d))) t t' a (br_driveCache d) w))"
  have succ: "is_ok r" if "?ok a" for a
  proof -
    have "authenticateUser IDKey user pw (br_accounts d) = Inr a" using that by (simp add: authenticateUser_def)
    then show ?thesis
      using b that by (auto simp: auth_body_def is_ok_iff Let_def split: sum.splits prod.splits)
  qed
  from b show ?thesis
  proof (cases rule: auth_body_cases)
    case (failed e)
    then have "\<not> is_ok r" by simp
    then show ?thesis using succ failed by auto
  next
    case (ok a drive cache ctx cs)
    note A = authenticateUser_Inr [OF ok(2)]
    have "?ok a" using A ok(3,4,5) by simp
    moreover have "is_ok r" using ok(1) by simp
    moreover have "map_of (br_sessions d) (fresh_ref (br_sessions d)) = None" by (rule fresh_ref_new)
    ultimately show ?thesis using ok(1,7,8) A by (auto simp: d' session_of_def)
  qed
qed

theorem login_outcome_witness:
  "map_of (br_clients demo_session) 1 = Some 0 \<and> (\<exists>s. br_sessions demo_session = [(0, s)] \<and> cd_user s = ''scanner'')"
proof -
  have "br_sessions demo_entered = []" by code_simp
  then show ?thesis using login_outcome [OF demo_login, of "[]"] by auto
qed

section \<open>Failed logins look alike\<close>

text \<open>C20. Logins that fail on their credentials cannot be told apart: whether the account does not exist
  or the password is wrong, the answer, the state of the driver and the outside world are the same,
  and the failure is counted against the address.\<close>

theorem failed_logins_look_alike:
  assumes "authenticateUser IDKey u1 p1 (br_accounts d) = Inl e1" and "authenticateUser IDKey u2 p2 (br_accounts d) = Inl e2"
  shows "auth_finish IDKey sdk t t' c addr u1 p1 d w = auth_finish IDKey sdk t t' c addr u2 p2 d w
    \<and> (\<exists>d'. auth_finish IDKey sdk t t' c addr u1 p1 d w = (Inl ErrInvalidCredentials, d', w)
        \<and> br_authTracker d' = map_option (\<lambda>at. snd (RecordAuthAttempt t' (extractClientIP addr) False at)) (br_authTracker d)
        \<and> br_sessions d' = br_sessions d \<and> br_clients d' = br_clients d)"
  using assms by (simp add: auth_finish_def auth_body_def Let_def auth_leave_def) (simp add: record_attempt_def)

theorem failed_logins_look_alike_witness:
  "auth_finish toy_key demo_sdk 0 0 1 demo_addr ''scanner'' ''guess'' demo_entered []
     = auth_finish toy_key demo_sdk 0 0 1 demo_addr ''nobody'' ''guess'' demo_entered []"
proof -
  have e: "br_accounts demo_entered = [(''scanner'', the_account)]" by code_simp
  have k: "VerifyPassword toy_key (PasswordHash the_account) ''guess'' = Inr False"
    using parse_printed [of 64 3 4 "''0123456789abcdef''" "''hunter2012345678''"]
    by (simp add: example_texts VerifyPassword_def the_account_def an_account_def toy_key_def)
  have wrong: "authenticateUser toy_key ''scanner'' ''guess'' (br_accounts demo_entered) = Inl ErrInvalidCredentials"
    using k by (simp add: authenticateUser_def e)
  obtain x where unknown: "authenticateUser toy_key ''nobody'' ''guess'' (br_accounts demo_entered) = Inl x"
    by (cases "VerifyPassword toy_key dummyPasswordHash ''guess''") (auto simp: authenticateUser_def e)
  show ?thesis by (rule conjunct1 [OF failed_logins_look_alike [OF wrong unknown]])
qed

section \<open>The limit on connections\<close>

text \<open>C38. The limit is checked at login with \<open>>=\<close>, when the connection that logs in has already been
  counted: of \<open>max_connections\<close> connections the last one can never log in, and a limit of one
  locks everybody out.\<close>

theorem last_connection_cannot_login:
  assumes "ClientConnected c addr d = (Inr msg, d1)" and "0 < br_maxConnections d" and "br_maxConnections d \<le> br_active d + 1"
  shows "\<exists>e d2. AuthUser IDKey sdk t t' c addr' user pw d1 w = (Inl e, d2, w)"
proof -
  have a: "br_active d1 = br_active d + 1" "br_maxConnections d1 = br_maxConnections d"
    using assms(1) by (auto simp: ClientConnected_def Let_def emit_def split: prod.splits bool.splits)
  have "\<exists>e d2. auth_enter t addr' d1 = (Some e, d2)"
  proof (cases "br_shutdown d1")
    case False
    obtain l d2 where l: "lockout_check t (extractClientIP addr') d1 = (l, d2)" by fastforce
    have "br_active d2 = br_active d1" "br_maxConnections d2 = br_maxConnections d1" using lockout_check_core [OF l] by simp_all
    then show ?thesis using False l a assms(2,3) by (cases l) (auto simp: auth_enter_def Let_def)
  qed (auto simp: auth_enter_def)
  then show ?thesis by (auto simp: AuthUser_def)
qed

definition one_at_a_time :: BridgeDriver where
  "one_at_a_time = NewBridgeDriver (the_config\<lparr>Server := Server the_config\<lparr>MaxConnections := 1\<rparr>\<rparr>) (new_spool ''/spool'' 1000 [] ctx_init)"

theorem last_connection_cannot_login_witness:
  "\<exists>e d2. AuthUser toy_key demo_sdk 0 0 1 demo_addr ''scanner'' ''hunter2''
     (snd (ClientConnected 1 demo_addr one_at_a_time)) [] = (Inl e, d2, [])"
proof -
  have "fst (ClientConnected 1 demo_addr one_at_a_time) = Inr ''220 ocis-ftp-bridge ready''"
    "br_maxConnections one_at_a_time = 1" "br_active one_at_a_time = 0"
    by code_simp+
  from last_connection_cannot_login [OF split_run [OF this(1)]] this(2,3) show ?thesis by simp
qed

text \<open>A connection that comes and goes.\<close>

definition come_and_go :: "conn_id \<Rightarrow> string \<Rightarrow> BridgeDriver \<Rightarrow> BridgeDriver" where
  "come_and_go c addr d = ClientDisconnected c addr (snd (ClientConnected c addr d))"

lemma come_and_go_refused:
  assumes "fst (AllowConnection_opt (extractClientIP addr) (br_connTracker d)) = False" and "map_of (br_allowed d) c = None"
  shows "br_active (come_and_go c addr d) = br_active d - 1 \<and> br_connTracker (come_and_go c addr d) = br_connTracker d
    \<and> map_of (br_allowed (come_and_go c addr d)) c = None"
proof -
  obtain ct' where a: "AllowConnection_opt (extractClientIP addr) (br_connTracker d) = (False, ct')"
    using assms(1) by (cases "AllowConnection_opt (extractClientIP addr) (br_connTracker d)") auto
  have "ct' = br_connTracker d"
    using a AllowConnection_refused by (auto simp: AllowConnection_opt_def split: option.splits prod.splits)
  then show ?thesis
    using a assms(2) by (simp add: come_and_go_def ClientConnected_def ClientDisconnected_def Let_def)
qed

text \<open>A connection that the per-address limit refuses is not counted when it arrives, but is
  subtracted when it leaves: every refused connection lowers the number of active connections by one,
  below zero if need be, so that the limit on connections can be pushed out of reach.\<close>

theorem refused_connections_lower_the_count:
  assumes "fst (AllowConnection_opt (extractClientIP addr) (br_connTracker d)) = False" and "map_of (br_allowed d) c = None"
  shows "br_active ((come_and_go c addr ^^ n) d) = br_active d - int n"
proof -
  have "br_active ((come_and_go c addr ^^ n) d) = br_active d - int n
    \<and> br_connTracker ((come_and_go c addr ^^ n) d) = br_connTracker d \<and> map_of (br_allowed ((come_and_go c addr ^^ n) d)) c = None"
  proof (induction n)
    case (Suc n)
    then show ?case using come_and_go_refused [of addr "(come_and_go c addr ^^ n) d" c] assms(1) by simp
  qed (simp add: assms(2))
  then show ?thesis by blast
qed

definition no_room :: BridgeDriver where
  "no_room = demo_new\<lparr>br_connTracker := map_option (\<lambda>ct. ct\<lparr>maxGlobal := 1, globalCount := 1\<rparr>) (br_connTracker demo_new), br_active := 1\<rparr>"

theorem refused_connections_lower_the_count_witness:
  "br_active ((come_and_go 7 demo_addr ^^ 3) no_room) = - 2"
proof -
  have "fst (AllowConnection_opt (extractClientIP demo_addr) (br_connTracker no_room)) = False"
    "map_of (br_allowed no_room) 7 = None" "br_active no_room = 1"
    by code_simp+
  with refused_connections_lower_the_count [OF this(1,2), of 3] show ?thesis by simp
qed

end
