(* ===== verification/FtpBoundary.thy ===== *)
theory FtpBoundary
  imports Bridge
begin

text \<open>
  The bridge's boundary to the FTP protocol library (\<open>pkg/ftp/ftp.go\<close>) as far as it is code of the bridge: the
  names it reports and the credential abstraction, whose only implementation refuses everything.
\<close>

definition ProtocolImplementation :: string where
  "ProtocolImplementation = ''github.com/fclairamb/ftpserverlib''"

definition ProtocolVersion :: string where
  "ProtocolVersion = ''v0.32.3''"

record UserInfo =
  ui_UserID :: string
  ui_OCISSpaceID :: string
  ui_Permissions :: "string list"

text \<open>The interface: what \<open>Authenticate\<close> and \<open>GetUserInfo\<close> return.\<close>

record Authenticator =
  au_Authenticate :: "string \<Rightarrow> string \<Rightarrow> bool \<times> goerror option"
  au_GetUserInfo :: "string \<Rightarrow> UserInfo \<times> goerror option"

definition unsupportedAuthenticator :: Authenticator where
  "unsupportedAuthenticator =
     \<lparr>au_Authenticate = (\<lambda>user password. (False, Some ErrNotImplemented)),
      au_GetUserInfo = (\<lambda>user. (\<lparr>ui_UserID = '''', ui_OCISSpaceID = '''', ui_Permissions = []\<rparr>, Some ErrNotImplemented))\<rparr>"

text \<open>The map of credentials is not looked at.\<close>

definition NewAuthenticator :: "(string \<rightharpoonup> string) \<Rightarrow> Authenticator" where
  "NewAuthenticator creds = unsupportedAuthenticator"

text \<open>It never accepts credentials, whatever it was made with, and always says why.\<close>

lemma authenticator_accepts_nobody:
  "au_Authenticate (NewAuthenticator creds) user password = (False, Some ErrNotImplemented)"
  "snd (au_GetUserInfo (NewAuthenticator creds) user) = Some ErrNotImplemented"
  by (simp_all add: NewAuthenticator_def unsupportedAuthenticator_def)

end
