(* ===== verification/Logger.thy ===== *)
theory Logger
  imports Config OsFiles
begin

text \<open>
  Structured logging (\<open>pkg/observability/logger.go\<close>) and the client that wraps it
  (\<open>observability.go\<close>). What is written is the list of records that reach a handler, with the
  output they go to; \<open>log/slog\<close> contributes the handlers' own level filter and the attributes
  collected by \<open>With\<close> and \<open>WithGroup\<close>. Mutexes and the rendering of a record are left out.
\<close>

section \<open>Levels\<close>

datatype Level = LevelDebug | LevelInfo | LevelWarn | LevelError

fun Level_String :: "Level \<Rightarrow> string" where
  "Level_String LevelDebug = ''DEBUG''"
| "Level_String LevelInfo = ''INFO''"
| "Level_String LevelWarn = ''WARN''"
| "Level_String LevelError = ''ERROR''"

text \<open>The level of \<open>log/slog\<close>.\<close>

fun SLogLevel :: "Level \<Rightarrow> int" where
  "SLogLevel LevelDebug = -4"
| "SLogLevel LevelInfo = 0"
| "SLogLevel LevelWarn = 4"
| "SLogLevel LevelError = 8"

definition ParseLevel :: "string \<Rightarrow> Level" where
  "ParseLevel level =
     (if level = ''DEBUG'' \<or> level = ''debug'' then LevelDebug
      else if level = ''INFO'' \<or> level = ''info'' then LevelInfo
      else if level \<in> {''WARN'', ''warn'', ''WARNING'', ''warning''} then LevelWarn
      else if level = ''ERROR'' \<or> level = ''error'' then LevelError
      else LevelInfo)"

text \<open>The constants are numbered in the order of their declaration.\<close>

fun level_number :: "Level \<Rightarrow> nat" where
  "level_number LevelDebug = 0"
| "level_number LevelInfo = 1"
| "level_number LevelWarn = 2"
| "level_number LevelError = 3"

lemma level_number_inj: "level_number a = level_number b \<longleftrightarrow> a = b"
  by (cases a; cases b) simp_all

instantiation Level :: linorder
begin

definition less_eq_Level :: "Level \<Rightarrow> Level \<Rightarrow> bool" where
  "a \<le> b \<longleftrightarrow> level_number a \<le> level_number b"

definition less_Level :: "Level \<Rightarrow> Level \<Rightarrow> bool" where
  "a < b \<longleftrightarrow> level_number a < level_number b"

instance
  by standard (auto simp: less_eq_Level_def less_Level_def level_number_inj)

end

lemma SLogLevel_mono: "SLogLevel a \<le> SLogLevel b \<longleftrightarrow> a \<le> b"
  by (cases a; cases b) (simp_all add: less_eq_Level_def)

section \<open>Loggers\<close>

datatype log_output = Stdout | Stderr | LogFile string

datatype log_format = JSONFormat | TextFormat

text \<open>An attribute: the groups it is in, its key and its value.\<close>

type_synonym attr = "string list \<times> string \<times> string"

record slog_logger =
  sl_output :: log_output
  sl_format :: log_format
  sl_addSource :: bool
  sl_level :: int
  sl_attrs :: "attr list"
  sl_groups :: "string list"

record log_record =
  lr_output :: log_output
  lr_level :: int
  lr_msg :: string
  lr_attrs :: "attr list"

definition slog_with :: "(string \<times> string) list \<Rightarrow> slog_logger \<Rightarrow> slog_logger" where
  "slog_with args l = l\<lparr>sl_attrs := sl_attrs l @ map (\<lambda>(k, v). (sl_groups l, k, v)) args\<rparr>"

definition slog_group :: "string \<Rightarrow> slog_logger \<Rightarrow> slog_logger" where
  "slog_group name l = (if name = '''' then l else l\<lparr>sl_groups := sl_groups l @ [name]\<rparr>)"

definition slog_log :: "slog_logger \<Rightarrow> int \<Rightarrow> string \<Rightarrow> (string \<times> string) list \<Rightarrow> log_record list \<Rightarrow> log_record list" where
  "slog_log l level msg args out =
     (if level < sl_level l then out
      else out @ [\<lparr>lr_output = sl_output l, lr_level = level, lr_msg = msg,
                   lr_attrs = sl_attrs (slog_with args l)\<rparr>])"

record Logger =
  lg_logger :: slog_logger
  lg_level :: Level

definition DefaultLoggerConfig :: LoggerConfig where
  "DefaultLoggerConfig = \<lparr>Log_Level = ''info'', Log_Format = ''json'', Log_Output = ''stdout'', AddSource = True\<rparr>"

text \<open>Opening a log file creates it, for its owner only; the log lines are not kept in the store of files.\<close>

definition getOutputWriter :: "os_env \<Rightarrow> string \<Rightarrow> files \<Rightarrow> (os_error + log_output) \<times> files" where
  "getOutputWriter env output fs =
     (if output = ''stdout'' then (Inr Stdout, fs)
      else if output = ''stderr'' then (Inr Stderr, fs)
      else if output = '''' then (Inr Stdout, fs)
      else case fails env SysOpen output of
        Some e \<Rightarrow> (Inl e, fs)
      | None \<Rightarrow>
          (Inr (LogFile output),
           case map_of fs output of
             None \<Rightarrow> aput output \<lparr>f_content = '''', f_mode = 384, f_mtime = now env\<rparr> fs
           | Some f \<Rightarrow> fs))"

definition NewLogger :: "os_env \<Rightarrow> LoggerConfig \<Rightarrow> files \<Rightarrow> (goerror + Logger) \<times> files" where
  "NewLogger env cfg fs =
     (let level = ParseLevel (Log_Level cfg) in
      case getOutputWriter env (Log_Output cfg) fs of
        (Inl e, fs1) \<Rightarrow> (Inl (Wrapf (''failed to open log output '' @ quoted (Log_Output cfg) @ '': '') (os_err e) ''''), fs1)
      | (Inr w, fs1) \<Rightarrow>
          (let handler = \<lparr>sl_output = w, sl_format = (if Log_Format cfg = ''text'' then TextFormat else JSONFormat),
                          sl_addSource = AddSource cfg, sl_level = SLogLevel level, sl_attrs = [], sl_groups = []\<rparr>
           in (Inr \<lparr>lg_logger = slog_with [(''logger'', ''ocis-ftp-bridge'')] handler, lg_level = level\<rparr>, fs1)))"

text \<open>\<open>Logger.log\<close>, and \<open>Debug\<close>, \<open>Info\<close>, \<open>Warn\<close> and \<open>Error\<close>, which call it with their level.\<close>

definition log_at :: "Level \<Rightarrow> Logger \<Rightarrow> string \<Rightarrow> (string \<times> string) list \<Rightarrow> log_record list \<Rightarrow> log_record list" where
  "log_at level l msg args out =
     (if level < lg_level l then out
      else slog_log (lg_logger l) (SLogLevel level) msg ((''level'', Level_String level) # args) out)"

definition With :: "(string \<times> string) list \<Rightarrow> Logger \<Rightarrow> Logger" where
  "With args l = \<lparr>lg_logger = slog_with args (lg_logger l), lg_level = lg_level l\<rparr>"

definition WithGroup :: "string \<Rightarrow> (string \<times> string) list \<Rightarrow> Logger \<Rightarrow> Logger" where
  "WithGroup key args l = \<lparr>lg_logger = slog_with args (slog_group key (lg_logger l)), lg_level = lg_level l\<rparr>"

definition SetLevel :: "Level \<Rightarrow> Logger \<Rightarrow> Logger" where
  "SetLevel level l = l\<lparr>lg_level := level\<rparr>"

definition GetLevel :: "Logger \<Rightarrow> Level" where
  "GetLevel l = lg_level l"

section \<open>The global logger\<close>

text \<open>The variable, and whether the initialisation of \<open>sync.Once\<close> has run. The default logger writes
  to the standard output, so that making it does not fail.\<close>

record global_logger =
  gl_logger :: "Logger option"
  gl_once :: bool

definition default_logger :: Logger where
  "default_logger =
     \<lparr>lg_logger = \<lparr>sl_output = Stdout, sl_format = JSONFormat, sl_addSource = True, sl_level = 0,
        sl_attrs = [([], ''logger'', ''ocis-ftp-bridge'')], sl_groups = []\<rparr>, lg_level = LevelInfo\<rparr>"

definition GetLogger :: "global_logger \<Rightarrow> Logger option \<times> global_logger" where
  "GetLogger g =
     (let g1 = (if gl_once g then g else g\<lparr>gl_logger := Some default_logger, gl_once := True\<rparr>)
      in (gl_logger g1, g1))"

definition SetGlobalLogger :: "Logger \<Rightarrow> global_logger \<Rightarrow> global_logger" where
  "SetGlobalLogger l g = g\<lparr>gl_logger := Some l\<rparr>"

lemma default_logger_made: "NewLogger env DefaultLoggerConfig fs = (Inr default_logger, fs)"
  by (simp add: NewLogger_def DefaultLoggerConfig_def getOutputWriter_def ParseLevel_def slog_with_def default_logger_def)

text \<open>A logger set before the first use of the global logger is replaced by the default one.\<close>

lemma early_global_logger_lost:
  "fst (GetLogger (SetGlobalLogger l \<lparr>gl_logger = None, gl_once = False\<rparr>)) = Some default_logger"
  by (simp add: GetLogger_def SetGlobalLogger_def)

section \<open>The client\<close>

record defaultClient =
  oc_logger :: Logger
  oc_debug :: bool

definition New_client :: "os_env \<Rightarrow> bool \<Rightarrow> LoggerConfig \<Rightarrow> files \<Rightarrow> log_record list \<Rightarrow> (goerror + defaultClient) \<times> files \<times> log_record list" where
  "New_client env debug cfg fs out =
     (case NewLogger env cfg fs of
        (Inl e, fs1) \<Rightarrow> (Inl e, fs1, out)
      | (Inr l, fs1) \<Rightarrow>
          (Inr \<lparr>oc_logger = l, oc_debug = debug\<rparr>, fs1,
           if debug then log_at LevelDebug l ''Observability: debug mode enabled'' [] out else out))"

definition Start_client :: "defaultClient \<Rightarrow> log_record list \<Rightarrow> goerror option \<times> log_record list" where
  "Start_client c out = (None, log_at LevelInfo (oc_logger c) ''Observability started'' [] out)"

definition Stop_client :: "defaultClient \<Rightarrow> log_record list \<Rightarrow> goerror option \<times> log_record list" where
  "Stop_client c out = (None, log_at LevelInfo (oc_logger c) ''Observability stopped'' [] out)"

text \<open>\<open>strings.ToLower\<close>, on ASCII and on the two runes outside it that have an ASCII lower case.\<close>

definition lower_rune :: "nat \<Rightarrow> nat" where
  "lower_rune r = (if 65 \<le> r \<and> r \<le> 90 then r + 32 else if r = 0x130 then 105 else if r = 0x212A then 107 else r)"

definition ToLower :: "string \<Rightarrow> string" where
  "ToLower s = WriteRunes (map lower_rune (range_runes s))"

definition Log_client :: "string \<Rightarrow> string \<Rightarrow> defaultClient \<Rightarrow> log_record list \<Rightarrow> log_record list" where
  "Log_client level message c out =
     (let l = ToLower level in
      if l = ''debug'' then log_at LevelDebug (oc_logger c) message [] out
      else if l = ''warn'' \<or> l = ''warning'' then log_at LevelWarn (oc_logger c) message [] out
      else if l = ''error'' then log_at LevelError (oc_logger c) message [] out
      else log_at LevelInfo (oc_logger c) message [] out)"

text \<open>The methods that log at one level with structured fields, and the accessor of the logger.\<close>

definition Logger_client :: "defaultClient \<Rightarrow> Logger" where
  "Logger_client c = oc_logger c"

definition Debug_client :: "string \<Rightarrow> (string \<times> string) list \<Rightarrow> defaultClient \<Rightarrow> log_record list \<Rightarrow> log_record list" where
  "Debug_client msg args c out = log_at LevelDebug (oc_logger c) msg args out"

definition Info_client :: "string \<Rightarrow> (string \<times> string) list \<Rightarrow> defaultClient \<Rightarrow> log_record list \<Rightarrow> log_record list" where
  "Info_client msg args c out = log_at LevelInfo (oc_logger c) msg args out"

definition Warn_client :: "string \<Rightarrow> (string \<times> string) list \<Rightarrow> defaultClient \<Rightarrow> log_record list \<Rightarrow> log_record list" where
  "Warn_client msg args c out = log_at LevelWarn (oc_logger c) msg args out"

definition Error_client :: "string \<Rightarrow> (string \<times> string) list \<Rightarrow> defaultClient \<Rightarrow> log_record list \<Rightarrow> log_record list" where
  "Error_client msg args c out = log_at LevelError (oc_logger c) msg args out"

text \<open>The error values of the client, which no function of it returns.\<close>

definition ErrInvalidConfig_obs :: goerror where
  "ErrInvalidConfig_obs = Sentinel ''observability error: '' ''invalid observability config''"

definition ErrObservabilityStop :: goerror where
  "ErrObservabilityStop = Sentinel ''observability error: '' ''failed to stop observability''"

definition Metric :: "string \<Rightarrow> string \<Rightarrow> defaultClient \<Rightarrow> log_record list \<Rightarrow> log_record list" where
  "Metric name value c out = log_at LevelDebug (oc_logger c) ''Metric recorded'' [(''name'', name), (''value'', value)] out"

definition Trace :: "string \<Rightarrow> defaultClient \<Rightarrow> log_record list \<Rightarrow> log_record list" where
  "Trace name c out = log_at LevelDebug (oc_logger c) ''Trace started'' [(''name'', name)] out"

definition Finish_trace :: "global_logger \<Rightarrow> log_record list \<Rightarrow> global_logger \<times> log_record list" where
  "Finish_trace g out =
     (case GetLogger g of
        (None, g1) \<Rightarrow> (g1, out)
      | (Some l, g1) \<Rightarrow> (g1, log_at LevelDebug l ''Trace finished'' [] out))"

section \<open>Properties\<close>

lemma log_at_iff:
  "log_at level l msg args out = (if lg_level l \<le> level \<and> sl_level (lg_logger l) \<le> SLogLevel level
     then out @ [\<lparr>lr_output = sl_output (lg_logger l), lr_level = SLogLevel level, lr_msg = msg,
                 lr_attrs = sl_attrs (lg_logger l) @ (sl_groups (lg_logger l), ''level'', Level_String level)
                   # map (\<lambda>(k, v). (sl_groups (lg_logger l), k, v)) args\<rparr>] else out)"
  by (auto simp: log_at_def slog_log_def slog_with_def)

lemma NewLogger_levels: "NewLogger env cfg fs = (Inr l, fs') \<Longrightarrow>
    lg_level l = ParseLevel (Log_Level cfg) \<and> sl_level (lg_logger l) = SLogLevel (ParseLevel (Log_Level cfg))"
  by (auto simp: NewLogger_def Let_def slog_with_def split: prod.splits sum.splits)

text \<open>C39. A message is written exactly if its level is at least the configured one and at least the
  one set later: \<open>SetLevel\<close> can make a logger quieter than it was configured, but, since the level of
  its handler stays what it was, never more verbose.\<close>

theorem messages_written:
  assumes "NewLogger env cfg fs = (Inr l, fs')"
  shows "log_at m (SetLevel v l) msg args out \<noteq> out \<longleftrightarrow> max (ParseLevel (Log_Level cfg)) v \<le> m"
  using NewLogger_levels [OF assms] by (auto simp: log_at_iff SetLevel_def SLogLevel_mono)

theorem messages_written_witness:
  "log_at LevelInfo (SetLevel LevelDebug default_logger) ''m'' [] [] \<noteq> [] \<and> log_at LevelDebug (SetLevel LevelDebug default_logger) ''m'' [] [] = []"
proof -
  have p: "ParseLevel (Log_Level DefaultLoggerConfig) = LevelInfo" by (simp add: DefaultLoggerConfig_def ParseLevel_def)
  note M = messages_written [OF default_logger_made, of _ LevelDebug "''m''" "[]" "[]", unfolded p]
  have "max LevelInfo LevelDebug \<le> LevelInfo" "\<not> max LevelInfo LevelDebug \<le> LevelDebug"
    by (simp_all add: max_def less_eq_Level_def)
  then show ?thesis using M by blast
qed

text \<open>\<open>Log\<close> keeps the severity it is given: the level may be printed by \<open>Level.String\<close>.\<close>

lemma Log_client_level: "Log_client (Level_String m) msg c out = log_at m (oc_logger c) msg [] out"
proof -
  have "ToLower ''DEBUG'' = ''debug''" "ToLower ''INFO'' = ''info''" "ToLower ''WARN'' = ''warn''" "ToLower ''ERROR'' = ''error''"
    by code_simp+
  then show ?thesis by (cases m) (simp_all add: Log_client_def)
qed

text \<open>A level that is printed is parsed back.\<close>

lemma ParseLevel_String: "ParseLevel (Level_String l) = l"
  by (cases l) (simp_all add: ParseLevel_def)

text \<open>The key \<open>level\<close> is written twice: by the handler, and as an attribute.\<close>

lemma level_attribute: "lg_level l \<le> m \<Longrightarrow> sl_level (lg_logger l) \<le> SLogLevel m \<Longrightarrow>
    \<exists>r. log_at m l msg args out = out @ [r] \<and> (sl_groups (lg_logger l), ''level'', Level_String m) \<in> set (lr_attrs r)"
  by (simp add: log_at_iff)

end
