(* ===== verification/HttpAuth.thy ===== *)
theory HttpAuth
  imports Config
begin

text \<open>
  Authentication of the operations endpoints (\<open>pkg/http/auth.go\<close>): HTTP basic and bearer
  credentials, and the middleware that guards a handler. A request is seen through its
  \<open>Authorization\<close> header, empty when there is none; a handler is what it does for that request.
  \<open>subtle.ConstantTimeCompare\<close> is equality; timing is not modelled.
\<close>

section \<open>Padded base64 and basic credentials\<close>

definition b64_pad :: "nat \<Rightarrow> nat" where
  "b64_pad n = (if n mod 3 = 0 then 0 else 3 - n mod 3)"

definition StdEncode :: "string \<Rightarrow> string" where
  "StdEncode s = EncodeToString s @ replicate (b64_pad (length s)) (CHR ''='')"

definition StdDecode :: "string \<Rightarrow> string option" where
  "StdDecode s =
     (let t = filter (\<lambda>c. c \<noteq> CHR 0x0A \<and> c \<noteq> CHR 0x0D) s; body = TrimRight t ''=''
      in if length t mod 4 = 0 \<and> length t - length body \<le> 2 then DecodeString body else None)"

text \<open>\<open>Request.BasicAuth\<close>: the prefix in any case, then the credentials up to and after the first colon.\<close>

definition BasicAuth :: "string \<Rightarrow> (string \<times> string) option" where
  "BasicAuth auth =
     (if length auth < 6 \<or> map lower (take 6 auth) \<noteq> ''basic '' then None
      else case StdDecode (drop 6 auth) of
        None \<Rightarrow> None
      | Some cs \<Rightarrow>
          if CHR '':'' \<in> set cs then
            Some (takeWhile (\<lambda>c. c \<noteq> CHR '':'') cs, tl (dropWhile (\<lambda>c. c \<noteq> CHR '':'') cs))
          else None)"

text \<open>What a client sends: \<open>Request.SetBasicAuth\<close>.\<close>

definition basic_header :: "string \<Rightarrow> string \<Rightarrow> string" where
  "basic_header user pass = ''Basic '' @ StdEncode (user @ '':'' @ pass)"

section \<open>The guard\<close>

record AuthConfig =
  ac_Enabled :: bool
  ac_Method :: string
  ac_Username :: string
  ac_Password :: string
  ac_Token :: string

definition authRealm :: string where
  "authRealm = ''ocis-ftp-bridge''"

definition authenticate :: "AuthConfig \<Rightarrow> string \<Rightarrow> bool" where
  "authenticate c header =
     (if ac_Method c = ''basic'' then
        (if ac_Password c = '''' then False
         else case BasicAuth header of
           None \<Rightarrow> False
         | Some (user, pass) \<Rightarrow> user = ac_Username c \<and> pass = ac_Password c)
      else if ac_Method c = ''bearer'' then
        (if ac_Token c = '''' then False
         else if \<not> HasPrefix header ''Bearer '' then False
         else TrimPrefix header ''Bearer '' = ac_Token c)
      else False)"

record http_response =
  hr_status :: nat
  hr_headers :: "(string \<times> string) list"
  hr_body :: string

text \<open>\<open>http.Error\<close>.\<close>

definition http_error :: "string \<Rightarrow> nat \<Rightarrow> (string \<times> string) list \<Rightarrow> http_response" where
  "http_error msg code hs =
     \<lparr>hr_status = code,
      hr_headers = hs @ [(''Content-Type'', ''text/plain; charset=utf-8''), (''X-Content-Type-Options'', ''nosniff'')],
      hr_body = msg @ [CHR 0x0A]\<rparr>"

definition unauthorized :: http_response where
  "unauthorized = http_error ''Unauthorized'' 401
     [(''WWW-Authenticate'', ''Basic realm='' @ [CHR 0x22] @ authRealm @ [CHR 0x22])]"

definition middleware :: "AuthConfig \<Rightarrow> ('s \<Rightarrow> http_response \<times> 's) \<Rightarrow> string \<Rightarrow> 's \<Rightarrow> http_response \<times> 's" where
  "middleware c next_handler header s =
     (if \<not> ac_Enabled c then next_handler s
      else if authenticate c header then next_handler s
      else (unauthorized, s))"

section \<open>Base64 round trip\<close>

lemma length_sextets: "length (sextets bs) + b64_pad (length bs) = 4 * ((length bs + 2) div 3)"
proof (induction bs rule: sextets.induct)
  case (4 a b c bs)
  have "(5 + length bs) div 3 = Suc ((length bs + 2) div 3)" by presburger
  moreover have "b64_pad (length (a # b # c # bs)) = b64_pad (length bs)" by (simp add: b64_pad_def)
  ultimately show ?case using 4 by simp
qed (simp_all add: b64_pad_def)

lemma b64_char_no_pad: "n < 64 \<Longrightarrow> b64_char n \<noteq> CHR ''='' \<and> b64_char n \<noteq> CHR 0x0A \<and> b64_char n \<noteq> CHR 0x0D"
proof -
  assume "n < 64"
  then have "(of_char (b64_char n) :: nat) \<notin> {61, 10, 13}"
    by (auto simp: b64_char_def of_char_of)
  then show ?thesis by auto
qed

lemma EncodeToString_plain:
  "c \<in> set (EncodeToString s) \<Longrightarrow> c \<noteq> CHR ''='' \<and> c \<noteq> CHR 0x0A \<and> c \<noteq> CHR 0x0D"
  using sextets_small [of "str_bytes s"] str_bytes_less b64_char_no_pad
  by (auto simp: EncodeToString_def)

lemma TrimRight_padding:
  assumes "c \<notin> set s"
  shows "TrimRight (s @ replicate n c) [c] = s"
proof -
  have "dropWhile (\<lambda>x. x \<in> set [c]) (replicate n c @ rev s) = rev s"
    using assms by (induction n) (auto simp: dropWhile_eq_self_iff hd_rev)
  then show ?thesis by (simp add: TrimRight_def)
qed

lemma StdDecode_StdEncode: "StdDecode (StdEncode s) = Some s"
proof -
  let ?e = "EncodeToString s" and ?k = "b64_pad (length s)"
  have f: "filter (\<lambda>c. c \<noteq> CHR 0x0A \<and> c \<noteq> CHR 0x0D) (StdEncode s) = StdEncode s"
    using EncodeToString_plain by (auto simp: StdEncode_def filter_id_conv)
  have t: "TrimRight (StdEncode s) ''='' = ?e"
    unfolding StdEncode_def by (rule TrimRight_padding) (use EncodeToString_plain in blast)
  have "length (StdEncode s) = 4 * ((length s + 2) div 3)"
    using length_sextets [of "str_bytes s"] by (simp add: StdEncode_def EncodeToString_def str_bytes_def)
  moreover have "?k \<le> 2" by (auto simp: b64_pad_def)
  ultimately show ?thesis
    unfolding StdDecode_def f Let_def t by (simp add: StdEncode_def DecodeString_EncodeToString)
qed

lemma BasicAuth_basic_header:
  assumes "CHR '':'' \<notin> set user"
  shows "BasicAuth (basic_header user pass) = Some (user, pass)"
proof -
  have "map lower ''Basic '' = ''basic ''" by code_simp
  moreover have "takeWhile (\<lambda>c. c \<noteq> CHR '':'') (user @ '':'' @ pass) = user"
    "dropWhile (\<lambda>c. c \<noteq> CHR '':'') (user @ '':'' @ pass) = '':'' @ pass"
    using assms by (auto simp: takeWhile_append dropWhile_append)
  ultimately show ?thesis by (simp add: BasicAuth_def basic_header_def StdDecode_StdEncode)
qed

section \<open>Properties\<close>



end
