(* ===== verification/Operations.thy ===== *)
theory Operations
  imports HttpAuth Bridge
begin

text \<open>
  The operations HTTP server (\<open>pkg/http/server.go\<close>): health checks and their cache, the endpoints,
  the metrics, and its lifecycle. The outside is a parameter: \<open>net\<close> for the requests of the
  checks, \<open>health_env\<close> for what the machine answers, the listener and the rendering of the
  metrics. A Go map that is enumerated is handed to \<open>order\<close>, which stands for the order of the
  enumeration. Durations and byte counts are kept as integers; the conversion to \<open>float64\<close> is exact
  below \<open>2 ^ 53\<close>.
\<close>

section \<open>Metrics\<close>

record prom =
  pm_counters :: "((string \<times> string list) \<times> int) list"
  pm_gauges :: "(string \<times> float64) list"
  pm_observed :: "(string \<times> string list \<times> int) list"

definition counter_value :: "prom \<Rightarrow> string \<Rightarrow> string list \<Rightarrow> int" where
  "counter_value p name labels = (case map_of (pm_counters p) (name, labels) of None \<Rightarrow> 0 | Some n \<Rightarrow> n)"

definition add_counter :: "string \<Rightarrow> string list \<Rightarrow> int \<Rightarrow> prom \<Rightarrow> prom" where
  "add_counter name labels n p =
     p\<lparr>pm_counters := aput (name, labels) (counter_value p name labels + n) (pm_counters p)\<rparr>"

definition set_gauge :: "string \<Rightarrow> float64 \<Rightarrow> prom \<Rightarrow> prom" where
  "set_gauge name v p = p\<lparr>pm_gauges := aput name v (pm_gauges p)\<rparr>"

definition observe :: "string \<Rightarrow> string list \<Rightarrow> int \<Rightarrow> prom \<Rightarrow> prom" where
  "observe name labels ns p = p\<lparr>pm_observed := pm_observed p @ [(name, labels, ns)]\<rparr>"

text \<open>The methods that the FTP driver calls as its metrics recorder.\<close>

fun apply_metric :: "metric \<Rightarrow> prom \<Rightarrow> prom" where
  "apply_metric (IncrementFTPSessionTotal status) p = add_counter ''ocis_ftp_sessions_total'' [status] 1 p"
| "apply_metric (SetFTPActiveSessions n) p = set_gauge ''ocis_ftp_sessions_active'' (n, 0) p"
| "apply_metric (IncrementUploadsTotal status) p = add_counter ''ocis_ftp_uploads_total'' [status] 1 p"
| "apply_metric (IncrementUploadFailuresTotal reason) p = add_counter ''ocis_ftp_uploads_failures_total'' [reason] 1 p"
| "apply_metric (AddUploadBytes n) p = add_counter ''ocis_ftp_uploads_bytes_total'' [] (uint n) p"
| "apply_metric (ObserveUploadDuration d status) p = observe ''ocis_ftp_uploads_duration_seconds'' [status] d p"

definition IncrementOcisRequestsTotal :: "string \<Rightarrow> string \<Rightarrow> prom \<Rightarrow> prom" where
  "IncrementOcisRequestsTotal service status = add_counter ''ocis_ftp_ocis_requests_total'' [service, status] 1"

definition SetSpoolSizeBytes :: "uint64 \<Rightarrow> prom \<Rightarrow> prom" where
  "SetSpoolSizeBytes n = set_gauge ''ocis_ftp_spool_size_bytes'' (uint n, 0)"

definition SetSpoolFileCount :: "uint64 \<Rightarrow> prom \<Rightarrow> prom" where
  "SetSpoolFileCount n = set_gauge ''ocis_ftp_spool_file_count'' (uint n, 0)"

definition SetSpoolCapacityBytes :: "uint64 \<Rightarrow> prom \<Rightarrow> prom" where
  "SetSpoolCapacityBytes n = set_gauge ''ocis_ftp_spool_capacity_bytes'' (uint n, 0)"

definition SetSpoolUsagePercent :: "float64 \<Rightarrow> prom \<Rightarrow> prom" where
  "SetSpoolUsagePercent v = set_gauge ''ocis_ftp_spool_usage_percent'' v"

definition IncrementSpoolCapacityExceededTotal :: "prom \<Rightarrow> prom" where
  "IncrementSpoolCapacityExceededTotal = add_counter ''ocis_ftp_spool_capacity_exceeded_total'' [] 1"

section \<open>The server\<close>

record HealthCheckConfig =
  hc_OCISURL :: string
  hc_OCISUsername :: string
  hc_OCISPassword :: string
  hc_WebDAVURL :: string
  hc_SpoolDirectory :: string
  hc_CheckTimeout :: int

type_synonym check_results = "(string \<times> string) list \<times> string list"

text \<open>\<open>op_cache\<close> is the time and the results of the last checks, \<open>None\<close> before there are any;
  \<open>op_closed\<close> is the state of the \<open>http.Server\<close>, which serves no more once it has been shut down.\<close>

record OperationsServer =
  op_address :: string
  op_auth :: AuthConfig
  op_config :: HealthCheckConfig
  op_healthy :: int
  op_ready :: int
  op_cache :: "(int \<times> check_results) option"
  op_prom :: prom
  op_started :: bool
  op_closed :: bool
  op_actualAddr :: string

definition NewOperationsServer :: "string \<Rightarrow> AuthConfig \<Rightarrow> HealthCheckConfig \<Rightarrow> OperationsServer" where
  "NewOperationsServer address auth hc =
     \<lparr>op_address = address, op_auth = auth, op_config = hc, op_healthy = 1, op_ready = 1, op_cache = None,
      op_prom = \<lparr>pm_counters = [], pm_gauges = [], pm_observed = []\<rparr>,
      op_started = False, op_closed = False, op_actualAddr = ''''\<rparr>"

section \<open>Health checks\<close>

text \<open>The machine: faults and instant of the file operations, the process, the local time as the
  test file has it in its name, \<open>os.Stat\<close> (an error, or whether it is a directory), the status line of
  a response, and the successive readings of the clock.\<close>

record health_env =
  he_os :: os_env
  he_pid :: nat
  he_stamp :: string
  he_stat :: "string \<Rightarrow> os_error + bool"
  he_status :: "response \<Rightarrow> string"
  he_clock :: "nat \<Rightarrow> int"

text \<open>Without credentials the request has the pair of empty strings, which is never sent.\<close>

definition health_request :: "HealthCheckConfig \<Rightarrow> string \<Rightarrow> string \<Rightarrow> (string \<times> string) list \<Rightarrow> request" where
  "health_request c m url hs =
     \<lparr>rq_method = m, rq_url = url, rq_headers = hs,
      rq_auth = (if hc_OCISUsername c \<noteq> '''' \<and> hc_OCISPassword c \<noteq> '''' then (hc_OCISUsername c, hc_OCISPassword c)
                 else ('''', '''')),
      rq_length = 0, rq_body = Some ''''\<rparr>"

definition with_slash :: "string \<Rightarrow> string" where
  "with_slash url = (if HasSuffix url ''/'' then url else url @ ''/'')"

definition checkOCISConnectivity :: "'w net \<Rightarrow> health_env \<Rightarrow> HealthCheckConfig \<Rightarrow> 'w \<Rightarrow> goerror option \<times> 'w" where
  "checkOCISConnectivity net he c w =
     (case parse_url net (with_slash (hc_OCISURL c) @ ''status'') of
        None \<Rightarrow> (Some (Wrapf ''failed to create oCIS request: '' url_error ''''), w)
      | Some url \<Rightarrow>
          (case do_request net (health_request c ''GET'' url []) w of
             ((Inl e, n), w1) \<Rightarrow> (Some (Wrapf ''failed to connect to oCIS: '' e ''''), w1)
           | ((Inr resp, n), w1) \<Rightarrow>
               (if rs_status resp \<noteq> 200 then Some (Opaque (''oCIS returned non-OK status: '' @ he_status he resp)) else None, w1)))"

definition checkWebDAVConnectivity :: "'w net \<Rightarrow> health_env \<Rightarrow> HealthCheckConfig \<Rightarrow> 'w \<Rightarrow> goerror option \<times> 'w" where
  "checkWebDAVConnectivity net he c w =
     (case parse_url net (with_slash (hc_WebDAVURL c)) of
        None \<Rightarrow> (Some (Wrapf ''failed to create WebDAV request: '' url_error ''''), w)
      | Some url \<Rightarrow>
          (case do_request net (health_request c ''PROPFIND'' url [(''Depth'', ''0''), (''Content-Type'', ''application/xml'')]) w of
             ((Inl e, n), w1) \<Rightarrow> (Some (Wrapf ''failed to connect to WebDAV: '' e ''''), w1)
           | ((Inr resp, n), w1) \<Rightarrow>
               (if rs_status resp \<notin> {200, 207, 401, 403}
                then Some (Opaque (''WebDAV returned unexpected status: '' @ he_status he resp)) else None, w1)))"

definition checkSpoolDirectory :: "health_env \<Rightarrow> HealthCheckConfig \<Rightarrow> files \<Rightarrow> goerror option \<times> files" where
  "checkSpoolDirectory he c fs =
     (let dir = hc_SpoolDirectory c in
      if dir = '''' then (Some (Opaque ''spool directory not configured''), fs)
      else case he_stat he dir of
        Inl ErrNotExist \<Rightarrow> (Some (Opaque (''spool directory '' @ quoted dir @ '' does not exist'')), fs)
      | Inl e \<Rightarrow> (Some (Wrapf (''cannot access spool directory '' @ quoted dir @ '': '') (os_err e) ''''), fs)
      | Inr isdir \<Rightarrow>
          if \<not> isdir then (Some (Opaque (''spool path '' @ quoted dir @ '' is not a directory'')), fs)
          else
            let testFile = JoinPath [dir, ''.healthcheck_test_'' @ itoa (he_pid he) @ ''_'' @ he_stamp he] in
            case WriteFile (he_os he) testFile ''test'' 384 fs of
              (Some e, fs1) \<Rightarrow> (Some (Wrapf (''spool directory '' @ quoted dir @ '' is not writable: '') (os_err e) ''''), fs1)
            | (None, fs1) \<Rightarrow> (None, snd (Remove (he_os he) testFile fs1)))"

text \<open>The bookkeeping of one check: its verdict, the text of its failure, its metrics.\<close>

definition note_check ::
  "string \<Rightarrow> string \<Rightarrow> goerror option \<Rightarrow> int \<Rightarrow> check_results \<times> prom \<Rightarrow> check_results \<times> prom"
where
  "note_check name title err duration r =
     (case r of ((checks, failed), p) \<Rightarrow>
        (case err of
           Some e \<Rightarrow>
             ((checks @ [(name, ''failed'')], failed @ [title @ '': '' @ Error e]),
              observe ''ocis_ftp_health_check_duration_seconds'' [name] duration
                (add_counter ''ocis_ftp_health_check_total'' [name, ''failed''] 1 p))
         | None \<Rightarrow>
             ((checks @ [(name, ''ok'')], failed),
              observe ''ocis_ftp_health_check_duration_seconds'' [name] duration
                (add_counter ''ocis_ftp_health_check_total'' [name, ''success''] 1 p))))"

text \<open>The clock is read before and after each of the three checks.\<close>

definition performHealthChecks ::
  "'w net \<Rightarrow> health_env \<Rightarrow> OperationsServer \<Rightarrow> files \<Rightarrow> 'w \<Rightarrow> check_results \<times> OperationsServer \<times> files \<times> 'w"
where
  "performHealthChecks net he s fs w =
     (let c = op_config s; t = he_clock he in
      case checkOCISConnectivity net he c w of (e1, w1) \<Rightarrow>
      case checkWebDAVConnectivity net he c w1 of (e2, w2) \<Rightarrow>
      case checkSpoolDirectory he c fs of (e3, fs1) \<Rightarrow>
      case note_check ''spool_directory'' ''spool directory'' e3 (t 5 - t 4)
             (note_check ''webdav_connectivity'' ''WebDAV connectivity'' e2 (t 3 - t 2)
               (note_check ''ocis_connectivity'' ''oCIS connectivity'' e1 (t 1 - t 0) (([], []), op_prom s))) of
        (r, p) \<Rightarrow> (r, s\<lparr>op_prom := p\<rparr>, fs1, w2))"

section \<open>The cache\<close>

definition healthCheckCacheTTL :: int where
  "healthCheckCacheTTL = 5 * 1000000000"

definition cached_checks :: "int \<Rightarrow> unit \<Rightarrow> (int \<times> check_results) option \<Rightarrow> check_results option" where
  "cached_checks clock k c =
     (case c of None \<Rightarrow> None
      | Some (at, r) \<Rightarrow> if clock - at < healthCheckCacheTTL then Some r else None)"

definition store_checks :: "int \<Rightarrow> unit \<Rightarrow> check_results \<Rightarrow> (int \<times> check_results) option \<Rightarrow> (int \<times> check_results) option" where
  "store_checks clock k r c = Some (clock, r)"

interpretation health_cache: ttl_cache cached_checks store_checks healthCheckCacheTTL
  by unfold_locales (auto simp: cached_checks_def store_checks_def)

text \<open>\<open>clock\<close> is the instant of the request, \<open>clock'\<close> the one after the checks.\<close>

definition cachedHealthChecks ::
  "'w net \<Rightarrow> health_env \<Rightarrow> int \<Rightarrow> int \<Rightarrow> OperationsServer \<Rightarrow> files \<Rightarrow> 'w \<Rightarrow> check_results \<times> OperationsServer \<times> files \<times> 'w"
where
  "cachedHealthChecks net he clock clock' s fs w =
     (case cached_checks clock () (op_cache s) of
        Some r \<Rightarrow> (r, s, fs, w)
      | None \<Rightarrow>
          (case performHealthChecks net he s fs w of
             (r, s1, fs1, w1) \<Rightarrow> (r, s1\<lparr>op_cache := store_checks clock' () r (op_cache s1)\<rparr>, fs1, w1)))"

section \<open>JSON\<close>

abbreviation backslash :: char where
  "backslash \<equiv> CHR 0x5C"

abbreviation dquote :: char where
  "dquote \<equiv> CHR 0x22"

text \<open>\<open>strings.ReplaceAll\<close>; the replaced string is not empty.\<close>

function ReplaceAll :: "string \<Rightarrow> string \<Rightarrow> string \<Rightarrow> string" where
  "ReplaceAll old new [] = []"
| "ReplaceAll old new (c # cs) =
     (if old \<noteq> [] \<and> HasPrefix (c # cs) old then new @ ReplaceAll old new (drop (length old) (c # cs))
      else c # ReplaceAll old new cs)"
  by pat_completeness auto
termination
  by (relation "measure (\<lambda>(old, new, s). length s)") auto

definition escapeJSON :: "string \<Rightarrow> string" where
  "escapeJSON s =
     ReplaceAll [backslash, CHR ''t''] [backslash, CHR ''t'']
       (ReplaceAll [backslash, CHR ''n''] [backslash, CHR ''n'']
         (ReplaceAll [dquote] [backslash, dquote]
           (ReplaceAll [backslash] [backslash, backslash] s)))"

definition json_quoted :: "string \<Rightarrow> string" where
  "json_quoted s = dquote # s @ [dquote]"

definition checks_json :: "(string \<times> string) list \<Rightarrow> string" where
  "checks_json cs = ''{'' @ Join '','' (map (\<lambda>(k, v). json_quoted k @ '':'' @ json_quoted v) cs) @ ''}''"

definition errors_json :: "string list \<Rightarrow> string" where
  "errors_json es = ''['' @ Join '','' (map (\<lambda>e. json_quoted (escapeJSON e)) es) @ '']''"

text \<open>The time in UTC, with the quotes.\<close>

definition getCurrentTimestamp :: "int \<Rightarrow> string" where
  "getCurrentTimestamp clock = json_quoted (format_rfc3339 clock)"

section \<open>Endpoints\<close>

definition json_response :: "nat \<Rightarrow> string \<Rightarrow> http_response" where
  "json_response code body =
     \<lparr>hr_status = code, hr_headers = [(''Content-Type'', ''application/json; charset=utf-8'')], hr_body = body\<rparr>"

definition healthz :: "int \<Rightarrow> OperationsServer \<Rightarrow> http_response" where
  "healthz clock s =
     (if op_healthy s = 0 then http_error ''Service is unhealthy'' 503 []
      else json_response 200 (''{'' @ json_quoted ''status'' @ '':'' @ json_quoted ''live'' @ '','' @ json_quoted ''timestamp'' @ '':''
             @ getCurrentTimestamp clock @ ''}''))"

definition readyz ::
  "'w net \<Rightarrow> health_env \<Rightarrow> ((string \<times> string) list \<Rightarrow> (string \<times> string) list) \<Rightarrow> int \<Rightarrow> int \<Rightarrow>
     OperationsServer \<times> files \<times> 'w \<Rightarrow> http_response \<times> OperationsServer \<times> files \<times> 'w"
where
  "readyz net he order clock clock' st =
     (case st of (s, fs, w) \<Rightarrow>
      if op_ready s = 0 then
        (\<lparr>hr_status = 503, hr_headers = [(''Content-Type'', ''text/plain; charset=utf-8'')],
          hr_body = ''Service is not ready to accept traffic''\<rparr>, s, fs, w)
      else case cachedHealthChecks net he clock clock' s fs w of
        ((checks, failed), s1, fs1, w1) \<Rightarrow>
          if failed \<noteq> [] then
            (json_response 503 (''{'' @ json_quoted ''status'' @ '':'' @ json_quoted ''not_ready'' @ '','' @ json_quoted ''checks'' @ '':''
               @ checks_json (order checks) @ '','' @ json_quoted ''errors'' @ '':'' @ errors_json failed @ '',''
               @ json_quoted ''timestamp'' @ '':'' @ getCurrentTimestamp clock' @ ''}''), s1, fs1, w1)
          else
            (json_response 200 (''{'' @ json_quoted ''status'' @ '':'' @ json_quoted ''ready'' @ '','' @ json_quoted ''checks'' @ '':''
               @ checks_json (order checks) @ '','' @ json_quoted ''timestamp'' @ '':'' @ getCurrentTimestamp clock' @ ''}''), s1, fs1, w1))"

text \<open>A request to one of the paths that are registered; \<open>show_metrics\<close> is the handler of the metrics library.\<close>

datatype endpoint = Healthz | Readyz | Metrics

definition serve ::
  "'w net \<Rightarrow> health_env \<Rightarrow> ((string \<times> string) list \<Rightarrow> (string \<times> string) list) \<Rightarrow> (prom \<Rightarrow> http_response) \<Rightarrow> int \<Rightarrow> int \<Rightarrow>
     endpoint \<Rightarrow> string \<Rightarrow> OperationsServer \<times> files \<times> 'w \<Rightarrow> http_response \<times> OperationsServer \<times> files \<times> 'w"
where
  "serve net he order show_metrics clock clock' ep header st =
     (let auth = op_auth (fst st) in
      case ep of
        Healthz \<Rightarrow> (healthz clock (fst st), st)
      | Readyz \<Rightarrow> middleware auth (readyz net he order clock clock') header st
      | Metrics \<Rightarrow> middleware auth (\<lambda>x. (show_metrics (op_prom (fst x)), x)) header st)"

section \<open>State and lifecycle\<close>

definition UpdateReadiness :: "'w net \<Rightarrow> health_env \<Rightarrow> OperationsServer \<Rightarrow> files \<Rightarrow> 'w \<Rightarrow> OperationsServer \<times> files \<times> 'w" where
  "UpdateReadiness net he s fs w =
     (case performHealthChecks net he s fs w of
        ((checks, failed), s1, fs1, w1) \<Rightarrow> (s1\<lparr>op_ready := (if failed \<noteq> [] then 0 else 1)\<rparr>, fs1, w1))"

definition SetHealthy :: "bool \<Rightarrow> OperationsServer \<Rightarrow> OperationsServer" where
  "SetHealthy b s = s\<lparr>op_healthy := (if b then 1 else 0)\<rparr>"

definition SetReady :: "bool \<Rightarrow> OperationsServer \<Rightarrow> OperationsServer" where
  "SetReady b s = s\<lparr>op_ready := (if b then 1 else 0)\<rparr>"

definition IsHealthy :: "OperationsServer \<Rightarrow> bool" where
  "IsHealthy s \<longleftrightarrow> op_healthy s = 1"

definition IsReady :: "OperationsServer \<Rightarrow> bool" where
  "IsReady s \<longleftrightarrow> op_ready s = 1"

definition Addr :: "OperationsServer \<Rightarrow> string" where
  "Addr s = op_actualAddr s"

text \<open>\<open>listen\<close> is \<open>net.Listen\<close>: an error, or the address of the listener.\<close>

definition Run_http :: "(string \<Rightarrow> goerror + string) \<Rightarrow> OperationsServer \<Rightarrow> goerror option \<times> OperationsServer" where
  "Run_http listen s =
     (if op_started s then (Some (Opaque ''HTTP server already started''), s)
      else case listen (op_address s) of
        Inl e \<Rightarrow> (Some (Wrapf (''failed to listen on '' @ op_address s @ '': '') e ''''), s\<lparr>op_started := False\<rparr>)
      | Inr addr \<Rightarrow> (None, s\<lparr>op_started := True, op_actualAddr := addr\<rparr>))"

text \<open>\<open>shutdown\<close> is the error of \<open>http.Server.Shutdown\<close>, if any.\<close>

definition Stop_http :: "goerror option \<Rightarrow> OperationsServer \<Rightarrow> goerror option \<times> OperationsServer" where
  "Stop_http shutdown s =
     (if \<not> op_started s then (None, s)
      else case shutdown of
        Some e \<Rightarrow> (Some (Wrapf ''HTTP server shutdown failed: '' e ''''), s\<lparr>op_closed := True\<rparr>)
      | None \<Rightarrow> (None, s\<lparr>op_started := False, op_closed := True\<rparr>))"

definition serving :: "OperationsServer \<Rightarrow> bool" where
  "serving s \<longleftrightarrow> op_started s \<and> \<not> op_closed s"

end
