(* ===== verification/OperationsProps.thy ===== *)
theory OperationsProps
  imports Operations BridgeExample
begin

text \<open>
  What the operations server answers: readiness is the conjunction of the three checks, the checks are
  made at most once per time to live, error texts survive the way they are put into JSON unless
  they have control characters, and the lifecycle.
\<close>

section \<open>JSON\<close>

lemma ReplaceAll_same: "ReplaceAll p p s = s"
proof (induction s rule: length_induct)
  case (1 s)
  show ?case
  proof (cases s)
    case (Cons c cs)
    show ?thesis
    proof (cases "p \<noteq> [] \<and> HasPrefix (c # cs) p")
      case True
      then obtain zs where zs: "c # cs = p @ zs" by (auto simp: prefix_def)
      have "ReplaceAll p p zs = zs" using 1 True Cons zs by simp
      moreover have "drop (length p) (c # cs) = zs" by (simp add: zs)
      moreover have "ReplaceAll p p (c # cs) = p @ ReplaceAll p p (drop (length p) (c # cs))" using True by simp
      ultimately show ?thesis using Cons zs by simp
    next
      case False
      then show ?thesis using 1 Cons by auto
    qed
  qed simp
qed

lemma ReplaceAll_char: "ReplaceAll [a] n s = concat (map (\<lambda>c. if c = a then n else [c]) s)"
  by (induction s) auto

definition json_char :: "char \<Rightarrow> string" where
  "json_char c = (if c = backslash then [backslash, backslash] else if c = dquote then [backslash, dquote] else [c])"

text \<open>Only backslashes and quotes are escaped: the last two replacements change nothing.\<close>

lemma escapeJSON_chars: "escapeJSON s = concat (map json_char s)"
proof -
  have "ReplaceAll [dquote] [backslash, dquote] (ReplaceAll [backslash] [backslash, backslash] s) = concat (map json_char s)"
    by (induction s) (auto simp: ReplaceAll_char json_char_def)
  then show ?thesis by (simp add: escapeJSON_def ReplaceAll_same)
qed

text \<open>Reading a JSON string after its opening quote: the text, and what follows the closing quote.
  A control character is not allowed in it; of the escapes, those with a letter \<open>u\<close> are left out.\<close>

definition json_escape :: "char \<Rightarrow> char option" where
  "json_escape c =
     (if c = dquote \<or> c = backslash \<or> c = CHR ''/'' then Some c
      else if c = CHR ''b'' then Some (CHR 0x08) else if c = CHR ''f'' then Some (CHR 0x0C)
      else if c = CHR ''n'' then Some (CHR 0x0A) else if c = CHR ''r'' then Some (CHR 0x0D)
      else if c = CHR ''t'' then Some (CHR 0x09) else None)"

definition control_char :: "char \<Rightarrow> bool" where
  "control_char c \<longleftrightarrow> of_char c < (32 :: nat)"

fun read_literal :: "string \<Rightarrow> (string \<times> string) option" where
  "read_literal [] = None"
| "read_literal [c] = (if c = dquote then Some ('''', '''') else None)"
| "read_literal (c # d # cs) =
     (if c = dquote then Some ('''', d # cs)
      else if c = backslash then
        (case json_escape d of
           None \<Rightarrow> None
         | Some e \<Rightarrow> map_option (\<lambda>(s, r). (e # s, r)) (read_literal cs))
      else if control_char c then None
      else map_option (\<lambda>(s, r). (c # s, r)) (read_literal (d # cs)))"

lemma read_plain:
  "c \<noteq> dquote \<Longrightarrow> c \<noteq> backslash \<Longrightarrow> t \<noteq> [] \<Longrightarrow> read_literal (c # t) =
     (if control_char c then None else map_option (\<lambda>(s, r). (c # s, r)) (read_literal t))"
  by (cases t) simp_all

text \<open>C28. An error text that the readiness endpoint puts into its JSON answer is read back as it was,
  and nothing of it leaks out of the string, exactly if it has no control character; a text with
  a line break or a tab makes the answer invalid JSON, since these are not escaped.\<close>

theorem error_text_read_back:
  "read_literal (escapeJSON s @ dquote # rest) = (if list_ex control_char s then None else Some (s, rest))"
  unfolding escapeJSON_chars
proof (induction s)
  case Nil
  show ?case by (cases rest) simp_all
next
  case (Cons c s)
  have no: "\<not> control_char backslash" "\<not> control_char dquote" by (simp_all add: control_char_def)
  consider "c = backslash" | "c = dquote" | "c \<noteq> backslash" "c \<noteq> dquote" by blast
  then show ?case
  proof cases
    case 1
    then show ?thesis using Cons no by (simp add: json_char_def json_escape_def)
  next
    case 2
    then show ?thesis using Cons no by (simp add: json_char_def json_escape_def)
  next
    case 3
    then show ?thesis using Cons read_plain [OF 3(2,1)] by (simp add: json_char_def)
  qed
qed

section \<open>Readiness\<close>

lemma note_check_failed:
  "note_check name title err d ((checks, failed), p) = ((checks', failed'), p') \<Longrightarrow> failed' = [] \<longleftrightarrow> failed = [] \<and> err = None"
  by (auto simp: note_check_def split: option.splits)

lemma healthy_iff:
  assumes "performHealthChecks net he s fs w = ((checks, failed), s', fs', w')"
  shows "failed = [] \<longleftrightarrow> fst (checkOCISConnectivity net he (op_config s) w) = None
    \<and> fst (checkWebDAVConnectivity net he (op_config s) (snd (checkOCISConnectivity net he (op_config s) w))) = None
    \<and> fst (checkSpoolDirectory he (op_config s) fs) = None"
  using assms by (auto simp: performHealthChecks_def Let_def note_check_def split: prod.splits option.splits)

text \<open>C26. Readiness: a request that has to make the checks is answered with 200 exactly if the server is
  not marked as not ready, oCIS answers, WebDAV answers and the spool directory can be written, and with
  503 otherwise. The results are kept: whatever is asked within the next five seconds is answered
  from them, without a request to oCIS, a file operation or a metric, and alike while the server
  stays marked as ready.\<close>

theorem readiness_checked_and_cached:
  assumes "op_ready s \<noteq> 0" and "cached_checks t () (op_cache s) = None"
    and "readyz net he order t t' (s, fs, w) = (r, s', fs', w')"
  shows "(hr_status r = 200 \<longleftrightarrow> fst (checkOCISConnectivity net he (op_config s) w) = None
      \<and> fst (checkWebDAVConnectivity net he (op_config s) (snd (checkOCISConnectivity net he (op_config s) w))) = None
      \<and> fst (checkSpoolDirectory he (op_config s) fs) = None)
    \<and> (hr_status r = 200 \<or> hr_status r = 503)
    \<and> (t' \<le> u \<and> u < t' + healthCheckCacheTTL \<longrightarrow>
         (\<exists>r'. readyz net2 he2 order u u' (s', fs2, w2) = (r', s', fs2, w2) \<and> hr_status r' = hr_status r))"
proof -
  obtain checks failed s1 where p: "performHealthChecks net he s fs w = ((checks, failed), s1, fs', w')"
    and s': "s' = s1\<lparr>op_cache := store_checks t' () (checks, failed) (op_cache s1)\<rparr>"
    using assms by (auto simp: readyz_def cachedHealthChecks_def split: prod.splits if_splits)
  have rdy: "op_ready s' \<noteq> 0"
    using assms(1) p by (auto simp: s' performHealthChecks_def Let_def split: prod.splits)
  have st: "hr_status r = (if failed = [] then 200 else 503)"
    using assms p by (auto simp: readyz_def cachedHealthChecks_def json_response_def split: prod.splits if_splits)
  have c: "cached_checks u () (op_cache s') = Some (checks, failed)" if "t' \<le> u" "u < t' + healthCheckCacheTTL"
    unfolding s' using health_cache.get_put_fresh [OF that] by simp
  have "\<exists>r'. readyz net2 he2 order u u' (s', fs2, w2) = (r', s', fs2, w2) \<and> hr_status r' = hr_status r"
    if "t' \<le> u \<and> u < t' + healthCheckCacheTTL"
    using c that rdy st by (auto simp: readyz_def cachedHealthChecks_def json_response_def)
  then show ?thesis using st healthy_iff [OF p] by auto
qed

definition demo_health :: health_env where
  "demo_health = \<lparr>he_os = example_env 5 7, he_pid = 1, he_stamp = ''20240229123456'', he_stat = (\<lambda>_. Inr True),
     he_status = (\<lambda>r. itoa_int (rs_status r)), he_clock = int\<rparr>"

definition demo_operations :: OperationsServer where
  "demo_operations = NewOperationsServer ''127.0.0.1:9090''
     \<lparr>ac_Enabled = True, ac_Method = ''basic'', ac_Username = ''admin'', ac_Password = ''s3cret'', ac_Token = ''''\<rparr>
     \<lparr>hc_OCISURL = ''http://ocis'', hc_OCISUsername = '''', hc_OCISPassword = '''', hc_WebDAVURL = ''http://ocis/dav'',
      hc_SpoolDirectory = ''/spool'', hc_CheckTimeout = 5000000000\<rparr>"

theorem readiness_checked_and_cached_witness:
  "hr_status (fst (readyz scripted demo_health id 0 10 (demo_operations, [], [200, 207]))) = 200
   \<and> (\<exists>r'. readyz scripted demo_health id 4999999999 4999999999
        (fst (snd (readyz scripted demo_health id 0 10 (demo_operations, [], [200, 207]))), [], [503])
      = (r', fst (snd (readyz scripted demo_health id 0 10 (demo_operations, [], [200, 207]))), [], [503]) \<and> hr_status r' = 200)"
proof -
  let ?z = "readyz scripted demo_health id 0 10 (demo_operations, [], [200, 207])"
  obtain r s' fs' w' where z: "?z = (r, s', fs', w')" by (metis prod.collapse)
  have c: "fst (checkOCISConnectivity scripted demo_health (op_config demo_operations) [200, 207]) = None"
    "snd (checkOCISConnectivity scripted demo_health (op_config demo_operations) [200, 207]) = [207]"
    "fst (checkWebDAVConnectivity scripted demo_health (op_config demo_operations) [207]) = None"
    "fst (checkSpoolDirectory demo_health (op_config demo_operations) []) = None"
    by code_simp+
  have n: "op_ready demo_operations \<noteq> 0" "cached_checks 0 () (op_cache demo_operations) = None"
    by (simp_all add: demo_operations_def NewOperationsServer_def cached_checks_def)
  note R = readiness_checked_and_cached [OF n z]
  have "hr_status r = 200" using R [THEN conjunct1] c by simp
  moreover have "\<exists>r'. readyz scripted demo_health id 4999999999 4999999999 (s', [], [503]) = (r', s', [], [503]) \<and> hr_status r' = hr_status r"
    using R [THEN conjunct2, THEN conjunct2, of 4999999999 scripted demo_health 4999999999 "[]" "[503]"]
    by (simp add: healthCheckCacheTTL_def)
  ultimately show ?thesis by (simp add: z)
qed

section \<open>Lifecycle\<close>

text \<open>A server that has been stopped can be started again without an error, but serves nothing.\<close>

lemma restarted_server_is_silent:
  assumes "op_started s" and "Stop_http None s = (e, s1)" and "listen (op_address s) = Inr addr"
  shows "\<exists>s2. Run_http listen s1 = (None, s2) \<and> op_started s2 \<and> \<not> serving s2"
  using assms by (auto simp: Stop_http_def Run_http_def serving_def)

lemma run_then_stop:
  assumes "\<not> op_started s" and "\<not> op_closed s" and "listen (op_address s) = Inr addr"
  shows "\<exists>s1. Run_http listen s = (None, s1) \<and> serving s1 \<and> Addr s1 = addr \<and> fst (Run_http listen s1) \<noteq> None
    \<and> (\<exists>s2. Stop_http None s1 = (None, s2) \<and> \<not> serving s2 \<and> fst (Stop_http x s2) = None)"
  using assms by (auto simp: Stop_http_def Run_http_def serving_def Addr_def)

text \<open>The metrics of the FTP driver end up in the counters.\<close>

lemma counter_add: "counter_value (add_counter name ls n p) name' ls'
    = counter_value p name' ls' + (if (name, ls) = (name', ls') then n else 0)"
  by (auto simp: counter_value_def add_counter_def)

end
