(* ===== verification/Monitor.thy ===== *)
theory Monitor
  imports Operations
begin

text \<open>
  The spool monitor (\<open>pkg/spool/monitor.go\<close>): what it publishes and logs at each check. The usage
  comes from the counters of the spool, or from a walk over its directory. The percentage is computed
  in \<open>float64\<close>, rounding to nearest even; its values here are far from the limits of the exponent.
\<close>

section \<open>Floating point\<close>

fun bit_length :: "nat \<Rightarrow> nat" where
  "bit_length n = (if n = 0 then 0 else Suc (bit_length (n div 2)))"

declare bit_length.simps [simp del]

text \<open>\<open>m / d * 2 ^ s\<close> as an integer, to the nearest, ties to even.\<close>

definition nearest :: "int \<Rightarrow> int \<Rightarrow> int" where
  "nearest n d =
     (let q = n div d; r = n mod d
      in if 2 * r < d \<or> (2 * r = d \<and> even q) then q else q + 1)"

text \<open>\<open>n / d\<close> rounded to 53 bits, for \<open>0 \<le> n\<close> and \<open>0 < d\<close>.\<close>

definition fround :: "int \<Rightarrow> int \<Rightarrow> float64" where
  "fround n d =
     (if n = 0 then (0, 0)
      else
        let scale = (\<lambda>e. nearest (n * 2 ^ nat (- e)) (d * 2 ^ nat e));
            e0 = int (bit_length (nat n)) - int (bit_length (nat d)) - 53;
            big = (if 0 \<le> e0 then n \<ge> d * 2 ^ nat (e0 + 53) else n * 2 ^ nat (- e0) \<ge> d * 2 ^ 53)
        in (if big then (scale (e0 + 1), e0 + 1) else (scale e0, e0)))"

definition float_of_uint :: "uint64 \<Rightarrow> float64" where
  "float_of_uint w = fround (uint w) 1"

definition fdiv :: "float64 \<Rightarrow> float64 \<Rightarrow> float64" where
  "fdiv a b = (case fround (fst a) (fst b) of (m, e) \<Rightarrow> (m, e + snd a - snd b))"

definition fmul :: "float64 \<Rightarrow> float64 \<Rightarrow> float64" where
  "fmul a b = (case fround (fst a * fst b) 1 of (m, e) \<Rightarrow> (m, e + snd a + snd b))"

definition fle :: "float64 \<Rightarrow> float64 \<Rightarrow> bool" where
  "fle a b \<longleftrightarrow>
     (let e = min (snd a) (snd b) in fst a * 2 ^ nat (snd a - e) \<le> fst b * 2 ^ nat (snd b - e))"

definition usage_percent :: "uint64 \<Rightarrow> uint64 \<Rightarrow> float64" where
  "usage_percent used maxSize =
     (if maxSize > 0 then fmul (fdiv (float_of_uint used) (float_of_uint maxSize)) (100, 0) else (0, 0))"

section \<open>The monitor\<close>

record Monitor =
  mo_spoolDir :: string
  mo_maxSize :: uint64
  mo_config :: MonitoringConfig

datatype monitor_log = MonitoringDisabled | InvalidInterval int | MonitoringStarted | UsageFailed os_error
  | PermissionDenied string | Usage uint64 uint64 | WarningExceeded | CriticalExceeded | CapacityExceededLog | MonitoringStopped

definition NewMonitor :: "string \<Rightarrow> uint64 \<Rightarrow> MonitoringConfig \<Rightarrow> Monitor" where
  "NewMonitor dir mx cfg = \<lparr>mo_spoolDir = dir, mo_maxSize = mx, mo_config = cfg\<rparr>"

text \<open>Whether the loop is started, and what is published and logged before.\<close>

definition Start_monitor :: "Monitor \<Rightarrow> prom option \<Rightarrow> bool \<times> Monitor \<times> prom option \<times> monitor_log list" where
  "Start_monitor m p =
     (let c = mo_config m in
      if \<not> Mon_Enabled c then (False, m, p, [MonitoringDisabled])
      else
        let bad = CheckInterval c \<le> 0;
            m1 = (if bad then m\<lparr>mo_config := c\<lparr>CheckInterval := 30 * 1000000000\<rparr>\<rparr> else m)
        in (True, m1, map_option (SetSpoolCapacityBytes (mo_maxSize m1)) p,
            (if bad then [InvalidInterval (CheckInterval c)] else []) @ [MonitoringStarted]))"

text \<open>What \<open>filepath.Walk\<close> reports of a path: an error, and whether it is a denied permission; a
  directory; or a file with its size. A denied permission is logged and passed over, any other
  error ends the walk.\<close>

datatype walk_info = WalkError bool os_error | WalkDir | WalkFile int

definition hidden :: "string \<Rightarrow> bool" where
  "hidden path \<longleftrightarrow> HasPrefix (Base path) ''.''"

fun walk_usage ::
  "(string \<times> walk_info) list \<Rightarrow> uint64 \<times> uint64 \<Rightarrow> (os_error option \<times> uint64 \<times> uint64) \<times> monitor_log list"
where
  "walk_usage [] acc = ((None, acc), [])"
| "walk_usage ((p, WalkError denied e) # ps) acc =
     (if denied then (case walk_usage ps acc of (r, l) \<Rightarrow> (r, PermissionDenied p # l))
      else ((Some e, acc), []))"
| "walk_usage ((p, WalkDir) # ps) acc = walk_usage ps acc"
| "walk_usage ((p, WalkFile sz) # ps) (bytes, num) =
     (if hidden p then walk_usage ps (bytes, num)
      else walk_usage ps (if sz > 0 then bytes + to_uint64 sz else bytes, num + 1))"

definition calculateCurrentUsage ::
  "(string \<Rightarrow> (string \<times> walk_info) list) \<Rightarrow> Monitor \<Rightarrow> (os_error option \<times> uint64 \<times> uint64) \<times> monitor_log list"
where
  "calculateCurrentUsage walk m = walk_usage (walk (mo_spoolDir m)) (0, 0)"

text \<open>\<open>usage\<close> is the value of the usage function, if there is one; \<open>walk\<close> is what a walk of a
  directory visits, in order.\<close>

definition monitor_usage ::
  "(uint64 \<times> uint64) option \<Rightarrow> (string \<Rightarrow> (string \<times> walk_info) list) \<Rightarrow> Monitor \<Rightarrow>
     (os_error option \<times> uint64 \<times> uint64) \<times> monitor_log list"
where
  "monitor_usage usage walk m = (case usage of Some u \<Rightarrow> ((None, u), []) | None \<Rightarrow> calculateCurrentUsage walk m)"

definition checkSpoolUsage ::
  "(uint64 \<times> uint64) option \<Rightarrow> (string \<Rightarrow> (string \<times> walk_info) list) \<Rightarrow> Monitor \<Rightarrow> prom option \<Rightarrow>
     prom option \<times> monitor_log list"
where
  "checkSpoolUsage usage walk m p =
     (case monitor_usage usage walk m of
        ((Some e, _), l) \<Rightarrow> (p, l @ [UsageFailed e])
      | ((None, used, num), l) \<Rightarrow>
          (let percent = usage_percent used (mo_maxSize m); c = mo_config m
           in (map_option (\<lambda>p. SetSpoolUsagePercent percent (SetSpoolCapacityBytes (mo_maxSize m)
                 (SetSpoolFileCount num (SetSpoolSizeBytes used p)))) p,
               l @ [Usage used num]
                 @ (if fle (WarningThreshold c) percent then [WarningExceeded] else [])
                 @ (if fle (CriticalThreshold c) percent then [CriticalExceeded] else []))))"

text \<open>The loop: \<open>ticks\<close> are the values of the usage function at the successive ticks, until the monitor
  is stopped.\<close>

fun monitorLoop ::
  "(string \<Rightarrow> (string \<times> walk_info) list) \<Rightarrow> Monitor \<Rightarrow> (uint64 \<times> uint64) option list \<Rightarrow> prom option \<Rightarrow>
     prom option \<times> monitor_log list"
where
  "monitorLoop walk m [] p = (p, [MonitoringStopped])"
| "monitorLoop walk m (usage # ticks) p =
     (case checkSpoolUsage usage walk m p of
        (p1, l1) \<Rightarrow> (case monitorLoop walk m ticks p1 of (p2, l2) \<Rightarrow> (p2, l1 @ l2)))"

definition CapacityExceeded :: "prom option \<Rightarrow> prom option \<times> monitor_log list" where
  "CapacityExceeded p = (map_option IncrementSpoolCapacityExceededTotal p, [CapacityExceededLog])"

section \<open>What is published\<close>

definition gauge :: "prom \<Rightarrow> string \<Rightarrow> float64 option" where
  "gauge p name = map_of (pm_gauges p) name"

text \<open>With the counters of the spool, the gauges are the bytes and the number of the uploads in progress.\<close>

lemma published_usage:
  assumes "checkSpoolUsage (Some (currentUsage s, of_nat (length (activeUploads s)))) walk m (Some p) = (p', l)"
  shows "\<exists>q. p' = Some q \<and> gauge q ''ocis_ftp_spool_size_bytes'' = Some (uint (currentUsage s), 0)
    \<and> gauge q ''ocis_ftp_spool_file_count'' = Some (uint (of_nat (length (activeUploads s)) :: uint64), 0)
    \<and> gauge q ''ocis_ftp_spool_capacity_bytes'' = Some (uint (mo_maxSize m), 0)"
  using assms
  by (auto simp: checkSpoolUsage_def monitor_usage_def Let_def gauge_def set_gauge_def SetSpoolUsagePercent_def
      SetSpoolCapacityBytes_def SetSpoolFileCount_def SetSpoolSizeBytes_def)

text \<open>The visible files of a walk, and what the walk computes: the sum of their sizes modulo
  \<open>2 ^ 64\<close> and their number, however many directories and denied paths there are among them.\<close>

fun visible_sizes :: "(string \<times> walk_info) list \<Rightarrow> int list" where
  "visible_sizes [] = []"
| "visible_sizes ((p, WalkFile sz) # ps) = (if hidden p then visible_sizes ps else sz # visible_sizes ps)"
| "visible_sizes (v # ps) = visible_sizes ps"

fun walks_on :: "walk_info \<Rightarrow> bool" where
  "walks_on (WalkError denied e) = denied"
| "walks_on WalkDir = True"
| "walks_on (WalkFile sz) = (0 \<le> sz)"

lemma walk_usage_sum:
  assumes "\<forall>v \<in> set visits. walks_on (snd v)"
  shows "fst (walk_usage visits (b, n)) =
    (None, b + of_int (sum_list (visible_sizes visits)), n + of_nat (length (visible_sizes visits)))"
  using assms
proof (induction visits "(b, n)" arbitrary: b n rule: walk_usage.induct)
  case (2 p denied e ps)
  then show ?case by (cases denied) (auto split: prod.splits)
next
  case (4 p sz ps bytes num)
  then show ?case by (cases "hidden p") (auto simp: to_uint64_def algebra_simps)
qed auto

text \<open>A check that falls back on the walk reports those numbers.\<close>

lemma walked_usage:
  assumes "checkSpoolUsage None walk m (Some p) = (p', l)"
    and "\<forall>v \<in> set (walk (mo_spoolDir m)). walks_on (snd v)"
  shows "\<exists>q. p' = Some q
    \<and> gauge q ''ocis_ftp_spool_size_bytes''
        = Some (sum_list (visible_sizes (walk (mo_spoolDir m))) mod 2 ^ 64, 0)
    \<and> gauge q ''ocis_ftp_spool_file_count''
        = Some (int (length (visible_sizes (walk (mo_spoolDir m)))) mod 2 ^ 64, 0)"
proof -
  have "fst (monitor_usage None walk m) = (None, of_int (sum_list (visible_sizes (walk (mo_spoolDir m)))),
      of_nat (length (visible_sizes (walk (mo_spoolDir m)))))"
    using walk_usage_sum [OF assms(2), of 0 0] by (simp add: monitor_usage_def calculateCurrentUsage_def)
  then show ?thesis
    using assms(1)
    by (cases "monitor_usage None walk m")
      (auto simp: checkSpoolUsage_def Let_def gauge_def set_gauge_def SetSpoolUsagePercent_def
        SetSpoolCapacityBytes_def SetSpoolFileCount_def SetSpoolSizeBytes_def unsigned_of_int unsigned_of_nat
        take_bit_eq_mod take_bit_nat_def zmod_int)
qed

text \<open>Examples of the percentage: half, a third (rounded), and a full spool.\<close>

lemma usage_percent_examples:
  "fle (50, 0) (usage_percent 512 1024) \<and> fle (usage_percent 512 1024) (50, 0)"
  "usage_percent 1 3 = (4691249611844266, -47)"
  "fle (100, 0) (usage_percent 1073741824 1073741824) \<and> \<not> fle (101, 0) (usage_percent 1073741824 1073741824)"
  "usage_percent 7 0 = (0, 0)"
  by (simp_all add: usage_percent_def fmul_def fdiv_def float_of_uint_def fround_def nearest_def fle_def Let_def
      bit_length.simps)

end
