(* ===== verification/OperationsMetrics.thy ===== *)
theory OperationsMetrics
  imports OperationsProps Monitor
begin

text \<open>
  The collectors that the operations server registers (\<open>NewOperationsServer\<close> in
  \<open>pkg/http/server.go\<close>), and that everything it records fits them: a label too few or too many, or
  a counter that goes down, makes the metrics library panic.
\<close>

section \<open>Collectors\<close>

datatype collector = CounterVec "string list" | Counter | Gauge | HistogramVec "string list"

text \<open>The name of a collector is its namespace, subsystem and name, joined.\<close>

definition metric_name :: "string \<Rightarrow> string \<Rightarrow> string" where
  "metric_name subsystem name = Join ''_'' [''ocis_ftp'', subsystem, name]"

definition collectors :: "(string \<times> collector) list" where
  "collectors =
     [(metric_name ''sessions'' ''total'', CounterVec [''status'']),
      (metric_name ''sessions'' ''active'', Gauge),
      (metric_name ''uploads'' ''total'', CounterVec [''status'']),
      (metric_name ''uploads'' ''failures_total'', CounterVec [''reason'']),
      (metric_name ''uploads'' ''bytes_total'', Counter),
      (metric_name ''uploads'' ''duration_seconds'', HistogramVec [''status'']),
      (metric_name ''ocis'' ''requests_total'', CounterVec [''service'', ''status'']),
      (metric_name ''health'' ''check_total'', CounterVec [''check'', ''status'']),
      (metric_name ''health'' ''check_duration_seconds'', HistogramVec [''check'']),
      (metric_name ''spool'' ''size_bytes'', Gauge),
      (metric_name ''spool'' ''file_count'', Gauge),
      (metric_name ''spool'' ''capacity_bytes'', Gauge),
      (metric_name ''spool'' ''usage_percent'', Gauge),
      (metric_name ''spool'' ''capacity_exceeded_total'', Counter)]"

lemma collectors_map [simp]:
  "map_of collectors ''ocis_ftp_sessions_total'' = Some (CounterVec [''status''])"
  "map_of collectors ''ocis_ftp_sessions_active'' = Some Gauge"
  "map_of collectors ''ocis_ftp_uploads_total'' = Some (CounterVec [''status''])"
  "map_of collectors ''ocis_ftp_uploads_failures_total'' = Some (CounterVec [''reason''])"
  "map_of collectors ''ocis_ftp_uploads_bytes_total'' = Some Counter"
  "map_of collectors ''ocis_ftp_uploads_duration_seconds'' = Some (HistogramVec [''status''])"
  "map_of collectors ''ocis_ftp_ocis_requests_total'' = Some (CounterVec [''service'', ''status''])"
  "map_of collectors ''ocis_ftp_health_check_total'' = Some (CounterVec [''check'', ''status''])"
  "map_of collectors ''ocis_ftp_health_check_duration_seconds'' = Some (HistogramVec [''check''])"
  "map_of collectors ''ocis_ftp_spool_size_bytes'' = Some Gauge"
  "map_of collectors ''ocis_ftp_spool_file_count'' = Some Gauge"
  "map_of collectors ''ocis_ftp_spool_capacity_bytes'' = Some Gauge"
  "map_of collectors ''ocis_ftp_spool_usage_percent'' = Some Gauge"
  "map_of collectors ''ocis_ftp_spool_capacity_exceeded_total'' = Some Counter"
  by (simp_all add: collectors_def metric_name_def)

text \<open>The number of labels that a counter or a histogram is used with.\<close>

fun counter_labels :: "collector option \<Rightarrow> nat option" where
  "counter_labels (Some (CounterVec ls)) = Some (length ls)"
| "counter_labels (Some Counter) = Some 0"
| "counter_labels _ = None"

fun histogram_labels :: "collector option \<Rightarrow> nat option" where
  "histogram_labels (Some (HistogramVec ls)) = Some (length ls)"
| "histogram_labels _ = None"

section \<open>Well-formed metrics\<close>

definition metrics_ok :: "prom \<Rightarrow> bool" where
  "metrics_ok p \<longleftrightarrow>
     (\<forall>name ls n. map_of (pm_counters p) (name, ls) = Some n \<longrightarrow>
        counter_labels (map_of collectors name) = Some (length ls) \<and> 0 \<le> n)
     \<and> (\<forall>name v. map_of (pm_gauges p) name = Some v \<longrightarrow> map_of collectors name = Some Gauge)
     \<and> (\<forall>(name, ls, d) \<in> set (pm_observed p). histogram_labels (map_of collectors name) = Some (length ls))"

text \<open>No counter goes down and no observation is lost.\<close>

definition metrics_grow :: "prom \<Rightarrow> prom \<Rightarrow> bool" where
  "metrics_grow p p' \<longleftrightarrow> (\<forall>name ls. counter_value p name ls \<le> counter_value p' name ls)
     \<and> length (pm_observed p) \<le> length (pm_observed p')"

definition records :: "prom \<Rightarrow> prom \<Rightarrow> bool" where
  "records p p' \<longleftrightarrow> (metrics_ok p \<longrightarrow> metrics_ok p') \<and> metrics_grow p p'"

named_theorems recording "operations that record metrics"

lemma records_refl [recording]: "records p p"
  by (simp add: records_def metrics_grow_def)

lemma metrics_grow_trans: "metrics_grow p q \<Longrightarrow> metrics_grow q r \<Longrightarrow> metrics_grow p r"
  unfolding metrics_grow_def by (meson order_trans)

lemma records_trans: "records p q \<Longrightarrow> records q r \<Longrightarrow> records p r"
  unfolding records_def using metrics_grow_trans by blast

lemma records_counter [recording]:
  "counter_labels (map_of collectors name) = Some (length ls) \<Longrightarrow> 0 \<le> n \<Longrightarrow> records p (add_counter name ls n p)"
  by (auto simp: records_def metrics_ok_def metrics_grow_def counter_add)
    (auto simp: add_counter_def counter_value_def split: if_splits option.splits)

lemma records_gauge [recording]:
  "map_of collectors name = Some Gauge \<Longrightarrow> records p (set_gauge name v p)"
  by (auto simp: records_def metrics_ok_def metrics_grow_def set_gauge_def counter_value_def)

lemma records_observe [recording]:
  "histogram_labels (map_of collectors name) = Some (length ls) \<Longrightarrow> records p (observe name ls d p)"
  by (auto simp: records_def metrics_ok_def metrics_grow_def observe_def counter_value_def)

lemma records_metric [recording]: "records p (apply_metric m p)"
  by (cases m) (simp_all add: recording)

lemma records_spool [recording]:
  "records p (SetSpoolSizeBytes n p)" "records p (SetSpoolFileCount n p)" "records p (SetSpoolCapacityBytes n p)"
  "records p (SetSpoolUsagePercent v p)" "records p (IncrementSpoolCapacityExceededTotal p)"
  "records p (IncrementOcisRequestsTotal service status p)"
  by (simp_all add: recording SetSpoolSizeBytes_def SetSpoolFileCount_def SetSpoolCapacityBytes_def SetSpoolUsagePercent_def
      IncrementSpoolCapacityExceededTotal_def IncrementOcisRequestsTotal_def)

lemma records_check [recording]: "records (snd r) (snd (note_check name title err d r))"
proof -
  have "records p (observe ''ocis_ftp_health_check_duration_seconds'' [name] d
      (add_counter ''ocis_ftp_health_check_total'' [name, v] 1 p))" for p v
    by (rule records_trans [OF records_counter records_observe]) simp_all
  then show ?thesis by (auto simp: note_check_def split: prod.split option.split)
qed

section \<open>The server and the monitor\<close>

lemma records_perform:
  assumes "performHealthChecks net he s fs w = (res, s', fs', w')"
  shows "records (op_prom s) (op_prom s')"
proof -
  obtain e1 w1 where a: "checkOCISConnectivity net he (op_config s) w = (e1, w1)" by fastforce
  obtain e2 w2 where b: "checkWebDAVConnectivity net he (op_config s) w1 = (e2, w2)" by fastforce
  obtain e3 fs1 where c: "checkSpoolDirectory he (op_config s) fs = (e3, fs1)" by fastforce
  have three: "records p (snd (note_check n3 t3 e3 d3 (note_check n2 t2 e2 d2 (note_check n1 t1 e1 d1 (r, p)))))"
    for p r n1 n2 n3 t1 t2 t3 d1 d2 d3
    using records_trans [OF records_trans [OF records_check [of "(r, p)"] records_check] records_check] by simp
  let ?r = "note_check ''spool_directory'' ''spool directory'' e3 (he_clock he 5 - he_clock he 4)
     (note_check ''webdav_connectivity'' ''WebDAV connectivity'' e2 (he_clock he 3 - he_clock he 2)
       (note_check ''ocis_connectivity'' ''oCIS connectivity'' e1 (he_clock he 1 - he_clock he 0) (([], []), op_prom s)))"
  have "op_prom s' = snd ?r"
    using assms by (cases ?r) (auto simp: performHealthChecks_def Let_def a b c)
  then show ?thesis using three by simp
qed

lemma records_cached:
  assumes "cachedHealthChecks net he clock clock' s fs w = (res, s', fs', w')"
  shows "records (op_prom s) (op_prom s')"
proof (cases "cached_checks clock () (op_cache s)")
  case None
  obtain r s1 fs1 w1 where p: "performHealthChecks net he s fs w = (r, s1, fs1, w1)" by (metis prod.collapse)
  have "op_prom s' = op_prom s1" using assms None by (auto simp: cachedHealthChecks_def p)
  then show ?thesis using records_perform [OF p] by simp
next
  case (Some r)
  then show ?thesis using assms by (simp add: cachedHealthChecks_def records_refl)
qed

lemma records_readyz:
  assumes "readyz net he order clock clock' (s, fs, w) = (r, s', fs', w')"
  shows "records (op_prom s) (op_prom s')"
proof (cases "op_ready s = 0")
  case True
  then show ?thesis using assms by (simp add: readyz_def records_refl)
next
  case False
  obtain checks failed s1 fs1 w1 where c: "cachedHealthChecks net he clock clock' s fs w = ((checks, failed), s1, fs1, w1)"
    by (metis prod.collapse)
  have "s' = s1" using assms False by (simp add: readyz_def c split: if_splits)
  then show ?thesis using records_cached [OF c] by simp
qed

lemma records_serve:
  assumes "serve net he order show_metrics clock clock' ep header st = (r, st')"
  shows "records (op_prom (fst st)) (op_prom (fst st'))"
proof -
  obtain s fs w s' fs' w' where st: "st = (s, fs, w)" "st' = (s', fs', w')" by (metis prod.collapse)
  show ?thesis
  proof (cases ep)
    case Readyz
    then have "readyz net he order clock clock' (s, fs, w) = (r, s', fs', w') \<or> s' = s"
      using assms by (simp add: serve_def middleware_def st Let_def split: if_splits)
    then show ?thesis using records_readyz records_refl by (fastforce simp: st)
  qed (use assms in \<open>auto simp: serve_def middleware_def st Let_def records_refl split: if_splits\<close>)
qed

lemma records_monitor:
  assumes "checkSpoolUsage usage walk m (Some p) = (Some p', l)"
  shows "records p p'"
proof -
  have four: "records p (SetSpoolUsagePercent v (SetSpoolCapacityBytes c (SetSpoolFileCount n (SetSpoolSizeBytes b p))))" for v c n b
    by (rule records_trans [OF _ records_spool(4)], rule records_trans [OF _ records_spool(3)],
        rule records_trans [OF records_spool(1) records_spool(2)])
  obtain e used num l0 where u: "monitor_usage usage walk m = ((e, used, num), l0)" by (metis prod.collapse)
  show ?thesis
  proof (cases e)
    case None
    then have "p' = SetSpoolUsagePercent (usage_percent used (mo_maxSize m)) (SetSpoolCapacityBytes (mo_maxSize m)
        (SetSpoolFileCount num (SetSpoolSizeBytes used p)))"
      using assms by (simp add: checkSpoolUsage_def Let_def u)
    then show ?thesis using four by simp
  next
    case (Some err)
    then show ?thesis using assms by (simp add: checkSpoolUsage_def u records_refl)
  qed
qed

section \<open>Every run\<close>

text \<open>What can happen to the metrics of a running server: a call of the driver's recorder, a request to an
  endpoint, an update of the readiness, a check of the monitor, and the remaining setters.\<close>

inductive mstep :: "'w net \<Rightarrow> prom \<Rightarrow> prom \<Rightarrow> bool" for net :: "'w net" where
  Driver: "mstep net p (apply_metric m p)"
| Request: "serve net he order show_metrics clock clock' ep header st = (r, st') \<Longrightarrow> op_prom (fst st) = p \<Longrightarrow>
     mstep net p (op_prom (fst st'))"
| Readiness: "UpdateReadiness net he s fs w = (s', fs', w') \<Longrightarrow> op_prom s = p \<Longrightarrow> mstep net p (op_prom s')"
| Usage_check: "checkSpoolUsage usage walk m (Some p) = (Some p', l) \<Longrightarrow> mstep net p p'"
| Monitor_start: "Start_monitor m (Some p) = (on, m', Some p', l) \<Longrightarrow> mstep net p p'"
| Exceeded: "CapacityExceeded (Some p) = (Some p', l) \<Longrightarrow> mstep net p p'"
| Request_to_oCIS: "mstep net p (IncrementOcisRequestsTotal service status p)"

lemma mstep_records: "mstep net p p' \<Longrightarrow> records p p'"
proof (induction rule: mstep.induct)
  case (Request he order show_metrics clock clock' ep header st r st' p)
  then show ?case using records_serve [OF Request(1)] by simp
next
  case (Readiness he s fs w s' fs' w' p)
  obtain r s1 fs1 w1 where c: "performHealthChecks net he s fs w = (r, s1, fs1, w1)" by (metis prod.collapse)
  have "op_prom s' = op_prom s1" using Readiness(1) by (auto simp: UpdateReadiness_def c split: prod.splits)
  then show ?case using records_perform [OF c] Readiness(2) by simp
next
  case (Usage_check usage walk m p p' l)
  then show ?case by (rule records_monitor)
qed (auto simp: recording Start_monitor_def CapacityExceeded_def Let_def split: if_splits)

interpretation metrics: relation_system "mstep net" metrics_ok for net :: "'w net"
  by unfold_locales (use mstep_records in \<open>auto simp: records_def\<close>)

text \<open>C27. Whatever is recorded by a server, in whatever order, fits the collectors it registered: every
  counter and histogram is used with as many labels as it was made with and every gauge is a gauge, so that
  the metrics library never panics over them, and no counter ever goes down. (The library also refuses label
  values that are not UTF-8; that is not covered.)\<close>

theorem metrics_fit_collectors:
  assumes "(mstep net)\<^sup>*\<^sup>* (op_prom (NewOperationsServer address auth hc)) p" and "(mstep net)\<^sup>*\<^sup>* p q"
  shows "metrics_ok q \<and> metrics_grow p q"
proof -
  have "metrics_ok (op_prom (NewOperationsServer address auth hc))" by (simp add: metrics_ok_def NewOperationsServer_def)
  moreover have "(mstep net)\<^sup>*\<^sup>* (op_prom (NewOperationsServer address auth hc)) q" using assms by simp
  ultimately have "metrics_ok q" by (metis metrics.inv_reached)
  moreover have "records p q" using assms(2)
    by (induction rule: rtranclp_induct) (auto intro: records_refl records_trans mstep_records)
  ultimately show ?thesis by (simp add: records_def)
qed

theorem metrics_fit_collectors_witness:
  "metrics_ok (apply_metric (IncrementUploadsTotal ''success'') (op_prom demo_operations))
   \<and> counter_value (apply_metric (IncrementUploadsTotal ''success'') (op_prom demo_operations)) ''ocis_ftp_uploads_total'' [''success''] = 1"
proof -
  have "(mstep scripted)\<^sup>*\<^sup>* (op_prom demo_operations) (apply_metric (IncrementUploadsTotal ''success'') (op_prom demo_operations))"
    by (rule r_into_rtranclp) (rule mstep.Driver)
  from metrics_fit_collectors [OF rtranclp.rtrancl_refl this [unfolded demo_operations_def]]
  show ?thesis by (simp add: demo_operations_def counter_add) (simp add: counter_value_def NewOperationsServer_def)
qed

end
