(* ===== verification/Service.thy ===== *)
theory Service
  imports BridgeProps OperationsProps Logger Monitor
begin

text \<open>
  The service and the program (\<open>pkg/server/server.go\<close>, \<open>cmd/ocis-ftp-bridge/main.go\<close>): how the
  configuration, the spool, the FTP driver, the operations server and the monitor are put together,
  started and stopped. The machine is a parameter: the environment, the certificate files, the
  file operations, the random source, the listeners and what the protocol library returns. The
  two servers are started by goroutines; their log lines are put here in the order FTP, HTTP.
\<close>

section \<open>Construction\<close>

definition ErrInvalidConfig_server :: goerror where
  "ErrInvalidConfig_server = Sentinel ''server error: '' ''invalid server config''"

text \<open>\<open>base64.RawURLEncoding\<close>, and the password made from 24 random bytes.\<close>

definition url_char :: "char \<Rightarrow> char" where
  "url_char c = (if c = CHR ''+'' then CHR ''-'' else if c = CHR ''/'' then CHR ''_'' else c)"

definition generateAuthPassword :: "goerror + string \<Rightarrow> goerror + string" where
  "generateAuthPassword random = (case random of Inl e \<Rightarrow> Inl e | Inr buf \<Rightarrow> Inr (map url_char (EncodeToString buf)))"

definition initializeSpool :: "os_env \<Rightarrow> Config \<Rightarrow> files \<Rightarrow> ctx_store \<Rightarrow> (goerror + spool) \<times> files" where
  "initializeSpool env cfg fs cs =
     (case NewManager env (Directory (Spool_of cfg)) (MaxSize (Spool_of cfg)) fs cs of
        (Inl e, fs1) \<Rightarrow> (Inl (Errorf ''failed to create spool manager'' e), fs1)
      | (Inr sp, fs1) \<Rightarrow>
          (case Cleanup env 30 sp of
             (Some e, sp1) \<Rightarrow> (Inl (Errorf ''failed to clean spool'' e), files sp1)
           | (None, sp1) \<Rightarrow> (Inr sp1, files sp1)))"

record service =
  sv_cfg :: Config
  sv_obs :: defaultClient
  sv_driver :: BridgeDriver
  sv_http :: OperationsServer

text \<open>The machine at the start: environment variables, certificate files, the instant, file operations
  and the random source.\<close>

record machine =
  ma_env :: "string \<Rightarrow> string option"
  ma_tls :: tls_files
  ma_now :: int
  ma_os :: os_env
  ma_random :: "goerror + string"

definition with_password :: "string \<Rightarrow> Config \<Rightarrow> Config" where
  "with_password pw cfg = cfg\<lparr>HTTP := HTTP cfg\<lparr>HTTP_Auth := HTTP_Auth (HTTP cfg)\<lparr>Auth_Password := pw\<rparr>\<rparr>\<rparr>"

definition needs_password :: "Config \<Rightarrow> bool" where
  "needs_password cfg \<longleftrightarrow>
     (let a = HTTP_Auth (HTTP cfg) in Auth_Enabled a \<and> Auth_Method a = ''basic'' \<and> Auth_Password a = '''')"

definition operations_auth :: "Config \<Rightarrow> AuthConfig" where
  "operations_auth cfg =
     (let a = HTTP_Auth (HTTP cfg)
      in \<lparr>ac_Enabled = Auth_Enabled a, ac_Method = Auth_Method a, ac_Username = Auth_Username a,
          ac_Password = Auth_Password a, ac_Token = BearerToken a\<rparr>)"

definition operations_checks :: "Config \<Rightarrow> HealthCheckConfig" where
  "operations_checks cfg =
     \<lparr>hc_OCISURL = OCIS_URL (OCIS_of cfg), hc_OCISUsername = '''', hc_OCISPassword = '''',
      hc_WebDAVURL = WebDAVURL (OCIS_of cfg), hc_SpoolDirectory = Directory (Spool_of cfg),
      hc_CheckTimeout = 5 * 1000000000\<rparr>"

text \<open>The driver shares the configuration, in which a generated password is stored afterwards.\<close>

definition New_service ::
  "machine \<Rightarrow> ctx_store \<Rightarrow> Config option \<Rightarrow> defaultClient \<Rightarrow> files \<Rightarrow> log_record list \<Rightarrow>
     (goerror + service) \<times> files \<times> log_record list"
where
  "New_service ma cs cfg obs fs out =
     (if cfg = None then (Inl ErrInvalidConfig_server, fs, out)
      else case validateWithEnv (ma_env ma) cfg of
        Inl e \<Rightarrow> (Inl (Wrapf '''' ErrInvalidConfig_server ('': '' @ Error e)), fs, out)
      | Inr c \<Rightarrow>
      case ValidateTLSConfig (ma_tls ma) (ma_now ma) (TLS (Server c)) of
        Some e \<Rightarrow> (Inl (Wrapf '''' ErrInvalidConfig_server ('': '' @ Error e)), fs, out)
      | None \<Rightarrow>
      case initializeSpool (ma_os ma) c fs cs of
        (Inl e, fs1) \<Rightarrow> (Inl (Errorf ''failed to initialize spool'' e), fs1, out)
      | (Inr sp, fs1) \<Rightarrow>
      case Start_client obs out of
        (Some e, out1) \<Rightarrow> (Inl (Errorf ''failed to start observability'' e), fs1, out1)
      | (None, out1) \<Rightarrow>
      case (if needs_password c then generateAuthPassword (ma_random ma) else Inr (Auth_Password (HTTP_Auth (HTTP c)))) of
        Inl e \<Rightarrow> (Inl (Errorf ''failed to generate http.auth.password'' e), fs1, out1)
      | Inr pw \<Rightarrow>
          (let c1 = (if needs_password c then with_password pw c else c);
               out2 = (if needs_password c then
                         Log_client ''info'' (''http.auth: generated random password for user '' @ quoted (Auth_Username (HTTP_Auth (HTTP c)))
                           @ '': '' @ pw @ '' (set http.auth.password explicitly to make it stable across restarts)'') obs out1
                       else out1)
           in (Inr \<lparr>sv_cfg = c1, sv_obs = obs, sv_driver = NewBridgeDriver c1 sp,
                    sv_http = NewOperationsServer (HTTP_Address (HTTP c1)) (operations_auth c1) (operations_checks c1)\<rparr>,
               fs1, out2)))"

section \<open>Running\<close>

definition log_failure :: "string \<Rightarrow> goerror option \<Rightarrow> defaultClient \<Rightarrow> log_record list \<Rightarrow> log_record list" where
  "log_failure what err obs out =
     (case err of None \<Rightarrow> out | Some e \<Rightarrow> Log_client ''error'' (what @ '': '' @ Error e) obs out)"

text \<open>Until the service waits for its context: \<open>ftp\<close> is what \<open>ListenAndServe\<close> returns, \<open>None\<close> while it
  serves; \<open>listen\<close> is the listener of the operations server. The results are the service, whether the
  loop of the monitor runs, what the monitor logs, and the log.\<close>

definition runFTPServer :: "goerror option \<Rightarrow> service \<Rightarrow> log_record list \<Rightarrow> goerror option \<times> log_record list" where
  "runFTPServer ftp s out =
     (map_option (\<lambda>e. Wrapf ''FTP server failed: '' e '''') ftp,
      Log_client ''info'' (''FTP server starting on '' @ Listen (Server (sv_cfg s))) (sv_obs s) out)"

definition runHTTPServer ::
  "(string \<Rightarrow> goerror + string) \<Rightarrow> service \<Rightarrow> log_record list \<Rightarrow> goerror option \<times> service \<times> log_record list"
where
  "runHTTPServer listen s out =
     (case Run_http listen (sv_http s) of
        (e, h) \<Rightarrow> (e, s\<lparr>sv_http := h\<rparr>,
           Log_client ''info'' (''HTTP operations server starting on '' @ HTTP_Address (HTTP (sv_cfg s))) (sv_obs s) out))"

definition StartSpoolMonitor :: "service \<Rightarrow> bool \<times> Monitor \<times> service \<times> monitor_log list" where
  "StartSpoolMonitor s =
     (let c = Spool_of (sv_cfg s)
      in case Start_monitor (NewMonitor (Directory c) (MaxSize c) (Monitoring c)) (Some (op_prom (sv_http s))) of
           (on, m, p, l) \<Rightarrow>
             (on, m, s\<lparr>sv_http := sv_http s\<lparr>op_prom := (case p of None \<Rightarrow> op_prom (sv_http s) | Some q \<Rightarrow> q)\<rparr>\<rparr>, l))"

definition Run_start ::
  "goerror option \<Rightarrow> (string \<Rightarrow> goerror + string) \<Rightarrow> service \<Rightarrow> log_record list \<Rightarrow>
     service \<times> bool \<times> monitor_log list \<times> log_record list"
where
  "Run_start ftp listen s out =
     (let c = sv_cfg s; log = (\<lambda>t. Log_client ''info'' t (sv_obs s));
          out1 = log (''starting ocis-ftp-bridge on '' @ Listen (Server c) @ '' with passive ports ''
                   @ itoa_int (MinPort (Passive (Server c))) @ ''-'' @ itoa_int (MaxPort (Passive (Server c)))) out in
      case runFTPServer ftp s out1 of (e1, out2) \<Rightarrow>
      case runHTTPServer listen s (log_failure ''FTP server failed'' e1 (sv_obs s) out2) of (e2, s1, out3) \<Rightarrow>
      case StartSpoolMonitor s1 of (on, m, s2, ml) \<Rightarrow>
        (s2, on, ml,
         log ''Endpoints available: /healthz, /readyz, /metrics''
           (log (''HTTP operations server started on '' @ HTTP_Address (HTTP c))
             (log_failure ''HTTP server failed'' e2 (sv_obs s) out3))))"

text \<open>The usage function of the monitor: the counters of the spool.\<close>

definition spool_usage :: "service \<Rightarrow> uint64 \<times> uint64" where
  "spool_usage s = (case CurrentUsage (br_spool (sv_driver s)) of (b, n) \<Rightarrow> (b, of_nat n))"

text \<open>What follows when the context is done: \<open>ftp_stop\<close> is the error of the protocol library's \<open>Stop\<close>,
  \<open>shutdown\<close> that of the HTTP server's.\<close>

definition stopFTPServer :: "goerror option \<Rightarrow> service \<Rightarrow> goerror option \<times> service" where
  "stopFTPServer ftp_stop s = (ftp_stop, s\<lparr>sv_driver := Shutdown (sv_driver s)\<rparr>)"

definition stopHTTPServer :: "goerror option \<Rightarrow> service \<Rightarrow> goerror option \<times> service" where
  "stopHTTPServer shutdown s = (case Stop_http shutdown (sv_http s) of (e, h) \<Rightarrow> (e, s\<lparr>sv_http := h\<rparr>))"

definition Run_stop ::
  "goerror option \<Rightarrow> goerror option \<Rightarrow> service \<Rightarrow> log_record list \<Rightarrow> goerror option \<times> service \<times> log_record list"
where
  "Run_stop ftp_stop shutdown s out =
     (case stopFTPServer ftp_stop s of (e1, s1) \<Rightarrow>
      case stopHTTPServer shutdown s1 of (e2, s2) \<Rightarrow>
      case Stop_client (sv_obs s)
             (log_failure ''HTTP server shutdown error'' e2 (sv_obs s)
               (log_failure ''FTP server shutdown error'' e1 (sv_obs s)
                 (Log_client ''info'' ''shutting down ocis-ftp-bridge'' (sv_obs s) out))) of
        (e, out1) \<Rightarrow> (map_option (\<lambda>e. Wrapf ''failed to stop observability: '' e '''') e, s2, out1))"

section \<open>The program\<close>

text \<open>\<open>main\<close>, with the exit code. The flags are those of the command line; \<open>run\<close> is the service's run,
  from its start to its end. The deferred \<open>obs.Stop\<close> is not reached by \<open>os.Exit\<close>.\<close>

definition main_log :: "defaultClient \<Rightarrow> Level \<Rightarrow> string \<Rightarrow> (string \<times> string) list \<Rightarrow> log_record list \<Rightarrow> log_record list" where
  "main_log obs level = log_at level (oc_logger obs)"

definition main ::
  "machine \<Rightarrow> ctx_store \<Rightarrow> (string \<Rightarrow> goerror + string) \<Rightarrow> (string \<Rightarrow> Config \<Rightarrow> goerror + Config) \<Rightarrow>
     (service \<Rightarrow> log_record list \<Rightarrow> goerror option \<times> log_record list) \<Rightarrow> (string \<times> string \<times> string) \<Rightarrow>
     bool \<times> string \<Rightarrow> files \<Rightarrow> nat \<times> log_record list"
where
  "main ma cs read_file decode run version flags fs =
     (case flags of (show_version, configPath) \<Rightarrow>
      if show_version then (0, [])
      else if configPath = '''' then (1, [])
      else case fst (LoadFileWithEnv read_file decode (ma_env ma) configPath) of
        Inl e \<Rightarrow> (1, [])
      | Inr cfg \<Rightarrow>
      case New_client (ma_os ma) (Obs_Debug (Observability cfg)) (Obs_Logger (Observability cfg)) fs [] of
        (Inl e, fs1, out) \<Rightarrow> (1, out)
      | (Inr obs, fs1, out) \<Rightarrow>
      case version of (v, commit, built) \<Rightarrow>
      case New_service ma cs (Some cfg) obs fs1
             (main_log obs LevelInfo ''Initializing server...'' []
               (main_log obs LevelInfo ''Starting service'' [(''version'', v), (''commit'', commit), (''built'', built), (''config_path'', configPath)] out)) of
        (Inl e, fs2, out1) \<Rightarrow> (1, main_log obs LevelError ''Failed to create server'' [(''error'', Error e)] out1)
      | (Inr s, fs2, out1) \<Rightarrow>
      case run s (main_log obs LevelInfo ''Server initialized, starting...'' [] out1) of
        (Some e, out2) \<Rightarrow> (1, main_log obs LevelError ''Server failed'' [(''error'', Error e)] out2)
      | (None, out2) \<Rightarrow>
          (0, snd (Stop_client obs (main_log obs LevelInfo ''Server shutdown complete'' [] out2))))"

end
