(* ===== verification/ServiceProps.thy ===== *)
theory ServiceProps
  imports Service BridgeCommits
begin

text \<open>
  What the construction of the service establishes, and what its end stops: the configuration, the
  spool, the FTP driver and the operations server together.
\<close>

section \<open>Construction\<close>

lemma Cleanup_uploads: "uploads (snd (Cleanup env maxAge s)) = uploads s"
proof -
  have d: "uploads (snd (DeleteByPath env p s)) = uploads s" for p s
    by (auto simp: DeleteByPath_def Let_def split: sum.splits prod.splits option.splits os_error.splits)
  have "uploads (foldl (\<lambda>s f. if P f then snd (DeleteByPath env (fr_path f) s) else s) s fs) = uploads s" for P fs
    by (induction fs arbitrary: s) (auto simp: d)
  then show ?thesis by (auto simp: Cleanup_def Let_def split: sum.splits)
qed

lemma initializeSpool_empty:
  assumes "initializeSpool env cfg fs cs = (Inr sp, fs')"
  shows "uploads sp = []"
proof -
  obtain sp0 fs0 where n: "NewManager env (Directory (Spool_of cfg)) (MaxSize (Spool_of cfg)) fs cs = (Inr sp0, fs0)"
    and sp: "sp = snd (Cleanup env 30 sp0)"
    using assms by (auto simp: initializeSpool_def split: prod.splits sum.splits option.splits)
  have "uploads sp0 = []" using n by (auto simp: NewManager_def new_spool_def split: if_splits option.splits prod.splits)
  then show ?thesis by (simp add: sp Cleanup_uploads)
qed

lemma with_password_valid: "config_valid env cfg \<Longrightarrow> config_valid env (with_password pw cfg)"
  by (simp add: config_valid_def with_password_def auth_valid_def)

text \<open>The password in use: the configured one, or the generated one.\<close>

lemma New_service_cases:
  assumes "New_service ma cs (Some cfg) obs fs out = (Inr s, fs', out')"
  obtains c sp fs1 pw where "validateWithEnv (ma_env ma) (Some cfg) = Inr c"
    "ValidateTLSConfig (ma_tls ma) (ma_now ma) (TLS (Server c)) = None" "initializeSpool (ma_os ma) c fs cs = (Inr sp, fs1)"
    "needs_password c \<Longrightarrow> generateAuthPassword (ma_random ma) = Inr pw"
    "sv_cfg s = (if needs_password c then with_password pw c else c)" "sv_driver s = NewBridgeDriver (sv_cfg s) sp"
    "sv_http s = NewOperationsServer (HTTP_Address (HTTP (sv_cfg s))) (operations_auth (sv_cfg s)) (operations_checks (sv_cfg s))"
    "sv_obs s = obs"
proof -
  obtain c where v: "validateWithEnv (ma_env ma) (Some cfg) = Inr c"
    using assms(1) by (cases "validateWithEnv (ma_env ma) (Some cfg)") (auto simp: New_service_def)
  have t: "ValidateTLSConfig (ma_tls ma) (ma_now ma) (TLS (Server c)) = None"
    using assms(1) by (cases "ValidateTLSConfig (ma_tls ma) (ma_now ma) (TLS (Server c))") (auto simp: New_service_def v)
  obtain sp fs1 where sp: "initializeSpool (ma_os ma) c fs cs = (Inr sp, fs1)"
    using assms(1) by (cases "initializeSpool (ma_os ma) c fs cs"; cases "fst (initializeSpool (ma_os ma) c fs cs)")
      (auto simp: New_service_def v t)
  obtain pw where pw: "(if needs_password c then generateAuthPassword (ma_random ma) else Inr (Auth_Password (HTTP_Auth (HTTP c)))) = Inr pw"
    using assms(1) by (cases "if needs_password c then generateAuthPassword (ma_random ma) else Inr (Auth_Password (HTTP_Auth (HTTP c)))")
      (auto simp: New_service_def v t sp Start_client_def)
  let ?c1 = "if needs_password c then with_password pw c else c"
  have s: "s = \<lparr>sv_cfg = ?c1, sv_obs = obs, sv_driver = NewBridgeDriver ?c1 sp,
      sv_http = NewOperationsServer (HTTP_Address (HTTP ?c1)) (operations_auth ?c1) (operations_checks ?c1)\<rparr>"
    using assms(1) by (simp add: New_service_def v t sp Start_client_def pw Let_def)
  show thesis by (rule that [OF v t sp]) (use pw in \<open>simp_all add: s\<close>)
qed

lemma operations_auth_strong:
  assumes "config_valid env c" and "\<not> needs_password c" and "ac_Enabled (operations_auth c)"
  shows "(ac_Method (operations_auth c) = ''basic'' \<and> ac_Password (operations_auth c) \<noteq> '''')
    \<or> (ac_Method (operations_auth c) = ''bearer'' \<and> ac_Token (operations_auth c) \<noteq> '''')"
proof -
  have "auth_valid (HTTP_Auth (HTTP c))" using assms(1) by (simp add: config_valid_def)
  then show ?thesis
    using assms(2,3) TrimSpace_Nil by (auto simp: operations_auth_def needs_password_def Let_def auth_valid_def)
qed

lemma with_password_enough: "pw \<noteq> '''' \<Longrightarrow> \<not> needs_password (with_password pw c)"
  by (simp add: needs_password_def with_password_def)

section \<open>The generated password\<close>

definition url_safe :: "char \<Rightarrow> bool" where
  "url_safe c \<longleftrightarrow> is_letter c \<or> is_digit c \<or> c = CHR ''-'' \<or> c = CHR ''_''"

lemma url_char_alnum: "is_letter c \<or> is_digit c \<Longrightarrow> url_char c = c"
  by (auto simp: url_char_def is_letter_def is_digit_def)

lemma url_char_safe:
  assumes "n < 64"
  shows "url_safe (url_char (b64_char n))"
proof -
  consider "n < 52" | "52 \<le> n" "n < 62" | "n = 62" | "n = 63" using assms by linarith
  then show ?thesis
  proof cases
    case 1
    then have "is_letter (b64_char n)" by (auto simp: b64_char_def is_letter_def of_char_of)
    then show ?thesis by (simp add: url_char_alnum url_safe_def)
  next
    case 2
    then have "is_digit (b64_char n)" by (auto simp: b64_char_def is_digit_def of_char_of)
    then show ?thesis by (simp add: url_char_alnum url_safe_def)
  qed (simp_all add: b64_char_def url_char_def url_safe_def)
qed

lemma url_char_inj:
  assumes "m < 64" "n < 64" and "url_char (b64_char m) = url_char (b64_char n)"
  shows "b64_char m = b64_char n"
proof -
  have "b64_val (CHR ''-'') = None" "b64_val (CHR ''_'') = None" by code_simp+
  then have no: "b64_char n \<noteq> CHR ''-'' \<and> b64_char n \<noteq> CHR ''_''" if "n < 64" for n
    using that b64_val_char [of n] by force
  show ?thesis using assms(3) no [OF assms(1)] no [OF assms(2)] by (auto simp: url_char_def split: if_splits)
qed

lemma map_url_char_inj:
  assumes "\<And>n. n \<in> set xs \<Longrightarrow> n < 64" "\<And>n. n \<in> set ys \<Longrightarrow> n < 64"
    and "map (\<lambda>n. url_char (b64_char n)) xs = map (\<lambda>n. url_char (b64_char n)) ys"
  shows "map b64_char xs = map b64_char ys"
  using assms
proof (induction xs arbitrary: ys)
  case (Cons x xs)
  then obtain y zs where ys: "ys = y # zs" by (cases ys) auto
  show ?case using Cons.IH [of zs] Cons.prems url_char_inj [of x y] by (auto simp: ys)
qed simp

lemma sextets_below: "n \<in> set (sextets (str_bytes s)) \<Longrightarrow> n < 64"
  using sextets_small [of "str_bytes s"] str_bytes_less by blast

text \<open>C36. A password that is generated from 24 random bytes has 32 characters, which are letters, digits,
  hyphens and underscores, and no two buffers give the same password.\<close>

theorem generated_password:
  assumes "generateAuthPassword (Inr buf) = Inr pw" and "length buf = 24"
  shows "length pw = 32 \<and> (\<forall>c \<in> set pw. url_safe c) \<and> (generateAuthPassword (Inr buf') = Inr pw \<longrightarrow> buf' = buf)"
proof -
  have pw: "pw = map (\<lambda>n. url_char (b64_char n)) (sextets (str_bytes buf))"
    using assms(1) by (simp add: generateAuthPassword_def EncodeToString_def comp_def)
  have "length (sextets (str_bytes buf)) = 32"
    using length_sextets [of "str_bytes buf"] assms(2) by (simp add: str_bytes_def b64_pad_def)
  moreover have "\<forall>c \<in> set pw. url_safe c" using url_char_safe sextets_below by (auto simp: pw)
  moreover have "buf' = buf" if "generateAuthPassword (Inr buf') = Inr pw"
  proof -
    have "map b64_char (sextets (str_bytes buf')) = map b64_char (sextets (str_bytes buf))"
      using that sextets_below
      by (intro map_url_char_inj) (auto simp: generateAuthPassword_def EncodeToString_def comp_def pw)
    then show ?thesis
      using DecodeString_EncodeToString [of buf] DecodeString_EncodeToString [of buf'] by (simp add: EncodeToString_def)
  qed
  ultimately show ?thesis by (simp add: pw)
qed

theorem generated_password_witness:
  "length ''zzzzzzzzzzzzzzzzzzzzzzzz'' = 24
   \<and> (\<exists>pw. generateAuthPassword (Inr ''zzzzzzzzzzzzzzzzzzzzzzzz'') = Inr pw \<and> length pw = 32)"
proof -
  obtain pw where p: "generateAuthPassword (Inr ''zzzzzzzzzzzzzzzzzzzzzzzz'') = Inr pw" by (simp add: generateAuthPassword_def)
  have l: "length ''zzzzzzzzzzzzzzzzzzzzzzzz'' = 24" by simp
  show ?thesis using generated_password [OF p l] p l by blast
qed

section \<open>The constructed service\<close>

lemma sextets_Nil_iff: "sextets bs = [] \<longleftrightarrow> bs = []"
  by (cases bs rule: sextets.cases) simp_all

lemma generated_not_empty:
  assumes "generateAuthPassword (ma_random ma) = Inr pw" and "\<And>buf. ma_random ma = Inr buf \<Longrightarrow> buf \<noteq> ''''"
  shows "pw \<noteq> ''''"
  using assms
  by (cases "ma_random ma") (auto simp: generateAuthPassword_def EncodeToString_def str_bytes_def sextets_Nil_iff)

lemma New_service_reaches:
  assumes "New_service ma cs (Some cfg) obs fs out = (Inr s, fs', out')"
  shows "config_valid (ma_env ma) (sv_cfg s) \<and> reaches IDKey sdk net (sv_cfg s) (sv_driver s, [], w)"
  using assms
proof (rule New_service_cases)
  fix c sp fs1 pw
  assume v: "validateWithEnv (ma_env ma) (Some cfg) = Inr c" and sp: "initializeSpool (ma_os ma) c fs cs = (Inr sp, fs1)"
    and c: "sv_cfg s = (if needs_password c then with_password pw c else c)" and d: "sv_driver s = NewBridgeDriver (sv_cfg s) sp"
  have "config_valid (ma_env ma) (sv_cfg s)" using validated_config_spec [OF v] with_password_valid by (simp add: c)
  then show ?thesis using initializeSpool_empty [OF sp] unfolding reaches_def d by blast
qed

text \<open>C11. A service that is constructed has a valid configuration, the one it was given apart from
  what validation fills in and a generated password, and a usable certificate; its driver is in an initial state, so
  that everything proved of the reachable states holds of its runs; its operations server, if it
  is guarded, is guarded by a credential that is not empty, and its readiness checks are for the
  servers and the spool of the configuration.\<close>

theorem constructed_service:
  assumes new: "New_service ma cs (Some cfg) obs fs out = (Inr s, fs', out')"
    and random: "\<And>buf. ma_random ma = Inr buf \<Longrightarrow> buf \<noteq> ''''"
  shows "config_valid (ma_env ma) (sv_cfg s) \<and> Accounts (sv_cfg s) = Accounts (projr (validateWithEnv (ma_env ma) (Some cfg)))
    \<and> (\<exists>c. validateWithEnv (ma_env ma) (Some cfg) = Inr c
         \<and> (sv_cfg s = c \<or> needs_password c \<and> (\<exists>pw. sv_cfg s = with_password pw c)))
    \<and> ValidateTLSConfig (ma_tls ma) (ma_now ma) (TLS (Server (sv_cfg s))) = None
    \<and> reaches IDKey sdk net (sv_cfg s) (sv_driver s, [], w)
    \<and> (let a = op_auth (sv_http s) in ac_Enabled a \<longrightarrow>
         (ac_Method a = ''basic'' \<and> ac_Password a \<noteq> '''') \<or> (ac_Method a = ''bearer'' \<and> ac_Token a \<noteq> ''''))
    \<and> hc_SpoolDirectory (op_config (sv_http s)) = Directory (Spool_of (sv_cfg s))
    \<and> hc_WebDAVURL (op_config (sv_http s)) = WebDAVURL (OCIS_of (sv_cfg s))
    \<and> hc_OCISURL (op_config (sv_http s)) = OCIS_URL (OCIS_of (sv_cfg s))"
  using new
proof (rule New_service_cases)
  fix c sp fs1 pw
  assume v: "validateWithEnv (ma_env ma) (Some cfg) = Inr c"
    and tls: "ValidateTLSConfig (ma_tls ma) (ma_now ma) (TLS (Server c)) = None"
    and pw: "needs_password c \<Longrightarrow> generateAuthPassword (ma_random ma) = Inr pw"
    and c: "sv_cfg s = (if needs_password c then with_password pw c else c)"
    and h: "sv_http s = NewOperationsServer (HTTP_Address (HTTP (sv_cfg s))) (operations_auth (sv_cfg s)) (operations_checks (sv_cfg s))"
  have "config_valid (ma_env ma) (sv_cfg s)" by (rule conjunct1 [OF New_service_reaches [OF new]])
  moreover have "\<not> needs_password (sv_cfg s)"
    using pw generated_not_empty [OF _ random] with_password_enough by (auto simp: c)
  ultimately have "let a = op_auth (sv_http s) in ac_Enabled a \<longrightarrow>
      (ac_Method a = ''basic'' \<and> ac_Password a \<noteq> '''') \<or> (ac_Method a = ''bearer'' \<and> ac_Token a \<noteq> '''')"
    using operations_auth_strong unfolding h by (simp add: NewOperationsServer_def)
  moreover have "Accounts (sv_cfg s) = Accounts (projr (validateWithEnv (ma_env ma) (Some cfg)))" "Server (sv_cfg s) = Server c"
    by (simp_all add: c v with_password_def)
  moreover have "\<exists>c. validateWithEnv (ma_env ma) (Some cfg) = Inr c
         \<and> (sv_cfg s = c \<or> needs_password c \<and> (\<exists>pw. sv_cfg s = with_password pw c))"
    using v c by auto
  ultimately show ?thesis
    using New_service_reaches [OF new] tls by (simp add: h NewOperationsServer_def operations_checks_def)
qed

definition demo_machine :: machine where
  "demo_machine = \<lparr>ma_env = an_environment, ma_tls = \<lparr>is_missing = (\<lambda>_. True), load_pair = (\<lambda>_ _. Inl (Opaque ''''))\<rparr>,
     ma_now = 0, ma_os = example_env 5 7, ma_random = Inr ''zzzzzzzzzzzzzzzzzzzzzzzz''\<rparr>"

definition demo_client :: defaultClient where
  "demo_client = \<lparr>oc_logger = default_logger, oc_debug = False\<rparr>"

lemma demo_service:
  obtains s fs' out' where "New_service demo_machine ctx_init (Some a_config) demo_client [] [] = (Inr s, fs', out')"
    "ac_Enabled (op_auth (sv_http s))" "ac_Method (op_auth (sv_http s)) = ''basic''"
proof -
  have "is_ok (fst (initializeSpool (example_env 5 7) the_config [] ctx_init))" by code_simp
  then obtain sp fs1 where sp: "initializeSpool (example_env 5 7) the_config [] ctx_init = (Inr sp, fs1)"
    by (cases "initializeSpool (example_env 5 7) the_config [] ctx_init") (auto simp: is_ok_iff)
  have t: "TLS_Enabled (TLS (Server the_config)) = False"
    and h: "Auth_Enabled (HTTP_Auth (HTTP the_config))" "Auth_Method (HTTP_Auth (HTTP the_config)) = ''basic''"
    by (simp_all add: the_config_def a_config_def New_config_def)
  have "\<exists>s fs' out'. New_service demo_machine ctx_init (Some a_config) demo_client [] [] = (Inr s, fs', out')
      \<and> ac_Enabled (op_auth (sv_http s)) \<and> ac_Method (op_auth (sv_http s)) = ''basic''"
    using h by (simp add: New_service_def demo_machine_def a_config_validated ValidateTLSConfig_def t sp Start_client_def
        generateAuthPassword_def Let_def NewOperationsServer_def operations_auth_def with_password_def)
  with that show thesis by blast
qed

theorem constructed_service_witness:
  "\<exists>s fs' out'. New_service demo_machine ctx_init (Some a_config) demo_client [] [] = (Inr s, fs', out')
     \<and> config_valid an_environment (sv_cfg s) \<and> ac_Password (op_auth (sv_http s)) \<noteq> ''''"
proof (rule demo_service)
  fix s fs' out'
  assume s: "New_service demo_machine ctx_init (Some a_config) demo_client [] [] = (Inr s, fs', out')"
    and a: "ac_Enabled (op_auth (sv_http s))" "ac_Method (op_auth (sv_http s)) = ''basic''"
  have "buf \<noteq> ''''" if "ma_random demo_machine = Inr buf" for buf using that by (auto simp: demo_machine_def)
  note C = constructed_service [OF s this, where net = scripted and sdk = demo_sdk and IDKey = toy_key]
  have "config_valid (ma_env demo_machine) (sv_cfg s)" by (rule conjunct1 [OF C])
  moreover have "ac_Password (op_auth (sv_http s)) \<noteq> ''''" using C a by (auto simp: Let_def)
  ultimately show ?thesis using s by (auto simp: demo_machine_def)
qed

text \<open>The password and the spool of a validated configuration can be exchanged for valid ones.\<close>

lemma validate_replace:
  assumes v: "validateWithEnv env (Some c) = Inr c" and h: "validateHTTP env au = Inr au" and sp: "validate_spool sp = Inr sp"
  shows "validateWithEnv env (Some (c\<lparr>HTTP := HTTP c\<lparr>HTTP_Auth := au\<rparr>, Spool_of := sp\<rparr>))
    = Inr (c\<lparr>HTTP := HTTP c\<lparr>HTTP_Auth := au\<rparr>, Spool_of := sp\<rparr>)"
proof -
  obtain o1 where o1: "validateOCIS (OCIS_of c) = Inr o1"
    using v by (cases "validateOCIS (OCIS_of c)") (auto simp: validateWithEnv_def split: if_splits option.splits)
  obtain h1 where h1: "validateHTTP env (HTTP_Auth (HTTP c)) = Inr h1"
    using v by (cases "validateHTTP env (HTTP_Auth (HTTP c))") (auto simp: validateWithEnv_def o1 split: if_splits option.splits)
  obtain s1 where s1: "validate_spool (Spool_of c) = Inr s1"
    using v by (cases "validate_spool (Spool_of c)") (auto simp: validateWithEnv_def o1 h1 split: if_splits option.splits)
  obtain as where as: "validate_accounts env 0 [] (Accounts c) = Inr as"
    using v by (cases "validate_accounts env 0 [] (Accounts c)")
      (auto simp: validateWithEnv_def o1 h1 s1 split: if_splits option.splits)
  have c: "TrimSpace (Listen (Server c)) \<noteq> ''''" "validateServerListenAddress (Listen (Server c)) = None"
    "validatePassive (Passive (Server c)) = None"
    "\<not> (TLS_Enabled (TLS (Server c)) \<and> (TrimSpace (TLS_Cert (TLS (Server c))) = '''' \<or> TrimSpace (TLS_Key (TLS (Server c))) = ''''))"
    "Accounts c \<noteq> []"
    and c': "c = c\<lparr>OCIS_of := o1, HTTP := HTTP c\<lparr>HTTP_Auth := h1\<rparr>, Spool_of := s1, Accounts := as\<rparr>"
    using v by (auto simp: validateWithEnv_def o1 h1 s1 as split: if_splits option.splits)
  have "OCIS_of c = o1" "Accounts c = as" using arg_cong [OF c', of OCIS_of] arg_cong [OF c', of Accounts] by simp_all
  then show ?thesis using c o1 as h sp by (simp add: validateWithEnv_def)
qed

lemma demo_config_validated: "validateWithEnv an_environment (Some demo_config) = Inr demo_config"
  unfolding demo_config_def
proof (rule validate_replace)
  show "validateWithEnv an_environment (Some the_config) = Inr the_config"
    using validated_config_spec [OF a_config_validated] by blast
  have "TrimSpace ''admin'' = ''admin''" "TrimSpace ''s3cret'' = ''s3cret''"
    by (rule TrimSpace_tight, simp add: tight_def IsSpace_def)+
  then show "validateHTTP an_environment (HTTP_Auth (HTTP the_config)\<lparr>Auth_Password := ''s3cret''\<rparr>)
      = Inr (HTTP_Auth (HTTP the_config)\<lparr>Auth_Password := ''s3cret''\<rparr>)"
    by (simp add: validateHTTP_def the_config_def a_config_def New_config_def)
qed (simp add: validate_spool_def IsAbs_def)

lemma demo_service_driver:
  obtains s fs' out' where "New_service demo_machine ctx_init (Some demo_config) demo_client [] [] = (Inr s, fs', out')"
    "sv_driver s = demo_new" "op_started (sv_http s) = False"
proof -
  have i: "initializeSpool (example_env 5 7) demo_config [] ctx_init = (Inr (new_spool ''/spool'' 1000 [] ctx_init), [])"
    by code_simp
  have t: "TLS_Enabled (TLS (Server demo_config)) = False" "needs_password demo_config = False"
    by (simp_all add: demo_config_def the_config_def a_config_def New_config_def needs_password_def)
  have "\<exists>s fs' out'. New_service demo_machine ctx_init (Some demo_config) demo_client [] [] = (Inr s, fs', out')
      \<and> sv_driver s = demo_new \<and> op_started (sv_http s) = False"
    by (simp add: New_service_def demo_machine_def demo_config_validated ValidateTLSConfig_def t i Start_client_def
        NewOperationsServer_def demo_new_def)
  with that show thesis by blast
qed

text \<open>The configuration that \<open>main\<close> loads is validated again, which leaves it as it is.\<close>

lemma loaded_config_unchanged:
  assumes "fst (LoadFileWithEnv read_file decode env path) = Inr cfg"
  shows "validateWithEnv env (Some cfg) = Inr cfg"
proof -
  obtain c0 where "validateWithEnv env (Some c0) = Inr cfg"
    using assms by (auto simp: LoadFileWithEnv_def Let_def split: if_splits sum.splits option.splits)
  then show ?thesis using validated_config_spec by blast
qed

section \<open>Metrics\<close>

text \<open>Starting the service leaves its driver alone, and counts nothing.\<close>

lemma Run_start_service:
  obtains out' where "fst (Run_start ftp listen s out) = fst (snd (snd (StartSpoolMonitor (fst (snd (runHTTPServer listen s out'))))))"
  unfolding Run_start_def Let_def case_prod_beta fst_conv by blast

lemma runHTTPServer_service:
  "sv_driver (fst (snd (runHTTPServer listen s out))) = sv_driver s"
  "pm_counters (op_prom (sv_http (fst (snd (runHTTPServer listen s out))))) = pm_counters (op_prom (sv_http s))"
  by (auto simp: runHTTPServer_def Run_http_def Let_def split: prod.split sum.split)

lemma StartSpoolMonitor_service:
  "sv_driver (fst (snd (snd (StartSpoolMonitor s)))) = sv_driver s"
  "pm_counters (op_prom (sv_http (fst (snd (snd (StartSpoolMonitor s)))))) = pm_counters (op_prom (sv_http s))"
  by (auto simp: StartSpoolMonitor_def Start_monitor_def SetSpoolCapacityBytes_def set_gauge_def Let_def split: prod.split)

lemma Run_start_same:
  "sv_driver (fst (Run_start ftp listen s out)) = sv_driver s"
  "pm_counters (op_prom (sv_http (fst (Run_start ftp listen s out)))) = pm_counters (op_prom (sv_http s))"
  by (rule Run_start_service [of ftp listen s out]; simp add: runHTTPServer_service StartSpoolMonitor_service)+

text \<open>C37. No metric of the FTP side is ever recorded by a running service: the driver of a constructed
  service has no recorder, none of its steps installs one, and every counter of the metrics that the
  recorder would fill is still zero after the service has started.\<close>

theorem ftp_metrics_never_recorded:
  assumes new: "New_service ma cs (Some cfg) obs fs out = (Inr s, fs', out')"
    and run: "(bstep IDKey sdk net)\<^sup>*\<^sup>* (sv_driver (fst (Run_start ftp listen s out')), [], w) (d, ls, w')"
  shows "br_metrics d = None \<and> counter_value (op_prom (sv_http (fst (Run_start ftp listen s out')))) name labels = 0"
proof -
  note d = Run_start_same(1) [of ftp listen s out']
  have "reaches IDKey sdk net (sv_cfg s) (sv_driver s, [], w)" by (rule conjunct2 [OF New_service_reaches [OF new]])
  from reaches_inv [OF reaches_more [OF this run [unfolded d]]]
  have "br_metrics d = None" by (simp add: reach_inv_def)
  moreover have "pm_counters (op_prom (sv_http s)) = []"
    by (rule New_service_cases [OF new]) (simp add: NewOperationsServer_def)
  then have "pm_counters (op_prom (sv_http (fst (Run_start ftp listen s out')))) = []"
    by (simp add: Run_start_same(2))
  ultimately show ?thesis by (simp add: counter_value_def)
qed

theorem ftp_metrics_never_recorded_witness:
  "\<exists>s fs' out'. New_service demo_machine ctx_init (Some a_config) demo_client [] [] = (Inr s, fs', out')
     \<and> br_metrics (sv_driver (fst (Run_start None (\<lambda>a. Inr a) s out'))) = None"
proof (rule demo_service)
  fix s fs' out'
  assume s: "New_service demo_machine ctx_init (Some a_config) demo_client [] [] = (Inr s, fs', out')"
  show ?thesis
    using s conjunct1 [OF ftp_metrics_never_recorded [OF s rtranclp.rtrancl_refl [of "bstep toy_key demo_sdk scripted"]]] by blast
qed

section \<open>The end\<close>

text \<open>C10. Once a running service has been stopped, whatever its clients did before and still do, in every
  later state: a login is refused at its start; opening a file sends no request, for any session and
  path; no upload accepts a byte, those opened after the stop included; closing one reports an error
  and sends no request; and the operations server, whose shutdown succeeded, serves nothing. The stop itself
  reports no error, even where closing the FTP listener does. (A login that was already verifying
  its password when the service was stopped may still finish; its session is refused all of this too.)\<close>

theorem stopped_service:
  assumes new: "New_service ma cs (Some cfg) obs fs out = (Inr s, fs', out')"
    and run: "(bstep IDKey sdk net)\<^sup>*\<^sup>* (sv_driver s, [], w) (d1, ls1, w1)"
    and stop: "Run_stop ftp_stop None (s\<lparr>sv_driver := d1, sv_http := h\<rparr>) out1 = (e, s2, out2)"
    and rest: "(bstep IDKey sdk net)\<^sup>*\<^sup>* (sv_driver s2, ls1, w1) (d, ls, w2)"
  shows "fst (auth_enter t addr d) \<noteq> None
    \<and> snd (snd (handleUploadOpen net' env q path d v)) = v
    \<and> (\<exists>e d'. writer_Write env k p d = ((0, Some e), d') \<and> br_spool d' = br_spool d)
    \<and> (\<exists>e d'. writer_Close net' env k d v = (Some e, d', v))
    \<and> e = None \<and> \<not> serving (sv_http s2)"
proof -
  have s2: "sv_driver s2 = Shutdown d1" "\<not> serving (sv_http s2)" "e = None"
    using stop by (auto simp: Run_stop_def stopFTPServer_def stopHTTPServer_def Stop_http_def Stop_client_def serving_def
        split: prod.splits if_splits)
  have "reaches IDKey sdk net (sv_cfg s) (sv_driver s, [], w)" by (rule conjunct2 [OF New_service_reaches [OF new]])
  from reaches_more [OF this run] have r: "reaches IDKey sdk net (sv_cfg s) (d1, ls1, w1)" .
  have "reaches IDKey sdk net (sv_cfg s) (Shutdown d1, ls1, w1)"
    by (rule reaches_more [OF r r_into_rtranclp]) (rule bstep.Stop)
  from reaches_more [OF this rest [unfolded s2(1)]] have rd: "reaches IDKey sdk net (sv_cfg s) (d, ls, w2)" .
  have sh: "br_shutdown d" using shutdown_stays [OF rest] by (simp add: s2(1) Shutdown_def)
  have "(\<exists>e d'. writer_Write env k p d = ((0, Some e), d') \<and> br_spool d' = br_spool d)
    \<and> (\<exists>e d'. writer_Close net' env k d v = (Some e, d', v))"
  proof (cases "map_of (br_writers d) k")
    case None
    then show ?thesis by (simp add: writer_Write_def writer_Close_def)
  next
    case (Some x)
    show ?thesis by (rule ended_upload [OF r disjI1 [OF refl] rest [unfolded s2(1)] Some])
  qed
  then show ?thesis using shutdown_silent(1) [OF rd sh, of net' env q path v] shutdown_silent(2) [OF rd sh, of t addr] s2(2,3)
    by (intro conjI) simp_all
qed

theorem stopped_service_witness:
  "\<exists>s fs' out' s2 e d'. New_service demo_machine ctx_init (Some demo_config) demo_client [] [] = (Inr s, fs', out')
     \<and> (bstep toy_key demo_sdk scripted)\<^sup>*\<^sup>* (sv_driver s, [], [404, 200]) (demo_written, [], [])
     \<and> fst (snd (Run_stop None None (s\<lparr>sv_driver := demo_written, sv_http := sv_http s\<rparr>) [])) = s2
     \<and> writer_Close scripted (example_env 9 7) 0 (sv_driver s2) [200, 201] = (Some e, d', [200, 201])
     \<and> snd (snd (handleUploadOpen scripted (example_env 9 7) 0 ''/in/b.pdf'' (sv_driver s2) [404, 201])) = [404, 201]"
proof (rule demo_service_driver)
  fix s fs' out'
  assume s: "New_service demo_machine ctx_init (Some demo_config) demo_client [] [] = (Inr s, fs', out')"
    and d: "sv_driver s = demo_new"
  have run: "(bstep toy_key demo_sdk scripted)\<^sup>*\<^sup>* (sv_driver s, [], [404, 200]) (demo_written, [], [])"
    unfolding d by (rule demo_run)
  let ?r = "Run_stop None None (s\<lparr>sv_driver := demo_written, sv_http := sv_http s\<rparr>) []"
  obtain e s2 out2 where r: "?r = (e, s2, out2)" by (metis prod.collapse)
  note S = stopped_service [OF s run r rtranclp.rtrancl_refl]
  have "\<exists>e d'. writer_Close scripted (example_env 9 7) 0 (sv_driver s2) [200, 201] = (Some e, d', [200, 201])"
    by (rule conjunct1 [OF conjunct2 [OF conjunct2 [OF conjunct2 [OF S]]]])
  moreover have "snd (snd (handleUploadOpen scripted (example_env 9 7) 0 ''/in/b.pdf'' (sv_driver s2) [404, 201])) = [404, 201]"
    by (rule conjunct1 [OF conjunct2 [OF S]])
  moreover have "fst (snd ?r) = s2" unfolding r by (simp only: fst_conv snd_conv)
  ultimately show ?thesis using s run by blast
qed

end
