(* ===== verification/Spec2Isabelle.thy ===== *)
theory Spec2Isabelle
  imports Connections AuthAttempts UploadSlots SpoolConfined SpoolContent SpoolManager TransfersProps ConfigProps Graph Drives
    BridgeContent BridgeProgress BridgeLogins FtpBoundary Logger OperationsMetrics ServiceProps
begin

text \<open>
  \<^bold>\<open>Verification of ocis-ftp-bridge.\<close> The bridge lets printers and scanners upload files over FTP; it
  keeps each file in a spool directory while it arrives and then puts it into ownCloud Infinite
  Scale (oCIS) over WebDAV. This development models the Go code under \<open>src/\<close> and proves what it promises
  and, where it does not keep a promise, what it does instead.

  \<^bold>\<open>The program.\<close> \<open>cmd/ocis-ftp-bridge\<close> loads a configuration (\<open>pkg/config\<close>) and builds a service
  (\<open>pkg/server\<close>): a spool (\<open>pkg/spool\<close>), an FTP driver (\<open>pkg/ftp\<close>) that the protocol library calls for
  every connection, login, open, write and close, an HTTP server for operations (\<open>pkg/http\<close>) and a
  monitor of the spool. A login checks the password hash and resolves the drive of the account
  over LibreGraph (\<open>pkg/graph\<close>); an upload gets its target path from the transfer manager of its
  account (\<open>pkg/transfer\<close>), a slot, and a temporary file in the spool; closing it finishes the spool
  file and commits it with the WebDAV client (\<open>pkg/webdav\<close>).

  \<^bold>\<open>Theories and sources.\<close>
  \<^item> \<open>Prelude\<close>, \<open>GoPath\<close>, \<open>Utf8\<close>, \<open>GoNet\<close>: the parts of Go's standard library that the code uses
    (strings, numbers, machine integers, paths, runes, addresses, URLs, the tree of contexts).
    \<open>OsFiles\<close>: a store of files with the operations of \<open>os\<close>, any of which may fail.
    \<open>Interfaces\<close>: the contracts as locales; each is interpreted on the model of the code.
  \<^item> \<open>AppErrors\<close>: error values, wrapping and inspection (\<open>pkg/errors/errors.go\<close>).
  \<^item> \<open>Connections\<close>, \<open>AuthAttempts\<close>, \<open>UploadSlots\<close>: the limits on connections, failed logins and concurrent
    uploads (\<open>pkg/ftp/driver.go\<close>).
  \<^item> \<open>Spool\<close>, \<open>SpoolContent\<close>, \<open>SpoolConfined\<close>, \<open>SpoolManager\<close>: the upload manager and the file manager of
    the spool (\<open>pkg/spool/spool.go\<close>): accounting, content, confinement, and the operations on finished files.
  \<^item> \<open>Webdav\<close>, \<open>WebdavProps\<close>: the client (\<open>pkg/webdav\<close>). \<open>Transfers\<close>, \<open>TransfersProps\<close>: path mapping,
    sanitising, collisions, directories (\<open>pkg/transfer/transfer.go\<close>).
  \<^item> \<open>Passwords\<close>: Argon2id strings and the tool that prints them (\<open>pkg/config\<close>, \<open>cmd/hash-password\<close>).
    \<open>Config\<close>, \<open>ConfigProps\<close>: sizes, defaults, loading, validation, certificates, printing (\<open>pkg/config/config.go\<close>).
  \<^item> \<open>Graph\<close>, \<open>Drives\<close>: the Graph client and resolver (\<open>pkg/graph\<close>), and the driver's drive resolution with
    its cache.
  \<^item> \<open>Bridge\<close>, \<open>BridgeUploads\<close>: the driver of \<open>pkg/ftp/driver.go\<close>, operation by operation. \<open>BridgeSteps\<close>: its step
    relation. \<open>UploadTargets\<close>, \<open>BridgeInv\<close>, \<open>BridgeOpen\<close>, \<open>BridgeReach\<close>: the invariant. \<open>BridgeExample\<close>: a run
    that the witnesses use. \<open>BridgeProps\<close>, \<open>BridgeCommits\<close>, \<open>BridgeContent\<close>, \<open>BridgeProgress\<close>, \<open>BridgeLogins\<close>: the properties.
    \<open>FtpBoundary\<close>: the credential abstraction of \<open>pkg/ftp/ftp.go\<close>.
  \<^item> \<open>Logger\<close>: \<open>pkg/observability\<close>. \<open>HttpAuth\<close>, \<open>Operations\<close>, \<open>OperationsProps\<close>, \<open>OperationsMetrics\<close>: \<open>pkg/http\<close>.
    \<open>Monitor\<close>: \<open>pkg/spool/monitor.go\<close>. \<open>Service\<close>, \<open>ServiceProps\<close>: \<open>pkg/server\<close> and \<open>main\<close>.

  \<^bold>\<open>State and steps.\<close> The state of the driver is the record \<open>BridgeDriver\<close>: the fields of the Go struct, with
  the sessions, the open uploads and the spool's uploads in tables of references, so that what the code
  shares by pointer is shared here. A step of the system (\<open>bstep\<close>) is one of: a connection, a disconnection, either part of a
  login, an open, a write, a close, a tick of the janitor, the shutdown. A login has two steps, between which
  anything may happen, since it verifies the password without a lock. That the other operations are one step each is the
  grain of the model, not a consequence of the mutexes: an open (\<open>handleUploadOpen\<close>) and a close (\<open>Close\<close>,
  \<open>commitToWebDAV\<close>) make their requests to the server without a lock, and \<open>WriteChunk\<close> of the spool gives its lock
  up while it writes; what another operation could see halfway through them is not modelled, and the invariants
  on slots, tables and usage are about the states between operations. Contexts form a tree of tokens: the
  driver's, below it one for each session, below that one for each upload; a request under a context that is
  done is not sent (\<open>with_ctx\<close>), which is decided when the operation starts. The step relation has no
  assumption on clients, server, clock and disk; an open asks only that the path is the clean
  absolute one that the library passes, and that the counter of the session's uploads, an unsigned integer of 64 bits, has not
  wrapped.

  \<^bold>\<open>What is shown.\<close> The spool: its accounting, that nothing outside of it is written, that a finished file holds
  the accepted chunks under every interleaving, cleanup, store and retrieve. The driver, in every
  reachable state: uploads stay below the root of their account, slots are the open uploads and within
  the cap, verifications are bounded, a successful close means that the server accepted the whole file, which is
  exactly what the client wrote, in every run that draws fresh names and does not overflow the counters of bytes (\<open>BridgeContent\<close>), an
  ended session sends nothing, a close ends after a bounded number of requests and gives its slot back, logins
  succeed exactly when they should and do not reveal which names exist. Paths: targets, names and
  URLs are confined and free of control characters and URL syntax. Configuration: what passes validation is well formed and stays so; secrets are
  not printed; sizes are exact; printed hashes verify. Operations: the guard, readiness and its cache, the metrics,
  JSON texts. The service: what a constructed one guarantees, and that after it has been stopped no login begins and no upload
  is opened over the network, written or committed. The
  properties that describe a defect say so.

  \<^bold>\<open>Integers, bounds, termination.\<close> Counters and sizes have their width (\<open>64 word\<close>, or \<open>int\<close> reduced to the signed
  range by \<open>s64\<close>); wrap-around is part of the model. Loops are structural, run over the bound of the code (three attempts
  of an upload, three of a commit, 101 candidates of a name) or have a termination proof; there is no
  fuel. The copy loop of \<open>StoreStream\<close> runs over the list of the chunks that the reader delivers.

  \<^bold>\<open>Parameters.\<close> Code that is not under \<open>src/\<close> is an argument: the HTTP transport and the server (\<open>net\<close>), the Graph
  SDK (\<open>sdk\<close>), Argon2id (\<open>IDKey\<close>), YAML decoding, key pairs, the digest of file identifiers, the operating system's
  faults and clock (\<open>os_env\<close>, whose faults last for one operation), random names and bytes, listeners. No law is assumed of
  them beyond what a property states as its hypothesis.

  \<^bold>\<open>Not modelled.\<close> The FTP protocol itself (\<open>ftpserverlib\<close>): \<open>pkg/ftp/ftp.go\<close> only names its types and
  constructs its server. Timing side
  channels, memory, the rendering of log records and metrics, the data races that mutexes
  exclude, and the interleavings inside an open, a close or the writing of a chunk. Deployment files and tests.
\<close>

end
